(* ===== verification/Prelude.thy ===== *)
theory Prelude
  imports Main "HOL-Library.Word"
begin

text \<open>
  Shared vocabulary of the development: the machine integers of the kernel, the error codes
  of \<^verbatim>\<open>axerrno\<close> that the sources name, Rust's \<^verbatim>\<open>?\<close> operator on results, the bit-set
  operations of \<^verbatim>\<open>bitflags\<close>, the outcome of a call that may wait or panic, and the generic
  list and word lemmas the components use.

  Conventions. A 64-bit target is modelled (every supported architecture is one), so
  \<^verbatim>\<open>usize\<close> is a 64-bit word. Arithmetic on words wraps, as it does in a release build.
  Lengths and indices whose bound is part of an invariant are natural numbers. A panic is
  an explicit value: \<open>None\<close> for helpers, \<open>Panic\<close> for whole calls.
\<close>

section \<open>Machine integers\<close>

unbundle bit_operations_syntax

type_synonym u8 = "8 word"
type_synonym u16 = "16 word"
type_synonym u32 = "32 word"
type_synonym u64 = "64 word"
type_synonym usize = "64 word"
type_synonym isize = "64 word"
type_synonym i32 = "32 word"
type_synonym c_int = "32 word"

text \<open>\<^verbatim>\<open>x as usize\<close> for a signed 32-bit \<open>x\<close> sign-extends; \<^verbatim>\<open>x as c_int\<close> truncates.\<close>

definition c_int_as_usize :: "c_int \<Rightarrow> usize" where
  "c_int_as_usize x = scast x"

definition usize_as_c_int :: "usize \<Rightarrow> c_int" where
  "usize_as_c_int x = ucast x"

lemma usize_as_c_int_inverse [simp]: "usize_as_c_int (c_int_as_usize x) = x"
  unfolding usize_as_c_int_def c_int_as_usize_def by (simp add: bit_eq_iff bit_simps)

lemma c_int_as_usize_inject [simp]: "c_int_as_usize x = c_int_as_usize y \<longleftrightarrow> x = y"
  by (metis usize_as_c_int_inverse)

lemma c_int_as_usize_small:
  assumes "unat i < 1024"
  shows "c_int_as_usize (usize_as_c_int i) = i"
proof -
  have "int (unat i) = uint i" by simp
  with assms have "uint i < 1024" by linarith
  then have small: "signed_take_bit 31 (uint i) = uint i"
    by (intro signed_take_bit_int_eq_self) (auto intro: order_trans [of _ 0])
  have "sint (ucast i :: 32 word) = signed_take_bit 31 (uint i)"
    by (simp add: signed_ucast_eq)
  then have "word_of_int (sint (ucast i :: 32 word)) = i"
    unfolding small by simp
  then show ?thesis
    by (simp only: c_int_as_usize_def usize_as_c_int_def of_int_sint)
qed

lemma unat_div_mult: "unat (x div g * g) = unat x div unat g * unat g" for x g :: "'a::len word"
proof -
  have "unat (x div g) * unat g \<le> unat x" by (simp add: unat_div)
  also have "unat x < 2 ^ LENGTH('a)" by (rule unsigned_less)
  finally show ?thesis by (simp add: unat_mult_lem [THEN iffD1] unat_div)
qed

lemma div_mult_le_word: "x div g * g \<le> x" for x g :: "'a::len word"
  by (simp add: word_le_nat_alt unat_div_mult)

lemma div_mult_div_word [simp]: "x div g * g div g = x div g" for x g :: "'a::len word"
  by (rule word_unat_eq_iff [THEN iffD2]) (simp add: unat_div unat_div_mult)

lemma ucast_u32_u64_u32 [simp]: "ucast (ucast x :: u64) = x" for x :: u32
  by (simp add: bit_eq_iff bit_simps)

section \<open>Errors and results\<close>

datatype LinuxError =
    EPERM | ENOENT | ESRCH | EINTR | EBADF | ECHILD | EAGAIN | ENOMEM | EFAULT
  | EEXIST | ENODEV | ENOTDIR | EISDIR | EINVAL | EMFILE | EPIPE | ERANGE | ENOSYS
  | EILSEQ | EISCONN | EOPNOTSUPP | EAFNOSUPPORT | EIO

datatype AxError = AlreadyExists | InvalidData | InvalidInput | IsADirectory | NotFound
  | OtherAxError nat

type_synonym 'a LinuxResult = "LinuxError + 'a"
type_synonym 'a AxResult = "AxError + 'a"

text \<open>Rust's \<^verbatim>\<open>?\<close>: stop at the first error, otherwise go on with the value.\<close>

definition try_then :: "'e + 'a \<Rightarrow> ('a \<Rightarrow> 'e + 'b) \<Rightarrow> 'e + 'b" where
  "try_then m f = (case m of Inl e \<Rightarrow> Inl e | Inr x \<Rightarrow> f x)"

lemma try_then_simps [simp]:
  "try_then (Inl e) f = Inl e"
  "try_then (Inr x) f = f x"
  by (simp_all add: try_then_def)

lemma try_then_Inr [simp]:
  "try_then m f = Inr y \<longleftrightarrow> (\<exists>x. m = Inr x \<and> f x = Inr y)"
  by (cases m) auto

lemma try_then_Inl:
  "try_then m f = Inl e \<longleftrightarrow> m = Inl e \<or> (\<exists>x. m = Inr x \<and> f x = Inl e)"
  by (cases m) auto

text \<open>\<^verbatim>\<open>Option::ok_or\<close> and \<^verbatim>\<open>Result::map_err\<close>.\<close>

definition ok_or :: "'a option \<Rightarrow> 'e \<Rightarrow> 'e + 'a" where
  "ok_or x e = (case x of None \<Rightarrow> Inl e | Some v \<Rightarrow> Inr v)"

lemma ok_or_simps [simp]:
  "ok_or None e = Inl e"
  "ok_or (Some v) e = Inr v"
  by (simp_all add: ok_or_def)

lemma ok_or_Inr [simp]: "ok_or x e = Inr v \<longleftrightarrow> x = Some v"
  by (cases x) auto

lemma ok_or_Inl [simp]: "ok_or x e = Inl e' \<longleftrightarrow> x = None \<and> e' = e"
  by (cases x) auto

definition map_err :: "('e \<Rightarrow> 'f) \<Rightarrow> 'e + 'a \<Rightarrow> 'f + 'a" where
  "map_err g m = (case m of Inl e \<Rightarrow> Inl (g e) | Inr x \<Rightarrow> Inr x)"

lemma map_err_simps [simp]:
  "map_err g (Inl e) = Inl (g e)"
  "map_err g (Inr x) = Inr x"
  by (simp_all add: map_err_def)

text \<open>The \<^verbatim>\<open>?\<close> operator in code that may also panic, where \<open>None\<close> is the panic.\<close>

definition ptry :: "('e + 'a) option \<Rightarrow> ('a \<Rightarrow> ('e + 'b) option) \<Rightarrow> ('e + 'b) option" where
  "ptry m f = (case m of None \<Rightarrow> None | Some (Inl e) \<Rightarrow> Some (Inl e) | Some (Inr x) \<Rightarrow> f x)"

lemma ptry_simps [simp]:
  "ptry None f = None"
  "ptry (Some (Inl e)) f = Some (Inl e)"
  "ptry (Some (Inr x)) f = f x"
  by (simp_all add: ptry_def)

section \<open>Calls that may wait or panic\<close>

text \<open>
  A kernel call that polls in a loop runs against a schedule: what the other tasks do while
  it yields. \<open>Pending s\<close> is the state in which the schedule ends while the call still waits.
\<close>

datatype ('r, 's) call = Panic | Pending 's | Done 'r 's

fun call_state :: "('r, 's) call \<Rightarrow> 's option" where
  "call_state Panic = None"
| "call_state (Pending s) = Some s"
| "call_state (Done r s) = Some s"

section \<open>Bit sets\<close>

text \<open>
  The operations the \<^verbatim>\<open>bitflags!\<close> macro documents for a set of flags held in a word:
  \<^verbatim>\<open>contains\<close> asks for every bit of its argument, \<^verbatim>\<open>from_bits_truncate\<close> drops unknown bits
  and \<^verbatim>\<open>from_bits\<close> refuses them.
\<close>

definition contains :: "'w::len word \<Rightarrow> 'w word \<Rightarrow> bool" where
  "contains x f \<longleftrightarrow> x AND f = f"

definition from_bits_truncate :: "'w::len word \<Rightarrow> 'w word \<Rightarrow> 'w word" where
  "from_bits_truncate known x = x AND known"

definition from_bits :: "'w::len word \<Rightarrow> 'w word \<Rightarrow> 'w word option" where
  "from_bits known x = (if x AND NOT known = 0 then Some x else None)"

lemma contains_or: "contains x (f OR g) \<longleftrightarrow> contains x f \<and> contains x g"
  unfolding contains_def bit_eq_iff by (auto simp: bit_simps)

lemma contains_truncate:
  "contains known f \<Longrightarrow> contains (from_bits_truncate known x) f \<longleftrightarrow> contains x f"
  unfolding contains_def from_bits_truncate_def bit_eq_iff by (auto simp: bit_simps)

lemma contains_self_or [simp]: "contains (f OR g) f" "contains (f OR g) g"
  unfolding contains_def bit_eq_iff by (auto simp: bit_simps)

section \<open>Lists\<close>

lemma take_add_drop: "take m (drop n xs) @ take k (drop (n + m) xs) = take (m + k) (drop n xs)"
  by (metis add.commute drop_drop take_add)

lemma take_Suc_drop:
  "n < length xs \<Longrightarrow> take (Suc k) (drop n xs) = xs ! n # take k (drop (Suc n) xs)"
  by (simp add: Cons_nth_drop_Suc [symmetric])

end
