(* ===== verification/Ring_Buffer.thy ===== *)
theory Ring_Buffer
  imports Prelude
begin

text \<open>
  The ring buffer of \<^verbatim>\<open>api/src/file/pipe.rs\<close>: a fixed array with a head and a tail
  index and a status that tells a full buffer from an empty one. The interface the pipe
  relies on is the locale \<open>byte_queue\<close>, a bounded first-in first-out queue; the buffer
  implements it. The two byte-copying loops of the pipe are modelled here over any queue and
  their effect is proved once, inside the locale.
\<close>

section \<open>The buffer\<close>

datatype RingBufferStatus = Full | Empty | Normal

definition RING_BUFFER_SIZE :: nat where
  "RING_BUFFER_SIZE = 256"

record PipeRingBuffer =
  rb_arr :: "u8 list"
  rb_head :: nat
  rb_tail :: nat
  rb_status :: RingBufferStatus

definition PipeRingBuffer_new :: PipeRingBuffer where
  "PipeRingBuffer_new =
     \<lparr>rb_arr = replicate RING_BUFFER_SIZE 0, rb_head = 0, rb_tail = 0, rb_status = Empty\<rparr>"

text \<open>An index outside the array panics, which is \<open>None\<close>.\<close>

definition write_byte :: "PipeRingBuffer \<Rightarrow> u8 \<Rightarrow> PipeRingBuffer option" where
  "write_byte rb b =
     (if rb_tail rb < length (rb_arr rb) then
        let rb1 = rb\<lparr>rb_status := Normal, rb_arr := (rb_arr rb)[rb_tail rb := b],
                     rb_tail := (rb_tail rb + 1) mod RING_BUFFER_SIZE\<rparr>
        in Some (if rb_tail rb1 = rb_head rb1 then rb1\<lparr>rb_status := Full\<rparr> else rb1)
      else None)"

definition read_byte :: "PipeRingBuffer \<Rightarrow> (u8 \<times> PipeRingBuffer) option" where
  "read_byte rb =
     (if rb_head rb < length (rb_arr rb) then
        let c = rb_arr rb ! rb_head rb;
            rb1 = rb\<lparr>rb_status := Normal, rb_head := (rb_head rb + 1) mod RING_BUFFER_SIZE\<rparr>
        in Some (c, if rb_head rb1 = rb_tail rb1 then rb1\<lparr>rb_status := Empty\<rparr> else rb1)
      else None)"

definition available_read :: "PipeRingBuffer \<Rightarrow> nat" where
  "available_read rb =
     (if rb_status rb = Empty then 0
      else if rb_tail rb > rb_head rb then rb_tail rb - rb_head rb
      else rb_tail rb + RING_BUFFER_SIZE - rb_head rb)"

definition available_write :: "PipeRingBuffer \<Rightarrow> nat" where
  "available_write rb =
     (if rb_status rb = Full then 0 else RING_BUFFER_SIZE - available_read rb)"

section \<open>Invariant and contents\<close>

definition rb_inv :: "PipeRingBuffer \<Rightarrow> bool" where
  "rb_inv rb \<longleftrightarrow> length (rb_arr rb) = RING_BUFFER_SIZE \<and>
     rb_head rb < RING_BUFFER_SIZE \<and> rb_tail rb < RING_BUFFER_SIZE \<and>
     (rb_status rb = Normal \<longleftrightarrow> rb_head rb \<noteq> rb_tail rb)"

definition rb_contents :: "PipeRingBuffer \<Rightarrow> u8 list" where
  "rb_contents rb =
     map (\<lambda>i. rb_arr rb ! ((rb_head rb + i) mod RING_BUFFER_SIZE)) [0..<available_read rb]"

lemma length_rb_contents [simp]: "length (rb_contents rb) = available_read rb"
  by (simp add: rb_contents_def)

lemma RING_BUFFER_SIZE_pos [simp]: "0 < RING_BUFFER_SIZE" "Suc 0 < RING_BUFFER_SIZE"
  by (simp_all add: RING_BUFFER_SIZE_def)

lemma rb_inv_new [simp]: "rb_inv PipeRingBuffer_new"
  by (simp add: rb_inv_def PipeRingBuffer_new_def)

lemma rb_status_new [simp]: "rb_status PipeRingBuffer_new = Empty"
  by (simp add: PipeRingBuffer_new_def)

lemma rb_contents_new [simp]: "rb_contents PipeRingBuffer_new = []"
  by (simp add: rb_contents_def PipeRingBuffer_new_def available_read_def)

text \<open>The tail is the head moved by the number of stored bytes, modulo the size.\<close>

lemma rb_tail_eq:
  assumes "rb_inv rb"
  shows "rb_tail rb = (rb_head rb + available_read rb) mod RING_BUFFER_SIZE"
  using assms by (auto simp: rb_inv_def available_read_def not_less mod_if)

lemma available_read_le: "rb_inv rb \<Longrightarrow> available_read rb \<le> RING_BUFFER_SIZE"
  by (auto simp: rb_inv_def available_read_def)

lemma available_write_eq:
  "rb_inv rb \<Longrightarrow> available_write rb = RING_BUFFER_SIZE - available_read rb"
  by (auto simp: rb_inv_def available_write_def available_read_def)

lemma available_read_full:
  "rb_inv rb \<Longrightarrow> available_read rb < RING_BUFFER_SIZE \<longleftrightarrow> rb_status rb \<noteq> Full"
  by (cases "rb_status rb") (auto simp: rb_inv_def available_read_def)

lemma available_read_empty:
  "rb_inv rb \<Longrightarrow> available_read rb = 0 \<longleftrightarrow> rb_status rb = Empty"
  by (cases "rb_status rb") (auto simp: rb_inv_def available_read_def)

text \<open>Two offsets below the size name the same slot only when they are equal.\<close>

lemma ring_slot_inj:
  fixes h i j n :: nat
  assumes "i < n" "j < n" "(h + i) mod n = (h + j) mod n"
  shows "i = j"
proof -
  have *: "a = b" if "a \<le> b" "b < n" "(h + a) mod n = (h + b) mod n" for a b
  proof -
    have "n dvd (h + b) - (h + a)"
      using that mod_eq_dvd_iff_nat [where m = "h + b" and n = "h + a" and q = n] by simp
    then have "n dvd b - a" by simp
    then have "b - a = 0"
      using that by (auto dest: dvd_imp_le)
    with that show ?thesis by simp
  qed
  show ?thesis
    using * [of i j] * [of j i] assms by (metis nat_le_linear)
qed

lemma write_byte_wf:
  assumes inv: "rb_inv rb" and room: "available_read rb < RING_BUFFER_SIZE"
  shows "\<exists>rb'. write_byte rb b = Some rb' \<and> rb_inv rb' \<and>
    rb_contents rb' = rb_contents rb @ [b]"
proof -
  obtain rb' where w: "write_byte rb b = Some rb'"
    using inv by (simp add: write_byte_def rb_inv_def Let_def)
  have arr: "rb_arr rb' = (rb_arr rb)[rb_tail rb := b]" and hd: "rb_head rb' = rb_head rb"
    using w by (auto simp: write_byte_def Let_def split: if_splits)
  have nf: "rb_status rb \<noteq> Full"
    using available_read_full [OF inv] room by simp
  have inv': "rb_inv rb'"
    using w inv by (auto simp: write_byte_def rb_inv_def Let_def split: if_splits)
  have av: "available_read rb' = Suc (available_read rb)"
    using w inv nf
    by (cases "rb_status rb")
      (auto simp: write_byte_def rb_inv_def available_read_def Let_def mod_if split: if_splits)
  have "rb_contents rb' = rb_contents rb @ [b]"
  proof (rule nth_equalityI)
    show "length (rb_contents rb') = length (rb_contents rb @ [b])"
      by (simp add: av)
  next
    fix i assume "i < length (rb_contents rb')"
    then have i: "i \<le> available_read rb" by (simp add: av)
    let ?slot = "(rb_head rb + i) mod RING_BUFFER_SIZE"
    have nth': "rb_contents rb' ! i = (rb_arr rb)[rb_tail rb := b] ! ?slot"
      using i by (simp add: rb_contents_def av arr hd del: upt_Suc)
    show "rb_contents rb' ! i = (rb_contents rb @ [b]) ! i"
    proof (cases "i = available_read rb")
      case True
      then show ?thesis
        using nth' inv rb_tail_eq [OF inv] by (simp add: nth_append rb_inv_def)
    next
      case False
      with i have lt: "i < available_read rb" by simp
      have "?slot \<noteq> rb_tail rb"
        using ring_slot_inj [of i RING_BUFFER_SIZE "available_read rb" "rb_head rb"]
          lt room rb_tail_eq [OF inv] by auto
      with lt nth' show ?thesis
        by (simp add: nth_append rb_contents_def)
    qed
  qed
  with w inv' show ?thesis by blast
qed

lemma read_byte_wf:
  assumes inv: "rb_inv rb" and some: "rb_contents rb = c # cs"
  shows "\<exists>rb'. read_byte rb = Some (c, rb') \<and> rb_inv rb' \<and> rb_contents rb' = cs"
proof -
  have n: "available_read rb = Suc (length cs)"
    using some length_rb_contents [of rb] by simp
  then have ne: "rb_status rb \<noteq> Empty" by (auto simp: available_read_def)
  have c: "c = rb_arr rb ! rb_head rb"
  proof -
    have "rb_contents rb ! 0 = rb_arr rb ! rb_head rb"
      using inv by (simp add: rb_contents_def n rb_inv_def del: upt_Suc)
    with some show ?thesis by simp
  qed
  obtain rb' where r: "read_byte rb = Some (c, rb')"
    using inv c by (simp add: read_byte_def rb_inv_def Let_def)
  have arr: "rb_arr rb' = rb_arr rb"
    and hd: "rb_head rb' = (rb_head rb + 1) mod RING_BUFFER_SIZE"
    using r by (auto simp: read_byte_def Let_def split: if_splits)
  have inv': "rb_inv rb'"
    using r inv by (auto simp: read_byte_def rb_inv_def Let_def split: if_splits)
  have "Suc (available_read rb') = available_read rb"
    using r inv ne
    by (cases "rb_status rb")
      (auto simp: read_byte_def rb_inv_def available_read_def Let_def mod_if split: if_splits)
  then have av: "available_read rb' = length cs" using n by simp
  have "rb_contents rb' = tl (rb_contents rb)"
  proof (rule nth_equalityI)
    show "length (rb_contents rb') = length (tl (rb_contents rb))"
      by (simp add: av n)
  next
    fix i assume "i < length (rb_contents rb')"
    then have "i < length cs" by (simp add: av)
    then show "rb_contents rb' ! i = tl (rb_contents rb) ! i"
      by (simp add: rb_contents_def av arr hd nth_tl n mod_add_left_eq
            add.assoc [symmetric] del: upt_Suc)
  qed
  with r inv' some show ?thesis by simp
qed

section \<open>The queue interface and its clients\<close>

text \<open>The loop \<^verbatim>\<open>for c in buf.iter_mut().take(read_size)\<close> of \<^verbatim>\<open>Pipe::read\<close>.\<close>

fun read_bytes :: "('q \<Rightarrow> ('b \<times> 'q) option) \<Rightarrow> nat \<Rightarrow> 'q \<Rightarrow> ('b list \<times> 'q) option" where
  "read_bytes pop 0 q = Some ([], q)"
| "read_bytes pop (Suc n) q =
     (case pop q of
        None \<Rightarrow> None
      | Some (c, q') \<Rightarrow>
          (case read_bytes pop n q' of
             None \<Rightarrow> None
           | Some (cs, q'') \<Rightarrow> Some (c # cs, q'')))"

text \<open>
  The loop \<^verbatim>\<open>for _ in 0..loop_write\<close> of \<^verbatim>\<open>Pipe::write\<close>. The flag of the result says
  whether the loop returned from the call; otherwise the count is where it stopped.
\<close>

fun write_bytes ::
  "('q \<Rightarrow> 'b \<Rightarrow> 'q option) \<Rightarrow> 'b list \<Rightarrow> nat \<Rightarrow> nat \<Rightarrow> 'q \<Rightarrow> (bool \<times> nat \<times> 'q) option" where
  "write_bytes push buf 0 write_size q = Some (False, write_size, q)"
| "write_bytes push buf (Suc n) write_size q =
     (if write_size = length buf then Some (True, write_size, q)
      else if write_size < length buf then
        (case push q (buf ! write_size) of
           None \<Rightarrow> None
         | Some q' \<Rightarrow> write_bytes push buf n (write_size + 1) q')
      else None)"

locale byte_queue =
  fixes inv :: "'q \<Rightarrow> bool"
    and contents :: "'q \<Rightarrow> 'b list"
    and cap :: nat
    and avail_read :: "'q \<Rightarrow> nat"
    and avail_write :: "'q \<Rightarrow> nat"
    and push :: "'q \<Rightarrow> 'b \<Rightarrow> 'q option"
    and pop :: "'q \<Rightarrow> ('b \<times> 'q) option"
  assumes avail_read: "inv q \<Longrightarrow> avail_read q = length (contents q)"
    and avail_write: "inv q \<Longrightarrow> avail_write q = cap - length (contents q)"
    and bounded: "inv q \<Longrightarrow> length (contents q) \<le> cap"
    and push_some: "inv q \<Longrightarrow> length (contents q) < cap \<Longrightarrow>
      \<exists>q'. push q b = Some q' \<and> inv q' \<and> contents q' = contents q @ [b]"
    and pop_some: "inv q \<Longrightarrow> contents q = c # cs \<Longrightarrow>
      \<exists>q'. pop q = Some (c, q') \<and> inv q' \<and> contents q' = cs"
begin

lemma read_bytes_some:
  "inv q \<Longrightarrow> n \<le> length (contents q) \<Longrightarrow>
   \<exists>q'. read_bytes pop n q = Some (take n (contents q), q') \<and> inv q' \<and>
     contents q' = drop n (contents q)"
proof (induction n arbitrary: q)
  case 0
  then show ?case by simp
next
  case (Suc n)
  then obtain c cs where "contents q = c # cs"
    by (cases "contents q") auto
  with Suc.prems obtain q' where "pop q = Some (c, q')" "inv q'" "contents q' = cs"
    using pop_some by blast
  moreover have "\<exists>q''. read_bytes pop n q' = Some (take n cs, q'') \<and> inv q'' \<and>
      contents q'' = drop n cs"
    using Suc.IH [of q'] Suc.prems calculation \<open>contents q = c # cs\<close> by simp
  ultimately show ?case
    using \<open>contents q = c # cs\<close> by auto
qed

lemma write_bytes_some:
  "inv q \<Longrightarrow> ws \<le> length buf \<Longrightarrow> length (contents q) + n \<le> cap \<Longrightarrow>
   \<exists>q'. write_bytes push buf n ws q =
       Some (length buf - ws < n, ws + min n (length buf - ws), q') \<and> inv q' \<and>
     contents q' = contents q @ take n (drop ws buf)"
proof (induction n arbitrary: q ws)
  case 0
  then show ?case by simp
next
  case (Suc n)
  show ?case
  proof (cases "ws = length buf")
    case True
    with Suc.prems show ?thesis by simp
  next
    case False
    with Suc.prems have lt: "ws < length buf" by simp
    obtain q' where p: "push q (buf ! ws) = Some q'" "inv q'"
        "contents q' = contents q @ [buf ! ws]"
      using push_some [of q "buf ! ws"] Suc.prems by auto
    then obtain q'' where "write_bytes push buf n (ws + 1) q' =
        Some (length buf - (ws + 1) < n, ws + 1 + min n (length buf - (ws + 1)), q'')"
        "inv q''" "contents q'' = contents q' @ take n (drop (ws + 1) buf)"
      using Suc.IH [of q' "ws + 1"] Suc.prems lt by auto
    with p lt show ?thesis
      by (auto simp: take_Suc_drop)
  qed
qed

end

interpretation ring: byte_queue rb_inv rb_contents RING_BUFFER_SIZE available_read
  available_write write_byte read_byte
  by unfold_locales
    (simp_all add: available_write_eq available_read_le write_byte_wf read_byte_wf)

section \<open>Properties\<close>

text \<open>
  C2. The ring buffer of a pipe is a bounded first-in first-out queue. On every well-formed
  buffer, writing a byte when it is not full appends it, reading a byte when it is not empty
  takes the oldest one, neither panics, both keep the buffer well-formed, and the two counters
  are the number of stored bytes and the remaining room.
\<close>

theorem ring_buffer_fifo:
  assumes "rb_inv rb"
  shows "(rb_status rb \<noteq> Full \<longrightarrow>
      (\<exists>rb'. write_byte rb b = Some rb' \<and> rb_inv rb' \<and> rb_contents rb' = rb_contents rb @ [b])) \<and>
    (rb_status rb \<noteq> Empty \<longrightarrow>
      (\<exists>c rb'. read_byte rb = Some (c, rb') \<and> rb_inv rb' \<and> rb_contents rb = c # rb_contents rb')) \<and>
    available_read rb = length (rb_contents rb) \<and>
    available_write rb = RING_BUFFER_SIZE - length (rb_contents rb) \<and>
    length (rb_contents rb) \<le> RING_BUFFER_SIZE"
proof (intro conjI impI)
  assume "rb_status rb \<noteq> Full"
  then show "\<exists>rb'. write_byte rb b = Some rb' \<and> rb_inv rb' \<and> rb_contents rb' = rb_contents rb @ [b]"
    using assms available_read_full by (auto intro: ring.push_some)
next
  assume "rb_status rb \<noteq> Empty"
  then obtain c cs where "rb_contents rb = c # cs"
    using available_read_empty [OF assms] by (cases "rb_contents rb") (auto dest: arg_cong [where f = length])
  then show "\<exists>c rb'. read_byte rb = Some (c, rb') \<and> rb_inv rb' \<and> rb_contents rb = c # rb_contents rb'"
    using ring.pop_some [OF assms] by force
qed (use assms in \<open>simp_all add: ring.avail_write available_read_le\<close>)

theorem ring_buffer_fifo_witness:
  "rb_inv PipeRingBuffer_new \<and>
   (\<exists>rb'. write_byte PipeRingBuffer_new 7 = Some rb' \<and> rb_inv rb' \<and> rb_contents rb' = [7])"
  using ring_buffer_fifo [of PipeRingBuffer_new 7] by simp

end
