(* ===== verification/Pipe.thy ===== *)
theory Pipe
  imports Ring_Buffer
begin

text \<open>
  The two ends of a pipe (\<^verbatim>\<open>api/src/file/pipe.rs\<close>, \<^verbatim>\<open>struct Pipe\<close>). Both ends share one
  ring buffer behind a mutex; \<open>pb_count\<close> is the strong count of that shared buffer, so an
  end is \<^verbatim>\<open>closed\<close> when the other one is gone. \<^verbatim>\<open>Pipe::read\<close> and \<^verbatim>\<open>Pipe::write\<close> poll: each
  turn of their loops runs under the lock and is one function here, and between two turns
  other tasks run. A whole call is run against a schedule, the list of what the other tasks
  do to the shared state between its turns. The last section is the system of any number of
  readers and writers on one pipe as a step relation, and its invariant.
\<close>

section \<open>State and operations\<close>

record pipe_buf =
  pb_ring :: PipeRingBuffer
  pb_count :: nat

record pipe_end =
  readable :: bool

definition Pipe_new :: "pipe_end \<times> pipe_end \<times> pipe_buf" where
  "Pipe_new = (\<lparr>readable = True\<rparr>, \<lparr>readable = False\<rparr>,
     \<lparr>pb_ring = PipeRingBuffer_new, pb_count = 2\<rparr>)"

definition writable :: "pipe_end \<Rightarrow> bool" where
  "writable p \<longleftrightarrow> \<not> readable p"

definition closed :: "pipe_buf \<Rightarrow> bool" where
  "closed s \<longleftrightarrow> pb_count s = 1"

text \<open>One turn of a polling loop: leave the call with a result, or go round again.\<close>

datatype ('r, 'l) turn = Leave 'r | Again 'l

text \<open>One turn of \<^verbatim>\<open>Pipe::read\<close> for a buffer of \<open>len\<close> bytes.\<close>

definition pipe_read_turn ::
  "pipe_buf \<Rightarrow> nat \<Rightarrow> ((u8 list, unit) turn \<times> pipe_buf) option" where
  "pipe_read_turn s len =
     (let read_size = min (available_read (pb_ring s)) len
      in if read_size = 0 then
           (if closed s then Some (Leave [], s) else Some (Again (), s))
         else
           (case read_bytes read_byte read_size (pb_ring s) of
              None \<Rightarrow> None
            | Some (cs, rb) \<Rightarrow> Some (Leave cs, s\<lparr>pb_ring := rb\<rparr>)))"

text \<open>One turn of \<^verbatim>\<open>Pipe::write\<close> when \<open>ws\<close> bytes of \<open>buf\<close> are already written.\<close>

definition pipe_write_turn ::
  "pipe_buf \<Rightarrow> u8 list \<Rightarrow> nat \<Rightarrow> ((nat, nat) turn \<times> pipe_buf) option" where
  "pipe_write_turn s buf ws =
     (let loop_write = available_write (pb_ring s)
      in if loop_write = 0 then
           (if closed s then Some (Leave ws, s) else Some (Again ws, s))
         else
           (case write_bytes write_byte buf loop_write ws (pb_ring s) of
              None \<Rightarrow> None
            | Some (ret, ws', rb) \<Rightarrow>
                Some (if ret then Leave ws' else Again ws', s\<lparr>pb_ring := rb\<rparr>)))"

text \<open>The loops, run against what the other tasks do between two turns.\<close>

fun pipe_read_loop ::
  "nat \<Rightarrow> (pipe_buf \<Rightarrow> pipe_buf) list \<Rightarrow> pipe_buf \<Rightarrow> (u8 list LinuxResult, pipe_buf) call" where
  "pipe_read_loop len [] s =
     (case pipe_read_turn s len of
        None \<Rightarrow> Panic
      | Some (Leave cs, s') \<Rightarrow> Done (Inr cs) s'
      | Some (Again _, s') \<Rightarrow> Pending s')"
| "pipe_read_loop len (e # es) s =
     (case pipe_read_turn s len of
        None \<Rightarrow> Panic
      | Some (Leave cs, s') \<Rightarrow> Done (Inr cs) s'
      | Some (Again _, s') \<Rightarrow> pipe_read_loop len es (e s'))"

fun pipe_write_loop ::
  "u8 list \<Rightarrow> nat \<Rightarrow> (pipe_buf \<Rightarrow> pipe_buf) list \<Rightarrow> pipe_buf \<Rightarrow> (nat LinuxResult, pipe_buf) call"
where
  "pipe_write_loop buf ws [] s =
     (case pipe_write_turn s buf ws of
        None \<Rightarrow> Panic
      | Some (Leave n, s') \<Rightarrow> Done (Inr n) s'
      | Some (Again _, s') \<Rightarrow> Pending s')"
| "pipe_write_loop buf ws (e # es) s =
     (case pipe_write_turn s buf ws of
        None \<Rightarrow> Panic
      | Some (Leave n, s') \<Rightarrow> Done (Inr n) s'
      | Some (Again ws', s') \<Rightarrow> pipe_write_loop buf ws' es (e s'))"

text \<open>The whole calls. The bytes read are the result; the source returns their number.\<close>

definition pipe_read ::
  "pipe_end \<Rightarrow> nat \<Rightarrow> (pipe_buf \<Rightarrow> pipe_buf) list \<Rightarrow> pipe_buf \<Rightarrow> (u8 list LinuxResult, pipe_buf) call"
where
  "pipe_read p len es s =
     (if \<not> readable p then Done (Inl EPERM) s
      else if len = 0 then Done (Inr []) s
      else pipe_read_loop len es s)"

definition pipe_write ::
  "pipe_end \<Rightarrow> u8 list \<Rightarrow> (pipe_buf \<Rightarrow> pipe_buf) list \<Rightarrow> pipe_buf \<Rightarrow> (nat LinuxResult, pipe_buf) call"
where
  "pipe_write p buf es s =
     (if \<not> writable p then Done (Inl EPERM) s
      else if closed s then Done (Inl EPIPE) s
      else if buf = [] then Done (Inr 0) s
      else pipe_write_loop buf 0 es s)"

record PollState =
  poll_readable :: bool
  poll_writable :: bool

definition pipe_poll :: "pipe_end \<Rightarrow> pipe_buf \<Rightarrow> PollState LinuxResult" where
  "pipe_poll p s = Inr \<lparr>
     poll_readable = readable p \<and> available_read (pb_ring s) > 0,
     poll_writable = writable p \<and> available_write (pb_ring s) > 0\<rparr>"

section \<open>What one turn does\<close>

abbreviation pb_inv :: "pipe_buf \<Rightarrow> bool" where
  "pb_inv s \<equiv> rb_inv (pb_ring s)"

abbreviation pb_bytes :: "pipe_buf \<Rightarrow> u8 list" where
  "pb_bytes s \<equiv> rb_contents (pb_ring s)"

lemma pipe_read_turn_empty:
  "pb_inv s \<Longrightarrow> pb_bytes s = [] \<Longrightarrow>
   pipe_read_turn s len = Some (if closed s then Leave [] else Again (), s)"
  using ring.avail_read [of "pb_ring s"] by (simp add: pipe_read_turn_def)

lemma pipe_read_turn_some:
  assumes "pb_inv s" "pb_bytes s \<noteq> []" "0 < len"
  shows "\<exists>rb. pipe_read_turn s len = Some (Leave (take len (pb_bytes s)), s\<lparr>pb_ring := rb\<rparr>) \<and>
    rb_inv rb \<and> rb_contents rb = drop len (pb_bytes s)"
proof -
  let ?n = "min (available_read (pb_ring s)) len"
  obtain rb where "read_bytes read_byte ?n (pb_ring s) = Some (take ?n (pb_bytes s), rb)"
      "rb_inv rb" "rb_contents rb = drop ?n (pb_bytes s)"
    using ring.read_bytes_some [of "pb_ring s" ?n] assms by auto
  moreover have "0 < ?n"
    using assms by (metis length_greater_0_conv length_rb_contents min_less_iff_conj)
  moreover have "take ?n (pb_bytes s) = take len (pb_bytes s)"
      and "drop ?n (pb_bytes s) = drop len (pb_bytes s)"
    by (simp_all add: min_def)
  ultimately show ?thesis
    by (auto simp: pipe_read_turn_def Let_def)
qed

lemma pipe_write_turn_full:
  "pb_inv s \<Longrightarrow> length (pb_bytes s) = RING_BUFFER_SIZE \<Longrightarrow>
   pipe_write_turn s buf ws = Some (if closed s then Leave ws else Again ws, s)"
  by (simp add: pipe_write_turn_def available_write_eq)

lemma pipe_write_turn_room:
  assumes "pb_inv s" "length (pb_bytes s) < RING_BUFFER_SIZE" "ws \<le> length buf"
  defines "room \<equiv> RING_BUFFER_SIZE - length (pb_bytes s)"
  shows "\<exists>rb. pipe_write_turn s buf ws =
      Some (if length buf - ws < room then Leave (length buf) else Again (ws + room),
        s\<lparr>pb_ring := rb\<rparr>) \<and>
    rb_inv rb \<and> rb_contents rb = pb_bytes s @ take room (drop ws buf)"
proof -
  have room: "available_write (pb_ring s) = room" "0 < room"
    using assms by (simp_all add: available_write_eq)
  obtain rb where "write_bytes write_byte buf room ws (pb_ring s) =
        Some (length buf - ws < room, ws + min room (length buf - ws), rb)"
      "rb_inv rb" "rb_contents rb = pb_bytes s @ take room (drop ws buf)"
    using ring.write_bytes_some [of "pb_ring s" ws buf room] assms by auto
  with room assms(3) show ?thesis
    by (auto simp: pipe_write_turn_def)
qed

section \<open>Whole calls\<close>

text \<open>What the other tasks must do for a writer to get on: leave room in the buffer.\<close>

definition makes_room :: "(pipe_buf \<Rightarrow> pipe_buf) \<Rightarrow> bool" where
  "makes_room e \<longleftrightarrow> (\<forall>s. pb_inv s \<and> \<not> closed s \<longrightarrow>
     pb_inv (e s) \<and> \<not> closed (e s) \<and> length (pb_bytes (e s)) < RING_BUFFER_SIZE)"

lemma closed_ring_update [simp]: "closed (s\<lparr>pb_ring := rb\<rparr>) = closed s"
  by (simp add: closed_def)

lemma makes_roomD:
  "makes_room e \<Longrightarrow> pb_inv s \<Longrightarrow> \<not> closed s \<Longrightarrow>
   pb_inv (e s) \<and> \<not> closed (e s) \<and> length (pb_bytes (e s)) < RING_BUFFER_SIZE"
  by (simp add: makes_room_def)

lemma pipe_write_loop_completes:
  "pb_inv s \<Longrightarrow> \<not> closed s \<Longrightarrow> length (pb_bytes s) < RING_BUFFER_SIZE \<Longrightarrow> ws \<le> length buf \<Longrightarrow>
   \<forall>e\<in>set es. makes_room e \<Longrightarrow> length buf - ws \<le> length es \<Longrightarrow>
   \<exists>s'. pipe_write_loop buf ws es s = Done (Inr (length buf)) s' \<and> pb_inv s'"
proof (induction es arbitrary: s ws)
  case Nil
  then show ?case
    using pipe_write_turn_room [of s ws buf] by auto
next
  case (Cons e es)
  let ?room = "RING_BUFFER_SIZE - length (pb_bytes s)"
  obtain rb where t: "pipe_write_turn s buf ws =
      Some (if length buf - ws < ?room then Leave (length buf) else Again (ws + ?room),
        s\<lparr>pb_ring := rb\<rparr>)" and rb: "rb_inv rb"
    using pipe_write_turn_room [of s ws buf] Cons.prems by auto
  show ?case
  proof (cases "length buf - ws < ?room")
    case True
    with t rb show ?thesis by simp
  next
    case False
    let ?s = "e (s\<lparr>pb_ring := rb\<rparr>)"
    have "pb_inv ?s \<and> \<not> closed ?s \<and> length (pb_bytes ?s) < RING_BUFFER_SIZE"
      using makes_roomD [of e "s\<lparr>pb_ring := rb\<rparr>"] Cons.prems rb by simp
    then have "\<exists>s'. pipe_write_loop buf (ws + ?room) es ?s = Done (Inr (length buf)) s' \<and> pb_inv s'"
      using Cons.prems False by (intro Cons.IH) auto
    with t False show ?thesis by simp
  qed
qed

lemma pipe_write_loop_full:
  assumes "pb_inv s" "\<not> closed s" "length (pb_bytes s) = RING_BUFFER_SIZE"
  shows "pipe_write_loop buf ws (e # es) s = pipe_write_loop buf ws es (e s)"
  using pipe_write_turn_full [of s buf ws] assms by simp

lemma pipe_write_loop_idle:
  assumes "pb_inv s" "\<not> closed s" "length (pb_bytes s) = RING_BUFFER_SIZE"
  shows "pipe_write_loop buf ws (replicate n id) s = Pending s"
  using pipe_write_turn_full [of s buf ws] assms by (induction n) simp_all

section \<open>Many readers and writers\<close>

text \<open>
  Tasks are numbered. A writer in flight has its buffer and the count already written, a
  reader the length it asked for. \<open>sent\<close> logs the bytes the ring took from the writers, in
  the order it took them, and \<open>received\<close> the bytes handed to readers. An end is dropped
  only when no call on it is in flight, since a call holds its end.
\<close>

record pipe_sys =
  ps_buf :: pipe_buf
  ps_write_end :: bool
  ps_read_end :: bool
  ps_writers :: "nat \<Rightarrow> (u8 list \<times> nat) option"
  ps_readers :: "nat \<Rightarrow> nat option"
  ps_sent :: "u8 list"
  ps_received :: "u8 list"

definition pipe_init :: pipe_sys where
  "pipe_init = \<lparr>ps_buf = snd (snd Pipe_new), ps_write_end = True, ps_read_end = True,
     ps_writers = (\<lambda>_. None), ps_readers = (\<lambda>_. None), ps_sent = [], ps_received = []\<rparr>"

inductive pipe_step :: "pipe_sys \<Rightarrow> pipe_sys \<Rightarrow> bool" where
  write_call: "ps_write_end s \<Longrightarrow> ps_writers s t = None \<Longrightarrow> \<not> closed (ps_buf s) \<Longrightarrow> buf \<noteq> [] \<Longrightarrow>
    pipe_step s (s\<lparr>ps_writers := (ps_writers s)(t := Some (buf, 0))\<rparr>)"
| write_again: "ps_writers s t = Some (buf, ws) \<Longrightarrow>
    pipe_write_turn (ps_buf s) buf ws = Some (Again ws', b) \<Longrightarrow>
    pipe_step s (s\<lparr>ps_buf := b, ps_writers := (ps_writers s)(t := Some (buf, ws')),
      ps_sent := ps_sent s @ take (ws' - ws) (drop ws buf)\<rparr>)"
| write_leave: "ps_writers s t = Some (buf, ws) \<Longrightarrow>
    pipe_write_turn (ps_buf s) buf ws = Some (Leave n, b) \<Longrightarrow>
    pipe_step s (s\<lparr>ps_buf := b, ps_writers := (ps_writers s)(t := None),
      ps_sent := ps_sent s @ take (n - ws) (drop ws buf)\<rparr>)"
| read_call: "ps_read_end s \<Longrightarrow> ps_readers s t = None \<Longrightarrow> 0 < len \<Longrightarrow>
    pipe_step s (s\<lparr>ps_readers := (ps_readers s)(t := Some len)\<rparr>)"
| read_again: "ps_readers s t = Some len \<Longrightarrow>
    pipe_read_turn (ps_buf s) len = Some (Again u, b) \<Longrightarrow>
    pipe_step s (s\<lparr>ps_buf := b\<rparr>)"
| read_leave: "ps_readers s t = Some len \<Longrightarrow>
    pipe_read_turn (ps_buf s) len = Some (Leave cs, b) \<Longrightarrow>
    pipe_step s (s\<lparr>ps_buf := b, ps_readers := (ps_readers s)(t := None),
      ps_received := ps_received s @ cs\<rparr>)"
| drop_write_end: "ps_write_end s \<Longrightarrow> \<forall>t. ps_writers s t = None \<Longrightarrow>
    pipe_step s (s\<lparr>ps_write_end := False,
      ps_buf := (ps_buf s)\<lparr>pb_count := pb_count (ps_buf s) - 1\<rparr>\<rparr>)"
| drop_read_end: "ps_read_end s \<Longrightarrow> \<forall>t. ps_readers s t = None \<Longrightarrow>
    pipe_step s (s\<lparr>ps_read_end := False,
      ps_buf := (ps_buf s)\<lparr>pb_count := pb_count (ps_buf s) - 1\<rparr>\<rparr>)"

inductive pipe_reachable :: "pipe_sys \<Rightarrow> bool" where
  pipe_start: "pipe_reachable pipe_init"
| pipe_next: "pipe_reachable s \<Longrightarrow> pipe_step s s' \<Longrightarrow> pipe_reachable s'"

definition pipe_sys_inv :: "pipe_sys \<Rightarrow> bool" where
  "pipe_sys_inv s \<longleftrightarrow> pb_inv (ps_buf s) \<and>
     ps_sent s = ps_received s @ pb_bytes (ps_buf s) \<and>
     pb_count (ps_buf s) = of_bool (ps_write_end s) + of_bool (ps_read_end s) \<and>
     (\<forall>t buf ws. ps_writers s t = Some (buf, ws) \<longrightarrow> ps_write_end s \<and> ws \<le> length buf) \<and>
     (\<forall>t len. ps_readers s t = Some len \<longrightarrow> ps_read_end s \<and> 0 < len)"

lemma pipe_write_turn_cases:
  assumes "pb_inv s" "ws \<le> length buf" "pipe_write_turn s buf ws = Some (v, s')"
  shows "\<exists>n. ws \<le> n \<and> n \<le> length buf \<and> (v = Leave n \<or> v = Again n) \<and> pb_inv s' \<and>
    pb_count s' = pb_count s \<and> pb_bytes s' = pb_bytes s @ take (n - ws) (drop ws buf)"
proof (cases "length (pb_bytes s) < RING_BUFFER_SIZE")
  case True
  let ?room = "RING_BUFFER_SIZE - length (pb_bytes s)"
  obtain rb where t: "v = (if length buf - ws < ?room then Leave (length buf) else Again (ws + ?room))"
      "s' = s\<lparr>pb_ring := rb\<rparr>" "rb_inv rb" "rb_contents rb = pb_bytes s @ take ?room (drop ws buf)"
    using pipe_write_turn_room [OF assms(1) True assms(2)] assms(3) by auto
  show ?thesis
    by (rule exI [of _ "if length buf - ws < ?room then length buf else ws + ?room"])
      (use t assms(2) in auto)
next
  case False
  then have "length (pb_bytes s) = RING_BUFFER_SIZE"
    using available_read_le [OF assms(1)] by simp
  from pipe_write_turn_full [OF assms(1) this, of buf ws] assms(3)
  have "v = (if closed s then Leave ws else Again ws)" "s' = s" by auto
  with assms(1,2) show ?thesis
    by (intro exI [of _ ws]) auto
qed

lemma pipe_read_turn_cases:
  assumes "pb_inv s" "0 < len" "pipe_read_turn s len = Some (v, s')"
  shows "pb_inv s' \<and> pb_count s' = pb_count s \<and>
    (case v of Leave cs \<Rightarrow> cs @ pb_bytes s' = pb_bytes s | Again _ \<Rightarrow> s' = s)"
proof (cases "pb_bytes s = []")
  case True
  then show ?thesis
    using pipe_read_turn_empty [OF assms(1) True, of len] assms by (auto split: if_splits)
next
  case False
  then show ?thesis
    using pipe_read_turn_some [OF assms(1) False assms(2)] assms(3) by auto
qed

lemma pipe_sys_inv_init: "pipe_sys_inv pipe_init"
  by (simp add: pipe_sys_inv_def pipe_init_def Pipe_new_def)

lemma pipe_step_inv:
  assumes "pipe_step s s'" and inv: "pipe_sys_inv s"
  shows "pipe_sys_inv s'"
  using assms(1)
proof cases
  case (write_again t buf ws ws' b)
  with inv have "pb_inv (ps_buf s)" "ws \<le> length buf" by (auto simp: pipe_sys_inv_def)
  from pipe_write_turn_cases [OF this write_again(3)] inv write_again show ?thesis
    by (simp add: pipe_sys_inv_def)
next
  case (write_leave t buf ws n b)
  with inv have "pb_inv (ps_buf s)" "ws \<le> length buf" by (auto simp: pipe_sys_inv_def)
  from pipe_write_turn_cases [OF this write_leave(3)] inv write_leave show ?thesis
    by (simp add: pipe_sys_inv_def)
next
  case (read_again t len u b)
  with inv have "pb_inv (ps_buf s)" "0 < len" by (auto simp: pipe_sys_inv_def)
  from pipe_read_turn_cases [OF this read_again(3)] inv read_again show ?thesis
    by (simp add: pipe_sys_inv_def)
next
  case (read_leave t len cs b)
  with inv have "pb_inv (ps_buf s)" "0 < len" by (auto simp: pipe_sys_inv_def)
  from pipe_read_turn_cases [OF this read_leave(3)] inv read_leave show ?thesis
    by (simp add: pipe_sys_inv_def)
qed (use inv in \<open>auto simp: pipe_sys_inv_def\<close>)

lemma pipe_reachable_inv: "pipe_reachable s \<Longrightarrow> pipe_sys_inv s"
  by (induction rule: pipe_reachable.induct) (auto intro: pipe_sys_inv_init pipe_step_inv)

lemma pipe_run_example:
  "\<exists>s. pipe_reachable s \<and> ps_sent s = [7, 8, 9] \<and> ps_received s = [7, 8]"
proof -
  let ?b = "ps_buf pipe_init"
  let ?s1 = "pipe_init\<lparr>ps_writers := (ps_writers pipe_init)(0 := Some ([7, 8, 9], 0))\<rparr>"
  have b: "pb_inv ?b" "pb_bytes ?b = []" "\<not> closed ?b"
    by (simp_all add: pipe_init_def Pipe_new_def closed_def)
  obtain rb where w: "pipe_write_turn ?b [7, 8, 9] 0 = Some (Leave 3, ?b\<lparr>pb_ring := rb\<rparr>)"
      "rb_inv rb" "rb_contents rb = [7, 8, 9]"
    using pipe_write_turn_room [of ?b 0 "[7, 8, 9]"] b by (auto simp: RING_BUFFER_SIZE_def)
  have s1: "pipe_reachable ?s1"
    by (rule pipe_next [OF pipe_start], rule write_call) (use b in \<open>auto simp: pipe_init_def\<close>)
  let ?s2 = "?s1\<lparr>ps_buf := ?b\<lparr>pb_ring := rb\<rparr>, ps_writers := (ps_writers ?s1)(0 := None),
    ps_sent := ps_sent ?s1 @ take (3 - 0) (drop 0 [7, 8, 9])\<rparr>"
  have s2: "pipe_reachable ?s2"
    by (rule pipe_next [OF s1], rule write_leave) (use w in simp_all)
  let ?s3 = "?s2\<lparr>ps_readers := (ps_readers ?s2)(1 := Some 2)\<rparr>"
  have s3: "pipe_reachable ?s3"
    by (rule pipe_next [OF s2], rule read_call) (simp_all add: pipe_init_def)
  obtain rb' where r: "pipe_read_turn (?b\<lparr>pb_ring := rb\<rparr>) 2 =
      Some (Leave [7, 8], (?b\<lparr>pb_ring := rb\<rparr>)\<lparr>pb_ring := rb'\<rparr>)"
    using pipe_read_turn_some [of "?b\<lparr>pb_ring := rb\<rparr>" 2] w by auto
  let ?s4 = "?s3\<lparr>ps_buf := (?b\<lparr>pb_ring := rb\<rparr>)\<lparr>pb_ring := rb'\<rparr>,
    ps_readers := (ps_readers ?s3)(1 := None), ps_received := ps_received ?s3 @ [7, 8]\<rparr>"
  have "pipe_reachable ?s4"
    by (rule pipe_next [OF s3], rule read_leave) (use r in simp_all)
  then show ?thesis
    by (rule_tac x = ?s4 in exI) (simp add: pipe_init_def)
qed

section \<open>Properties\<close>

text \<open>
  C1. A pipe delivers. Whatever number of tasks read and write it and however their turns
  interleave, the bytes handed to readers followed by the bytes still in the ring are exactly
  the bytes taken from the writers, in order; the ring never holds more than its size, and no
  turn of a read or a write in flight panics.
\<close>

theorem pipe_fifo_delivery:
  assumes "pipe_reachable s"
  shows "ps_sent s = ps_received s @ rb_contents (pb_ring (ps_buf s)) \<and>
    length (rb_contents (pb_ring (ps_buf s))) \<le> RING_BUFFER_SIZE \<and>
    (\<forall>t buf ws. ps_writers s t = Some (buf, ws) \<longrightarrow> pipe_write_turn (ps_buf s) buf ws \<noteq> None) \<and>
    (\<forall>t len. ps_readers s t = Some len \<longrightarrow> pipe_read_turn (ps_buf s) len \<noteq> None)"
proof (intro conjI allI impI)
  from pipe_reachable_inv [OF assms] have inv: "pipe_sys_inv s" .
  then show "ps_sent s = ps_received s @ rb_contents (pb_ring (ps_buf s))"
    and "length (rb_contents (pb_ring (ps_buf s))) \<le> RING_BUFFER_SIZE"
    by (simp_all add: pipe_sys_inv_def available_read_le)
  fix t len
  assume "ps_readers s t = Some len"
  with inv show "pipe_read_turn (ps_buf s) len \<noteq> None"
    using pipe_read_turn_empty [of "ps_buf s" len] pipe_read_turn_some [of "ps_buf s" len]
    by (cases "pb_bytes (ps_buf s) = []") (auto simp: pipe_sys_inv_def)
next
  from pipe_reachable_inv [OF assms] have inv: "pipe_sys_inv s" .
  fix t buf ws
  assume "ps_writers s t = Some (buf, ws)"
  with inv have "ws \<le> length buf" "pb_inv (ps_buf s)" by (auto simp: pipe_sys_inv_def)
  then show "pipe_write_turn (ps_buf s) buf ws \<noteq> None"
    using pipe_write_turn_full [of "ps_buf s" buf ws] pipe_write_turn_room [of "ps_buf s" ws buf]
      available_read_le [of "pb_ring (ps_buf s)"] by fastforce
qed

theorem pipe_fifo_delivery_witness:
  "\<exists>s. pipe_reachable s \<and> ps_received s = [7, 8] \<and> ps_sent s = [7, 8, 9] \<and>
     rb_contents (pb_ring (ps_buf s)) = [9]"
proof -
  obtain s where s: "pipe_reachable s" "ps_sent s = [7, 8, 9]" "ps_received s = [7, 8]"
    using pipe_run_example by blast
  with pipe_fifo_delivery [OF s(1)] show ?thesis by auto
qed


text \<open>A reader that takes one byte whenever there is one, as \<^verbatim>\<open>Pipe::read\<close> does it.\<close>

definition read_one :: "pipe_buf \<Rightarrow> pipe_buf" where
  "read_one s = (case pipe_read_turn s 1 of None \<Rightarrow> s | Some (_, s') \<Rightarrow> s')"

lemma makes_room_read_one: "makes_room read_one"
  unfolding makes_room_def
proof (intro allI impI)
  fix s assume s: "pb_inv s \<and> \<not> closed s"
  show "pb_inv (read_one s) \<and> \<not> closed (read_one s) \<and>
      length (pb_bytes (read_one s)) < RING_BUFFER_SIZE"
  proof (cases "pb_bytes s = []")
    case True
    with s show ?thesis
      using pipe_read_turn_empty [of s 1] by (simp add: read_one_def)
  next
    case False
    with s obtain rb where "pipe_read_turn s 1 = Some (Leave (take 1 (pb_bytes s)), s\<lparr>pb_ring := rb\<rparr>)"
        "rb_inv rb" "rb_contents rb = drop 1 (pb_bytes s)"
      using pipe_read_turn_some [of s 1] by auto
    moreover have "length (drop 1 (pb_bytes s)) < RING_BUFFER_SIZE"
      using False s ring.bounded [of "pb_ring s"] by (cases "pb_bytes s") auto
    ultimately have "read_one s = s\<lparr>pb_ring := rb\<rparr>" "rb_inv rb"
        "available_read rb < RING_BUFFER_SIZE"
      by (simp add: read_one_def, simp, metis length_rb_contents)
    with s show ?thesis by simp
  qed
qed


text \<open>
  C5. What a read returns. The write end refuses it; with bytes in the ring it returns at once
  the oldest ones, as many as fit, and leaves the others; on an empty ring it returns nothing
  (end of file) exactly when the other end is closed, and otherwise waits for the next turn
  without touching the pipe.
\<close>

theorem pipe_read_result:
  assumes "rb_inv (pb_ring s)" "0 < len"
  shows "(\<not> readable p \<longrightarrow> pipe_read p len es s = Done (Inl EPERM) s) \<and>
    (readable p \<and> rb_contents (pb_ring s) \<noteq> [] \<longrightarrow>
      (\<exists>rb. pipe_read p len es s = Done (Inr (take len (rb_contents (pb_ring s)))) (s\<lparr>pb_ring := rb\<rparr>) \<and>
        rb_inv rb \<and> rb_contents rb = drop len (rb_contents (pb_ring s)))) \<and>
    (readable p \<and> rb_contents (pb_ring s) = [] \<and> closed s \<longrightarrow> pipe_read p len es s = Done (Inr []) s) \<and>
    (readable p \<and> rb_contents (pb_ring s) = [] \<and> \<not> closed s \<longrightarrow>
      pipe_read p len [] s = Pending s \<and> pipe_read p len (e # es) s = pipe_read p len es (e s))"
proof -
  have "\<exists>rb. pipe_read p len es s = Done (Inr (take len (pb_bytes s))) (s\<lparr>pb_ring := rb\<rparr>) \<and>
      rb_inv rb \<and> rb_contents rb = drop len (pb_bytes s)" if "readable p" "pb_bytes s \<noteq> []"
    using pipe_read_turn_some [OF assms(1) that(2) assms(2)] that assms(2)
    by (cases es) (auto simp: pipe_read_def)
  moreover have "pipe_read p len es s = Done (Inr []) s"
    if "readable p" "pb_bytes s = []" "closed s"
    using pipe_read_turn_empty [OF assms(1) that(2), of len] that assms(2)
    by (cases es) (auto simp: pipe_read_def)
  ultimately show ?thesis
    using pipe_read_turn_empty [OF assms(1), of len] assms(2) by (auto simp: pipe_read_def)
qed

theorem pipe_read_result_witness:
  "pipe_read \<lparr>readable = True\<rparr> 4 [] (snd (snd Pipe_new)) = Pending (snd (snd Pipe_new))"
  using pipe_read_result [of "snd (snd Pipe_new)" 4 "\<lparr>readable = True\<rparr>" "[]" id]
  by (simp add: Pipe_new_def closed_def)

text \<open>
  C7. A write that exactly fills the ring does not return. All its bytes are in the ring, but
  \<^verbatim>\<open>Pipe::write\<close> looks at its count only inside the copying loop, so on a full ring it keeps
  yielding for as long as no reader takes a byte.
\<close>

theorem pipe_write_exact_fill_waits:
  assumes "writable p" "rb_inv (pb_ring s)" "\<not> closed s" "buf \<noteq> []"
    and "length (rb_contents (pb_ring s)) + length buf = RING_BUFFER_SIZE"
  shows "\<exists>s'. pipe_write p buf (replicate n id) s = Pending s' \<and>
    rb_contents (pb_ring s') = rb_contents (pb_ring s) @ buf"
proof -
  have room: "length (pb_bytes s) < RING_BUFFER_SIZE"
    "RING_BUFFER_SIZE - length (pb_bytes s) = length buf"
    using assms(4,5) by (cases buf; simp)+
  obtain rb where t: "pipe_write_turn s buf 0 = Some (Again (length buf), s\<lparr>pb_ring := rb\<rparr>)"
      and rb: "rb_inv rb" "rb_contents rb = pb_bytes s @ buf"
    using pipe_write_turn_room [OF assms(2) room(1), of 0 buf] room(2) by auto
  have full: "available_read rb = RING_BUFFER_SIZE"
    using rb(2) assms(5) by (metis length_append length_rb_contents)
  have "pipe_write_loop buf (length buf) (replicate k id) (s\<lparr>pb_ring := rb\<rparr>) =
      Pending (s\<lparr>pb_ring := rb\<rparr>)" for k
    using pipe_write_loop_idle [of "s\<lparr>pb_ring := rb\<rparr>"] rb(1) assms(3) full by simp
  then have "pipe_write_loop buf 0 (replicate n id) s = Pending (s\<lparr>pb_ring := rb\<rparr>)"
    using t by (cases n) simp_all
  then show ?thesis
    using rb assms by (simp add: pipe_write_def)
qed

theorem pipe_write_exact_fill_waits_witness:
  "\<exists>s'. pipe_write \<lparr>readable = False\<rparr> (replicate 256 1) (replicate 1000 id) (snd (snd Pipe_new)) =
     Pending s' \<and> rb_contents (pb_ring s') = replicate 256 1"
  using pipe_write_exact_fill_waits [of "\<lparr>readable = False\<rparr>" "snd (snd Pipe_new)" "replicate 256 1" 1000]
  by (simp add: writable_def Pipe_new_def closed_def RING_BUFFER_SIZE_def)

end
