(* ===== verification/Fd_Table.thy ===== *)
theory Fd_Table
  imports Prelude
begin

text \<open>
  The file descriptor table (\<^verbatim>\<open>api/src/file/mod.rs\<close>) and the system calls that only move
  descriptors around (\<^verbatim>\<open>api/src/imp/fs/fd_ops.rs\<close>, \<^verbatim>\<open>api/src/imp/fs/pipe.rs\<close>).

  The table is a \<^verbatim>\<open>FlattenObjects\<close> container of the crate \<^verbatim>\<open>flatten_objects\<close>, which is not
  part of the sources: its operations are the record \<open>flatten_ops\<close>, an argument of every
  definition, and what its documentation promises is the locale \<open>flatten_objects\<close>. The
  container is instantiated by a slot table at the end of the first section.
\<close>

section \<open>The container\<close>

definition AX_FILE_LIMIT :: nat where
  "AX_FILE_LIMIT = 1024"

text \<open>
  \<open>add\<close> and \<open>add_at\<close> give \<open>None\<close> where the container hands the object back as an error.
\<close>

record ('t, 'f) flatten_ops =
  fo_new :: 't
  fo_get :: "'t \<Rightarrow> usize \<Rightarrow> 'f option"
  fo_add :: "'t \<Rightarrow> 'f \<Rightarrow> (usize \<times> 't) option"
  fo_add_at :: "'t \<Rightarrow> usize \<Rightarrow> 'f \<Rightarrow> 't option"
  fo_remove :: "'t \<Rightarrow> usize \<Rightarrow> ('f \<times> 't) option"
  fo_ids :: "'t \<Rightarrow> usize list"

locale flatten_objects =
  fixes ops :: "('t, 'f) flatten_ops"
    and ok :: "'t \<Rightarrow> bool"
  assumes new_ok: "ok (fo_new ops)"
    and get_new: "fo_get ops (fo_new ops) i = None"
    and get_bound: "ok t \<Longrightarrow> fo_get ops t i = Some f \<Longrightarrow> unat i < AX_FILE_LIMIT"
    and add_some: "ok t \<Longrightarrow> fo_add ops t f = Some (i, t') \<Longrightarrow>
      unat i < AX_FILE_LIMIT \<and> fo_get ops t i = None \<and> ok t' \<and> fo_get ops t' = (fo_get ops t)(i \<mapsto> f)"
    and add_none: "ok t \<Longrightarrow> fo_add ops t f = None \<longleftrightarrow>
      (\<forall>i. unat i < AX_FILE_LIMIT \<longrightarrow> fo_get ops t i \<noteq> None)"
    and add_at_some: "ok t \<Longrightarrow> unat i < AX_FILE_LIMIT \<Longrightarrow> fo_get ops t i = None \<Longrightarrow>
      \<exists>t'. fo_add_at ops t i f = Some t' \<and> ok t' \<and> fo_get ops t' = (fo_get ops t)(i \<mapsto> f)"
    and add_at_none: "ok t \<Longrightarrow> \<not> (unat i < AX_FILE_LIMIT \<and> fo_get ops t i = None) \<Longrightarrow>
      fo_add_at ops t i f = None"
    and remove_none: "ok t \<Longrightarrow> fo_get ops t i = None \<Longrightarrow> fo_remove ops t i = None"
    and remove_some: "ok t \<Longrightarrow> fo_get ops t i = Some f \<Longrightarrow>
      \<exists>t'. fo_remove ops t i = Some (f, t') \<and> ok t' \<and> fo_get ops t' = (fo_get ops t)(i := None)"
    and ids: "ok t \<Longrightarrow> set (fo_ids ops t) = dom (fo_get ops t) \<and> distinct (fo_ids ops t)"

text \<open>A slot table: a partial map from identifiers, the first free one is handed out.\<close>

definition all_ids :: "usize list" where
  "all_ids = map word_of_nat [0..<AX_FILE_LIMIT]"

definition slot_ops :: "(usize \<rightharpoonup> 'f, 'f) flatten_ops" where
  "slot_ops = \<lparr>
     fo_new = Map.empty,
     fo_get = (\<lambda>t. t),
     fo_add = (\<lambda>t f. map_option (\<lambda>i. (i, t(i \<mapsto> f))) (find (\<lambda>i. t i = None) all_ids)),
     fo_add_at = (\<lambda>t i f. if unat i < AX_FILE_LIMIT \<and> t i = None then Some (t(i \<mapsto> f)) else None),
     fo_remove = (\<lambda>t i. map_option (\<lambda>f. (f, t(i := None))) (t i)),
     fo_ids = (\<lambda>t. filter (\<lambda>i. t i \<noteq> None) all_ids)\<rparr>"

definition slot_ok :: "(usize \<rightharpoonup> 'f) \<Rightarrow> bool" where
  "slot_ok t \<longleftrightarrow> (\<forall>i\<in>dom t. unat i < AX_FILE_LIMIT)"

lemma set_all_ids: "i \<in> set all_ids \<longleftrightarrow> unat i < AX_FILE_LIMIT"
proof
  assume "i \<in> set all_ids"
  then obtain n where "i = word_of_nat n" "n < AX_FILE_LIMIT" by (auto simp: all_ids_def)
  then show "unat i < AX_FILE_LIMIT"
    by (simp add: AX_FILE_LIMIT_def unsigned_of_nat take_bit_nat_eq_self)
next
  assume "unat i < AX_FILE_LIMIT"
  then show "i \<in> set all_ids"
    by (auto simp: all_ids_def image_iff intro!: bexI [of _ "unat i"])
qed

lemma distinct_all_ids: "distinct all_ids"
  unfolding all_ids_def distinct_map
proof (intro conjI inj_onI)
  fix m n
  assume mn: "m \<in> set [0..<AX_FILE_LIMIT]" "n \<in> set [0..<AX_FILE_LIMIT]"
    and eq: "(word_of_nat m :: usize) = word_of_nat n"
  have "unat (word_of_nat m :: usize) = m" "unat (word_of_nat n :: usize) = n"
    using mn by (simp_all add: AX_FILE_LIMIT_def unsigned_of_nat take_bit_nat_eq_self)
  with eq show "m = n" by metis
qed simp

lemma find_free:
  "find (\<lambda>i. t i = None) all_ids = Some i \<Longrightarrow> unat i < AX_FILE_LIMIT \<and> t i = None"
  by (auto simp: find_Some_iff set_all_ids [symmetric])

interpretation slots: flatten_objects slot_ops slot_ok
proof unfold_locales
  fix t :: "usize \<rightharpoonup> 'f" and f
  show "fo_add slot_ops t f = None \<longleftrightarrow>
      (\<forall>i. unat i < AX_FILE_LIMIT \<longrightarrow> fo_get slot_ops t i \<noteq> None)"
    by (auto simp: slot_ops_def find_None_iff set_all_ids)
next
  fix t :: "usize \<rightharpoonup> 'f" and f i t'
  assume "slot_ok t" "fo_add slot_ops t f = Some (i, t')"
  then show "unat i < AX_FILE_LIMIT \<and> fo_get slot_ops t i = None \<and> slot_ok t' \<and>
      fo_get slot_ops t' = (fo_get slot_ops t)(i \<mapsto> f)"
    using find_free [of t i] by (auto simp: slot_ops_def slot_ok_def split: if_splits)
qed (auto simp: slot_ops_def slot_ok_def set_all_ids distinct_all_ids)

section \<open>The table's operations\<close>

text \<open>
  An \<^verbatim>\<open>Arc<dyn FileLike>\<close> is one of the types that implement the trait, with the identity of
  the object it points to. A pipe end carries the identity of the shared buffer and whether
  it is the read end.
\<close>

datatype file_like = FL_File nat | FL_Directory nat | FL_Socket nat | FL_Pipe nat bool
  | FL_Stdin | FL_Stdout

type_synonym 't fd_ops = "('t, file_like) flatten_ops"

definition get_file_like :: "'t fd_ops \<Rightarrow> 't \<Rightarrow> c_int \<Rightarrow> file_like LinuxResult" where
  "get_file_like ops t fd = ok_or (fo_get ops t (c_int_as_usize fd)) EBADF"

definition add_file_like :: "'t fd_ops \<Rightarrow> 't \<Rightarrow> file_like \<Rightarrow> c_int LinuxResult \<times> 't" where
  "add_file_like ops t f =
     (case fo_add ops t f of
        None \<Rightarrow> (Inl EMFILE, t)
      | Some (i, t') \<Rightarrow> (Inr (usize_as_c_int i), t'))"

definition close_file_like :: "'t fd_ops \<Rightarrow> 't \<Rightarrow> c_int \<Rightarrow> unit LinuxResult \<times> 't" where
  "close_file_like ops t fd =
     (case fo_remove ops t (c_int_as_usize fd) of
        None \<Rightarrow> (Inl EBADF, t)
      | Some (f, t') \<Rightarrow> (Inr (), t'))"

text \<open>\<^verbatim>\<open>FD_TABLE.copy_inner\<close>: the result of \<^verbatim>\<open>add_at\<close> is ignored, the \<^verbatim>\<open>unwrap\<close> may panic.\<close>

fun copy_ids :: "('t, 'f) flatten_ops \<Rightarrow> 't \<Rightarrow> usize list \<Rightarrow> 't \<Rightarrow> 't option" where
  "copy_ids ops t [] new_table = Some new_table"
| "copy_ids ops t (i # xs) new_table =
     (case fo_get ops t i of
        None \<Rightarrow> None
      | Some f \<Rightarrow> copy_ids ops t xs
          (case fo_add_at ops new_table i f of None \<Rightarrow> new_table | Some t' \<Rightarrow> t'))"

definition copy_inner :: "('t, 'f) flatten_ops \<Rightarrow> 't \<Rightarrow> 't option" where
  "copy_inner ops t = copy_ids ops t (fo_ids ops t) (fo_new ops)"

fun remove_ids :: "('t, 'f) flatten_ops \<Rightarrow> usize list \<Rightarrow> 't \<Rightarrow> 't" where
  "remove_ids ops [] t = t"
| "remove_ids ops (i # xs) t =
     remove_ids ops xs (case fo_remove ops t i of None \<Rightarrow> t | Some (_, t') \<Rightarrow> t')"

definition clear :: "('t, 'f) flatten_ops \<Rightarrow> 't \<Rightarrow> 't" where
  "clear ops t = remove_ids ops (fo_ids ops t) t"

definition init_stdio :: "'t fd_ops \<Rightarrow> 't option" where
  "init_stdio ops =
     Option.bind (fo_add_at ops (fo_new ops) 0 FL_Stdin) (\<lambda>t.
     Option.bind (fo_add_at ops t 1 FL_Stdout) (\<lambda>t.
     fo_add_at ops t 2 FL_Stdout))"

text \<open>\<^verbatim>\<open>FileLike::from_fd\<close>, with the error each implementation gives for another type.\<close>

definition File_from_fd :: "'t fd_ops \<Rightarrow> 't \<Rightarrow> c_int \<Rightarrow> nat LinuxResult" where
  "File_from_fd ops t fd = try_then (get_file_like ops t fd)
     (\<lambda>f. case f of FL_File i \<Rightarrow> Inr i | _ \<Rightarrow> Inl EINVAL)"

definition Directory_from_fd :: "'t fd_ops \<Rightarrow> 't \<Rightarrow> c_int \<Rightarrow> nat LinuxResult" where
  "Directory_from_fd ops t fd = try_then (get_file_like ops t fd)
     (\<lambda>f. case f of FL_Directory i \<Rightarrow> Inr i | _ \<Rightarrow> Inl ENOTDIR)"

section \<open>System calls on descriptors\<close>

definition sys_close :: "'t fd_ops \<Rightarrow> c_int \<Rightarrow> 't \<Rightarrow> isize LinuxResult \<times> 't" where
  "sys_close ops fd t =
     (case close_file_like ops t fd of
        (Inl e, t') \<Rightarrow> (Inl e, t')
      | (Inr _, t') \<Rightarrow> (Inr 0, t'))"

definition dup_fd :: "'t fd_ops \<Rightarrow> c_int \<Rightarrow> 't \<Rightarrow> isize LinuxResult \<times> 't" where
  "dup_fd ops old_fd t =
     (case get_file_like ops t old_fd of
        Inl e \<Rightarrow> (Inl e, t)
      | Inr f \<Rightarrow>
          (case add_file_like ops t f of
             (Inl e, t') \<Rightarrow> (Inl e, t')
           | (Inr new_fd, t') \<Rightarrow> (Inr (scast new_fd), t')))"

definition sys_dup :: "'t fd_ops \<Rightarrow> c_int \<Rightarrow> 't \<Rightarrow> isize LinuxResult \<times> 't" where
  "sys_dup ops old_fd t = dup_fd ops old_fd t"

text \<open>\<^verbatim>\<open>sys_dup2\<close> drops what was open at \<open>new_fd\<close>, then panics if \<^verbatim>\<open>add_at\<close> refuses.\<close>

definition sys_dup2 :: "'t fd_ops \<Rightarrow> c_int \<Rightarrow> c_int \<Rightarrow> 't \<Rightarrow> (isize LinuxResult, 't) call" where
  "sys_dup2 ops old_fd new_fd t =
     (case fo_get ops t (c_int_as_usize old_fd) of
        None \<Rightarrow> Done (Inl EBADF) t
      | Some f \<Rightarrow>
          if old_fd \<noteq> new_fd then
            let t1 = (case fo_remove ops t (c_int_as_usize new_fd) of
                        None \<Rightarrow> t | Some (_, t') \<Rightarrow> t')
            in (case fo_add_at ops t1 (c_int_as_usize new_fd) f of
                  None \<Rightarrow> Panic
                | Some t2 \<Rightarrow> Done (Inr (scast new_fd)) t2)
          else Done (Inr (scast new_fd)) t)"

text \<open>
  The command numbers and \<^verbatim>\<open>O_NONBLOCK\<close> come from \<^verbatim>\<open>linux_raw_sys\<close>. \<^verbatim>\<open>set_nonblocking\<close> always
  succeeds and matters to sockets only: what it sets on one is part of the result.
\<close>

record fcntl_abi =
  F_DUPFD :: u32
  F_DUPFD_CLOEXEC :: u32
  F_SETFL :: u32
  O_NONBLOCK :: u32

definition set_nonblocking :: "file_like \<Rightarrow> bool \<Rightarrow> unit LinuxResult \<times> (nat \<times> bool) option" where
  "set_nonblocking f nb =
     (case f of FL_Socket i \<Rightarrow> (Inr (), Some (i, nb)) | _ \<Rightarrow> (Inr (), None))"

definition sys_fcntl ::
  "fcntl_abi \<Rightarrow> 't fd_ops \<Rightarrow> c_int \<Rightarrow> c_int \<Rightarrow> usize \<Rightarrow> 't \<Rightarrow>
   isize LinuxResult \<times> (nat \<times> bool) option \<times> 't" where
  "sys_fcntl K ops fd cmd arg t =
     (if cmd = F_DUPFD K then (case dup_fd ops fd t of (r, t') \<Rightarrow> (r, None, t'))
      else if cmd = F_DUPFD_CLOEXEC K then (case dup_fd ops fd t of (r, t') \<Rightarrow> (r, None, t'))
      else if cmd = F_SETFL K then
        (if fd = 0 \<or> fd = 1 \<or> fd = 2 then (Inr 0, None, t)
         else case get_file_like ops t fd of
                Inl e \<Rightarrow> (Inl e, None, t)
              | Inr f \<Rightarrow>
                  (case set_nonblocking f (arg AND ucast (O_NONBLOCK K) > 0) of
                     (Inl e, eff) \<Rightarrow> (Inl e, eff, t)
                   | (Inr _, eff) \<Rightarrow> (Inr 0, eff, t)))
      else (Inr 0, None, t))"

text \<open>
  \<^verbatim>\<open>sys_pipe2\<close>. \<open>fds\<close> is what \<^verbatim>\<open>fds.get_as_mut()\<close> gives; \<open>p\<close> is the identity of the new
  pipe's buffer. The result has the pair of descriptors stored through the pointer.
\<close>

definition sys_pipe2 ::
  "'t fd_ops \<Rightarrow> unit LinuxResult \<Rightarrow> nat \<Rightarrow> 't \<Rightarrow>
   (isize LinuxResult \<times> (c_int \<times> c_int) option, 't) call" where
  "sys_pipe2 ops fds p t =
     (case fds of
        Inl e \<Rightarrow> Done (Inl e, None) t
      | Inr _ \<Rightarrow>
          (case add_file_like ops t (FL_Pipe p True) of
             (Inl e, t1) \<Rightarrow> Done (Inl e, None) t1
           | (Inr read_fd, t1) \<Rightarrow>
               (case add_file_like ops t1 (FL_Pipe p False) of
                  (Inl e, t2) \<Rightarrow>
                    (case close_file_like ops t2 read_fd of
                       (Inl _, _) \<Rightarrow> Panic
                     | (Inr _, t3) \<Rightarrow> Done (Inl e, None) t3)
                | (Inr write_fd, t2) \<Rightarrow> Done (Inr 0, Some (read_fd, write_fd)) t2)))"

section \<open>The table as a partial map\<close>

context flatten_objects
begin

lemma add_ok:
  assumes "ok t" "fo_add ops t f = Some (i, t')"
  shows "ok t'" "c_int_as_usize (usize_as_c_int i) = i" "fo_get ops t i = None"
    "fo_get ops t' = (fo_get ops t)(i \<mapsto> f)"
  using add_some [OF assms] c_int_as_usize_small [of i] by (auto simp: AX_FILE_LIMIT_def)

lemma remove_upd:
  assumes "ok t"
  shows "ok (case fo_remove ops t i of None \<Rightarrow> t | Some (_, t') \<Rightarrow> t')"
    and "fo_get ops (case fo_remove ops t i of None \<Rightarrow> t | Some (_, t') \<Rightarrow> t') =
      (fo_get ops t)(i := None)"
  using remove_none [OF assms, of i] remove_some [OF assms, of i] assms
  by (cases "fo_get ops t i"; auto)+

lemma remove_ids_get:
  "ok t \<Longrightarrow> ok (remove_ids ops xs t) \<and>
   fo_get ops (remove_ids ops xs t) = (\<lambda>i. if i \<in> set xs then None else fo_get ops t i)"
proof (induction xs arbitrary: t)
  case Nil
  then show ?case by simp
next
  case (Cons i xs)
  from Cons.IH [OF remove_upd(1) [OF Cons.prems, of i]] show ?case
    by (simp add: remove_upd(2) [OF Cons.prems] fun_eq_iff)
qed

lemma clear_get: "ok t \<Longrightarrow> ok (clear ops t) \<and> fo_get ops (clear ops t) = Map.empty"
  using remove_ids_get [of t "fo_ids ops t"] ids [of t] by (auto simp: clear_def fun_eq_iff domIff)

lemma copy_ids_get:
  "ok t \<Longrightarrow> ok n \<Longrightarrow> set xs \<subseteq> dom (fo_get ops t) \<Longrightarrow> distinct xs \<Longrightarrow>
   (\<forall>i\<in>set xs. fo_get ops n i = None) \<Longrightarrow>
   \<exists>t'. copy_ids ops t xs n = Some t' \<and> ok t' \<and>
     fo_get ops t' = (\<lambda>i. if i \<in> set xs then fo_get ops t i else fo_get ops n i)"
proof (induction xs arbitrary: n)
  case Nil
  then show ?case by simp
next
  case (Cons i xs)
  then obtain f where f: "fo_get ops t i = Some f" by auto
  then obtain n' where n': "fo_add_at ops n i f = Some n'" "ok n'"
      "fo_get ops n' = (fo_get ops n)(i \<mapsto> f)"
    using add_at_some [of n i f] get_bound [of t i f] Cons.prems by auto
  have "\<exists>t'. copy_ids ops t xs n' = Some t' \<and> ok t' \<and>
      fo_get ops t' = (\<lambda>i. if i \<in> set xs then fo_get ops t i else fo_get ops n' i)"
    using Cons.prems n' by (intro Cons.IH) auto
  with f n' show ?case by (auto simp: fun_eq_iff)
qed

lemma copy_inner_get: "ok t \<Longrightarrow> \<exists>t'. copy_inner ops t = Some t' \<and> ok t' \<and> fo_get ops t' = fo_get ops t"
  using copy_ids_get [of t "fo_new ops" "fo_ids ops t"] ids [of t]
  by (auto simp: copy_inner_def new_ok get_new fun_eq_iff domIff)

end

locale fd_table = flatten_objects ops ok
  for ops :: "'t fd_ops" and ok :: "'t \<Rightarrow> bool"
begin

lemma get_file_like_upd:
  assumes "fo_get ops t' = (fo_get ops t)(c_int_as_usize fd := v)"
  shows "get_file_like ops t' = (get_file_like ops t)(fd := ok_or v EBADF)"
  by (rule ext) (simp add: get_file_like_def assms)

lemma add_file_like_cases:
  assumes "ok t"
  obtains (full) "\<forall>i. unat i < AX_FILE_LIMIT \<longrightarrow> fo_get ops t i \<noteq> None"
      "add_file_like ops t f = (Inl EMFILE, t)"
  | (added) fd t' where "add_file_like ops t f = (Inr fd, t')" "ok t'"
      "get_file_like ops t fd = Inl EBADF" "get_file_like ops t' = (get_file_like ops t)(fd := Inr f)"
      "\<not> (\<forall>i. unat i < AX_FILE_LIMIT \<longrightarrow> fo_get ops t i \<noteq> None)"
proof (cases "fo_add ops t f")
  case None
  with full show ?thesis
    using add_none [OF assms, of f] by (simp add: add_file_like_def)
next
  case (Some a)
  then obtain i t' where a: "fo_add ops t f = Some (i, t')" by (cases a) auto
  note facts = add_ok [OF assms a]
  show ?thesis
  proof (rule added)
    show "add_file_like ops t f = (Inr (usize_as_c_int i), t')"
      by (simp add: add_file_like_def a)
    show "ok t'" by (rule facts)
    show "get_file_like ops t (usize_as_c_int i) = Inl EBADF"
      by (simp add: get_file_like_def facts)
    show "get_file_like ops t' = (get_file_like ops t)(usize_as_c_int i := Inr f)"
      using get_file_like_upd [of t' t "usize_as_c_int i" "Some f"] facts by simp
    show "\<not> (\<forall>i. unat i < AX_FILE_LIMIT \<longrightarrow> fo_get ops t i \<noteq> None)"
      using add_none [OF assms, of f] a by simp
  qed
qed

lemma close_file_like_some:
  assumes "ok t" "get_file_like ops t fd = Inr f"
  shows "\<exists>t'. close_file_like ops t fd = (Inr (), t') \<and> ok t' \<and>
    get_file_like ops t' = (get_file_like ops t)(fd := Inl EBADF)"
proof -
  obtain t' where "fo_remove ops t (c_int_as_usize fd) = Some (f, t')" "ok t'"
      "fo_get ops t' = (fo_get ops t)(c_int_as_usize fd := None)"
    using remove_some [OF assms(1)] assms(2) by (auto simp: get_file_like_def)
  then show ?thesis
    using get_file_like_upd [of t' t fd None] by (simp add: close_file_like_def)
qed

lemma close_file_like_none:
  "ok t \<Longrightarrow> get_file_like ops t fd = Inl e \<Longrightarrow> close_file_like ops t fd = (Inl EBADF, t)"
  by (simp add: get_file_like_def close_file_like_def remove_none)

lemma get_file_like_EBADF: "get_file_like ops t fd = Inl e \<Longrightarrow> e = EBADF"
  by (simp add: get_file_like_def)

lemma dup_fd_spec:
  assumes "ok t"
  shows "case get_file_like ops t fd of
      Inl e \<Rightarrow> dup_fd ops fd t = (Inl EBADF, t)
    | Inr f \<Rightarrow>
        if \<forall>i. unat i < AX_FILE_LIMIT \<longrightarrow> fo_get ops t i \<noteq> None
        then dup_fd ops fd t = (Inl EMFILE, t)
        else \<exists>n t'. dup_fd ops fd t = (Inr (scast n), t') \<and> ok t' \<and>
          get_file_like ops t n = Inl EBADF \<and> get_file_like ops t' = (get_file_like ops t)(n := Inr f)"
proof (cases "get_file_like ops t fd")
  case (Inl e)
  then show ?thesis using get_file_like_EBADF [OF Inl] by (simp add: dup_fd_def)
next
  case (Inr f)
  show ?thesis
    by (rule add_file_like_cases [OF assms, of f]) (auto simp: dup_fd_def Inr)
qed

lemma sys_dup2_cases:
  assumes "ok t" "get_file_like ops t old_fd = Inr f" "old_fd \<noteq> new_fd"
  shows "if unat (c_int_as_usize new_fd) < AX_FILE_LIMIT
    then \<exists>t'. sys_dup2 ops old_fd new_fd t = Done (Inr (scast new_fd)) t' \<and> ok t' \<and>
      get_file_like ops t' = (get_file_like ops t)(new_fd := Inr f)
    else sys_dup2 ops old_fd new_fd t = Panic"
proof -
  let ?i = "c_int_as_usize new_fd"
  define t1 where "t1 = (case fo_remove ops t ?i of None \<Rightarrow> t | Some (_, t') \<Rightarrow> t')"
  have t1: "ok t1" "fo_get ops t1 = (fo_get ops t)(?i := None)"
    unfolding t1_def using remove_upd [OF assms(1)] by simp_all
  have eq: "sys_dup2 ops old_fd new_fd t = (case fo_add_at ops t1 ?i f of
      None \<Rightarrow> Panic | Some t2 \<Rightarrow> Done (Inr (scast new_fd)) t2)"
    using assms(2,3) by (simp add: sys_dup2_def get_file_like_def t1_def)
  show ?thesis
  proof (cases "unat ?i < AX_FILE_LIMIT")
    case True
    then obtain t2 where t2: "fo_add_at ops t1 ?i f = Some t2" "ok t2"
        "fo_get ops t2 = (fo_get ops t1)(?i \<mapsto> f)"
      using add_at_some [OF t1(1), of ?i f] t1(2) by auto
    then have "get_file_like ops t2 = (get_file_like ops t)(new_fd := Inr f)"
      using get_file_like_upd [of t2 t new_fd "Some f"] t1(2) by simp
    with True t2 eq show ?thesis by auto
  next
    case False
    then show ?thesis
      using add_at_none [OF t1(1), of ?i f] eq by simp
  qed
qed

lemma sys_pipe2_cases:
  assumes "ok t"
  shows "if \<exists>i j. i \<noteq> j \<and> unat i < AX_FILE_LIMIT \<and> unat j < AX_FILE_LIMIT \<and>
        fo_get ops t i = None \<and> fo_get ops t j = None
    then \<exists>r w t'. sys_pipe2 ops (Inr ()) p t = Done (Inr 0, Some (r, w)) t' \<and> ok t' \<and> r \<noteq> w \<and>
      get_file_like ops t r = Inl EBADF \<and> get_file_like ops t w = Inl EBADF \<and>
      get_file_like ops t' = (get_file_like ops t)(r := Inr (FL_Pipe p True), w := Inr (FL_Pipe p False))
    else \<exists>t'. sys_pipe2 ops (Inr ()) p t = Done (Inl EMFILE, None) t' \<and> ok t' \<and>
      get_file_like ops t' = get_file_like ops t"
proof (cases rule: add_file_like_cases [OF assms, of "FL_Pipe p True", case_names full added])
  case full
  then show ?thesis using assms by (auto simp: sys_pipe2_def)
next
  case (added r t1)
  have only: "fo_get ops t1 i = None \<longleftrightarrow> fo_get ops t i = None \<and> i \<noteq> c_int_as_usize r"
    if "unat i < AX_FILE_LIMIT" for i
  proof -
    have i: "i = c_int_as_usize (usize_as_c_int i)"
      using that c_int_as_usize_small [of i] by (simp add: AX_FILE_LIMIT_def)
    have "get_file_like ops t1 (usize_as_c_int i) =
        ((get_file_like ops t)(r := Inr (FL_Pipe p True))) (usize_as_c_int i)"
      using added(4) by simp
    then show ?thesis
      using i added(3) by (cases "usize_as_c_int i = r")
        (auto simp: get_file_like_def ok_or_def split: option.splits)
  qed
  show ?thesis
  proof (cases rule: add_file_like_cases [OF added(2), of "FL_Pipe p False", case_names full added])
    case full
    obtain t3 where "close_file_like ops t1 r = (Inr (), t3)" "ok t3"
        "get_file_like ops t3 = (get_file_like ops t1)(r := Inl EBADF)"
      using close_file_like_some [OF added(2), of r] added(4) by auto
    moreover have "get_file_like ops t3 = get_file_like ops t"
      using calculation(3) added(3,4) by (auto simp: fun_eq_iff)
    moreover have "\<not> (\<exists>i j. i \<noteq> j \<and> unat i < AX_FILE_LIMIT \<and> unat j < AX_FILE_LIMIT \<and>
        fo_get ops t i = None \<and> fo_get ops t j = None)"
      using full(1) only by metis
    ultimately show ?thesis
      using full(2) added(1) by (auto simp: sys_pipe2_def)
  next
    case second: (added w t2)
    obtain j where j: "unat j < AX_FILE_LIMIT" "fo_get ops t1 j = None"
      using second(5) by auto
    obtain i where i: "unat i < AX_FILE_LIMIT" "fo_get ops t i = None" "i = c_int_as_usize r"
    proof -
      have "fo_get ops t1 (c_int_as_usize r) = Some (FL_Pipe p True)"
        using added(4) by (simp add: get_file_like_def fun_eq_iff ok_or_def split: option.splits)
          (metis (no_types, lifting) Inl_Inr_False old.sum.inject(2) option.exhaust)
      then show ?thesis
        using that [of "c_int_as_usize r"] get_bound [OF added(2)] added(3)
        by (auto simp: get_file_like_def)
    qed
    have "\<exists>i j. i \<noteq> j \<and> unat i < AX_FILE_LIMIT \<and> unat j < AX_FILE_LIMIT \<and>
        fo_get ops t i = None \<and> fo_get ops t j = None"
      using i j only by blast
    moreover have "r \<noteq> w" "get_file_like ops t w = Inl EBADF"
      using second(3) added(4) by (auto split: if_splits)
    ultimately show ?thesis
      using second added(1,3,4) by (auto simp: sys_pipe2_def)
  qed
qed

end

interpretation slot_fds: fd_table slot_ops slot_ok ..

section \<open>Properties\<close>

text \<open>
  \<^verbatim>\<open>dup\<close>. On a descriptor that is not open it fails with \<open>EBADF\<close>, on a full table with
  \<open>EMFILE\<close>, both without a change; otherwise it returns a descriptor that was free, which now
  refers to the same open file, and no other descriptor changes.
\<close>

lemma sys_dup_spec:
  assumes "fd_table ops ok" "ok t"
  shows "case get_file_like ops t fd of
      Inl e \<Rightarrow> sys_dup ops fd t = (Inl EBADF, t)
    | Inr f \<Rightarrow>
        if \<forall>i. unat i < AX_FILE_LIMIT \<longrightarrow> fo_get ops t i \<noteq> None
        then sys_dup ops fd t = (Inl EMFILE, t)
        else \<exists>n t'. sys_dup ops fd t = (Inr (scast n), t') \<and> ok t' \<and>
          get_file_like ops t n = Inl EBADF \<and> get_file_like ops t' = (get_file_like ops t)(n := Inr f)"
  unfolding sys_dup_def by (rule fd_table.dup_fd_spec [OF assms])

lemma slot_example:
  "slot_ok [0 \<mapsto> FL_Stdin]" "get_file_like slot_ops [0 \<mapsto> FL_Stdin] 0 = Inr FL_Stdin"
  "fo_get slot_ops [0 \<mapsto> FL_Stdin] i = (if i = 0 then Some FL_Stdin else None)"
  by (simp_all add: slot_ok_def AX_FILE_LIMIT_def get_file_like_def slot_ops_def c_int_as_usize_def)

lemma sys_dup_example:
  "\<exists>n t'. sys_dup slot_ops 0 [0 \<mapsto> FL_Stdin] = (Inr (scast n), t') \<and>
     get_file_like slot_ops t' n = Inr FL_Stdin"
proof -
  have "\<not> (\<forall>i. unat i < AX_FILE_LIMIT \<longrightarrow> fo_get slot_ops [0 \<mapsto> FL_Stdin] i \<noteq> None)"
    by (auto simp: slot_example AX_FILE_LIMIT_def intro!: exI [of _ 1])
  then show ?thesis
    using sys_dup_spec [OF slot_fds.fd_table_axioms, OF slot_example(1), of 0]
    by (simp only: slot_example(2)) auto
qed

text \<open>
  C8. \<^verbatim>\<open>dup2\<close> and \<^verbatim>\<open>dup3\<close>. A descriptor that is not open gives \<open>EBADF\<close>; duplicating onto
  itself changes nothing; a target inside the table is closed if it was open and then refers
  to the same file, and no other descriptor changes. A target outside the table, such as a
  negative one or one past the limit, panics the kernel.
\<close>

theorem sys_dup2_spec:
  assumes "fd_table ops ok" "ok t"
  shows "case get_file_like ops t old_fd of
      Inl e \<Rightarrow> sys_dup2 ops old_fd new_fd t = Done (Inl EBADF) t
    | Inr f \<Rightarrow>
        if old_fd = new_fd then sys_dup2 ops old_fd new_fd t = Done (Inr (scast new_fd)) t
        else if unat (c_int_as_usize new_fd) < AX_FILE_LIMIT
        then \<exists>t'. sys_dup2 ops old_fd new_fd t = Done (Inr (scast new_fd)) t' \<and> ok t' \<and>
          get_file_like ops t' = (get_file_like ops t)(new_fd := Inr f)
        else sys_dup2 ops old_fd new_fd t = Panic"
proof (cases "get_file_like ops t old_fd")
  case (Inl e)
  then show ?thesis by (simp add: sys_dup2_def get_file_like_def)
next
  case (Inr f)
  show ?thesis
  proof (cases "old_fd = new_fd")
    case True
    with Inr show ?thesis by (simp add: sys_dup2_def get_file_like_def)
  next
    case False
    with fd_table.sys_dup2_cases [OF assms Inr False] Inr show ?thesis by simp
  qed
qed

theorem sys_dup2_spec_witness:
  "(\<exists>t'. sys_dup2 slot_ops 0 5 [0 \<mapsto> FL_Stdin] = Done (Inr 5) t' \<and> get_file_like slot_ops t' 5 = Inr FL_Stdin) \<and>
   sys_dup2 slot_ops 0 1024 [0 \<mapsto> FL_Stdin] = Panic"
  using sys_dup2_spec [OF slot_fds.fd_table_axioms, OF slot_example(1), of 0 5]
    sys_dup2_spec [OF slot_fds.fd_table_axioms, OF slot_example(1), of 0 1024]
  by (auto simp: slot_example(2) AX_FILE_LIMIT_def c_int_as_usize_def)

text \<open>
  C9. Copying the table for a new process and clearing it at exit. The copy succeeds and every
  descriptor refers to the same open file as in the original; after clearing, none is open.
\<close>

theorem copy_inner_and_clear:
  assumes "fd_table ops ok" "ok t"
  shows "(\<exists>t'. copy_inner ops t = Some t' \<and> ok t' \<and> get_file_like ops t' = get_file_like ops t) \<and>
    get_file_like ops (clear ops t) = (\<lambda>_. Inl EBADF)"
proof -
  note flat = fd_table.axioms(1) [OF assms(1)]
  obtain t' where "copy_inner ops t = Some t'" "ok t'" "fo_get ops t' = fo_get ops t"
    using flatten_objects.copy_inner_get [OF flat assms(2)] by blast
  moreover have "fo_get ops (clear ops t) = Map.empty"
    using flatten_objects.clear_get [OF flat assms(2)] by blast
  ultimately show ?thesis
    by (simp add: get_file_like_def fun_eq_iff)
qed

theorem copy_inner_and_clear_witness:
  "\<exists>t'. copy_inner slot_ops [0 \<mapsto> FL_Stdin] = Some t' \<and> get_file_like slot_ops t' 0 = Inr FL_Stdin"
  using copy_inner_and_clear [OF slot_fds.fd_table_axioms, OF slot_example(1)]
  by (auto simp: slot_example(2))

text \<open>
  \<^verbatim>\<open>pipe2\<close>. A bad pointer is reported and nothing is opened. With two free slots the call
  stores two different descriptors that were free, the first the read end and the second the
  write end of one pipe, and changes no other; with fewer it fails with \<open>EMFILE\<close> and leaves no
  descriptor behind. It never panics.
\<close>

lemma sys_pipe2_spec:
  assumes "fd_table ops ok" "ok t"
  shows "sys_pipe2 ops (Inl e) p t = Done (Inl e, None) t \<and>
    (if \<exists>i j. i \<noteq> j \<and> unat i < AX_FILE_LIMIT \<and> unat j < AX_FILE_LIMIT \<and>
        fo_get ops t i = None \<and> fo_get ops t j = None
     then \<exists>r w t'. sys_pipe2 ops (Inr ()) p t = Done (Inr 0, Some (r, w)) t' \<and> ok t' \<and> r \<noteq> w \<and>
       get_file_like ops t r = Inl EBADF \<and> get_file_like ops t w = Inl EBADF \<and>
       get_file_like ops t' = (get_file_like ops t)(r := Inr (FL_Pipe p True), w := Inr (FL_Pipe p False))
     else \<exists>t'. sys_pipe2 ops (Inr ()) p t = Done (Inl EMFILE, None) t' \<and> ok t' \<and>
       get_file_like ops t' = get_file_like ops t)"
  using fd_table.sys_pipe2_cases [OF assms] by (intro conjI) (simp add: sys_pipe2_def)

lemma sys_pipe2_example:
  "\<exists>r w t'. sys_pipe2 slot_ops (Inr ()) 3 [0 \<mapsto> FL_Stdin] = Done (Inr 0, Some (r, w)) t' \<and> r \<noteq> w \<and>
     get_file_like slot_ops t' r = Inr (FL_Pipe 3 True) \<and> get_file_like slot_ops t' w = Inr (FL_Pipe 3 False)"
proof -
  have "\<exists>i j. i \<noteq> j \<and> unat i < AX_FILE_LIMIT \<and> unat j < AX_FILE_LIMIT \<and>
      fo_get slot_ops [0 \<mapsto> FL_Stdin] i = None \<and> fo_get slot_ops [0 \<mapsto> FL_Stdin] j = None"
    by (rule exI [of _ 1], rule exI [of _ 2]) (simp add: slot_example(3) AX_FILE_LIMIT_def)
  then show ?thesis
    using sys_pipe2_spec [OF slot_fds.fd_table_axioms, OF slot_example(1), of EFAULT 3]
    by (simp only: if_True) auto
qed

end
