(* ===== verification/Time_Stat.thy ===== *)
theory Time_Stat
  imports Prelude
begin

text \<open>
  Per-task time accounting: \<^verbatim>\<open>core/src/time.rs\<close> (\<^verbatim>\<open>TimerType\<close>, \<^verbatim>\<open>TimeStat\<close>), the accessors of
  \<^verbatim>\<open>core/src/task.rs\<close> that the system call handler uses, and \<^verbatim>\<open>sys_times\<close> of
  \<^verbatim>\<open>api/src/imp/time.rs\<close>. Time stamps are nanoseconds in a \<^verbatim>\<open>usize\<close>; differences wrap, so the
  equations about sums of intervals need no assumption on the clock.
\<close>

section \<open>Definitions\<close>

datatype TimerType = TT_NONE | TT_REAL | TT_VIRTUAL | TT_PROF

definition TimerType_try_from :: "i32 \<Rightarrow> TimerType option" where
  "TimerType_try_from n =
     (if n = -1 then Some TT_NONE
      else if n = 0 then Some TT_REAL
      else if n = 1 then Some TT_VIRTUAL
      else if n = 2 then Some TT_PROF
      else None)"

definition TimerType_from :: "usize \<Rightarrow> TimerType" where
  "TimerType_from num =
     (case TimerType_try_from (ucast num) of Some val \<Rightarrow> val | None \<Rightarrow> TT_NONE)"

record TimeStat =
  utime_ns :: usize
  stime_ns :: usize
  user_timestamp :: usize
  kernel_timestamp :: usize
  timer_type :: TimerType
  timer_interval_ns :: usize
  timer_remained_ns :: usize

definition TimeStat_new :: TimeStat where
  "TimeStat_new = \<lparr>utime_ns = 0, stime_ns = 0, user_timestamp = 0, kernel_timestamp = 0,
     timer_type = TT_NONE, timer_interval_ns = 0, timer_remained_ns = 0\<rparr>"

definition ts_output :: "TimeStat \<Rightarrow> usize \<times> usize" where
  "ts_output ts = (utime_ns ts, stime_ns ts)"

definition ts_reset :: "usize \<Rightarrow> TimeStat \<Rightarrow> TimeStat" where
  "ts_reset now ts = ts\<lparr>utime_ns := 0, stime_ns := 0, user_timestamp := 0, kernel_timestamp := now\<rparr>"

definition update_timer :: "usize \<Rightarrow> TimeStat \<Rightarrow> TimeStat" where
  "update_timer delta ts =
     (if timer_remained_ns ts = 0 then ts
      else if timer_remained_ns ts > delta
      then ts\<lparr>timer_remained_ns := timer_remained_ns ts - delta\<rparr>
      else ts)"

definition switch_into_kernel_mode :: "usize \<Rightarrow> TimeStat \<Rightarrow> TimeStat" where
  "switch_into_kernel_mode now ts =
     (let delta = now - kernel_timestamp ts;
          ts = ts\<lparr>utime_ns := utime_ns ts + delta, kernel_timestamp := now\<rparr>
      in if timer_type ts \<noteq> TT_NONE then update_timer delta ts else ts)"

definition switch_into_user_mode :: "usize \<Rightarrow> TimeStat \<Rightarrow> TimeStat" where
  "switch_into_user_mode now ts =
     (let delta = now - kernel_timestamp ts;
          ts = ts\<lparr>stime_ns := stime_ns ts + delta, user_timestamp := now\<rparr>
      in if timer_type ts = TT_REAL \<or> timer_type ts = TT_PROF then update_timer delta ts else ts)"

definition switch_from_old_task :: "usize \<Rightarrow> TimeStat \<Rightarrow> TimeStat" where
  "switch_from_old_task now ts =
     (let delta = now - kernel_timestamp ts;
          ts = ts\<lparr>stime_ns := stime_ns ts + delta, kernel_timestamp := now\<rparr>
      in if timer_type ts = TT_REAL \<or> timer_type ts = TT_PROF then update_timer delta ts else ts)"

definition switch_to_new_task :: "usize \<Rightarrow> TimeStat \<Rightarrow> TimeStat" where
  "switch_to_new_task now ts =
     (let delta = now - kernel_timestamp ts;
          ts = ts\<lparr>kernel_timestamp := now\<rparr>
      in if timer_type ts = TT_REAL then update_timer delta ts else ts)"

definition set_timer :: "usize \<Rightarrow> usize \<Rightarrow> usize \<Rightarrow> TimeStat \<Rightarrow> bool \<times> TimeStat" where
  "set_timer interval remained ty ts =
     (let ts = ts\<lparr>timer_type := TimerType_from ty, timer_interval_ns := interval,
                  timer_remained_ns := remained\<rparr>
      in (timer_type ts \<noteq> TT_NONE, ts))"

text \<open>
  The accessors of \<^verbatim>\<open>core/src/task.rs\<close>. The current task's statistics and the clock are
  arguments; \<open>per_sec\<close> and \<open>per_micro\<close> are the constants of \<^verbatim>\<open>axhal::time\<close>.
\<close>

definition time_stat_from_kernel_to_user :: "usize \<Rightarrow> TimeStat \<Rightarrow> TimeStat" where
  "time_stat_from_kernel_to_user monotonic_nanos ts = switch_into_user_mode monotonic_nanos ts"

definition time_stat_from_user_to_kernel :: "usize \<Rightarrow> TimeStat \<Rightarrow> TimeStat" where
  "time_stat_from_user_to_kernel monotonic_nanos ts = switch_into_kernel_mode monotonic_nanos ts"

definition time_stat_output ::
  "usize \<Rightarrow> usize \<Rightarrow> TimeStat \<Rightarrow> usize \<times> usize \<times> usize \<times> usize" where
  "time_stat_output per_sec per_micro ts =
     (let (utime, stime) = ts_output ts
      in (utime div per_sec, utime div per_micro, stime div per_sec, stime div per_micro))"

record Tms =
  tms_utime :: usize
  tms_stime :: usize
  tms_cutime :: usize
  tms_cstime :: usize

text \<open>
  \<^verbatim>\<open>sys_times\<close>: \<open>tms\<close> is what \<^verbatim>\<open>tms.get_as_mut()\<close> gives, \<open>ticks\<close> the value of
  \<^verbatim>\<open>nanos_to_ticks(monotonic_time_nanos())\<close>; the stored structure is part of the result.
\<close>

definition sys_times ::
  "usize \<Rightarrow> usize \<Rightarrow> unit LinuxResult \<Rightarrow> isize \<Rightarrow> TimeStat \<Rightarrow> isize LinuxResult \<times> Tms option" where
  "sys_times per_sec per_micro tms ticks ts =
     (let (_, utime_us, _, stime_us) = time_stat_output per_sec per_micro ts
      in case tms of
           Inl e \<Rightarrow> (Inl e, None)
         | Inr _ \<Rightarrow> (Inr ticks, Some \<lparr>tms_utime = utime_us, tms_stime = stime_us,
             tms_cutime = utime_us, tms_cstime = stime_us\<rparr>))"

section \<open>Sequences of switches\<close>

text \<open>
  What happens to a task's statistics while it runs: switches of mode and of task, at given
  times.
\<close>

datatype time_op = Into_kernel usize | Into_user usize | From_old usize | To_new usize

fun time_op_run :: "time_op \<Rightarrow> TimeStat \<Rightarrow> TimeStat" where
  "time_op_run (Into_kernel t) ts = switch_into_kernel_mode t ts"
| "time_op_run (Into_user t) ts = switch_into_user_mode t ts"
| "time_op_run (From_old t) ts = switch_from_old_task t ts"
| "time_op_run (To_new t) ts = switch_to_new_task t ts"

fun time_ops_run :: "time_op list \<Rightarrow> TimeStat \<Rightarrow> TimeStat" where
  "time_ops_run [] ts = ts"
| "time_ops_run (x # xs) ts = time_ops_run xs (time_op_run x ts)"

text \<open>
  System calls back to back: each pair is the time a call returns to user mode and the time
  the next one enters the kernel.
\<close>

fun syscall_rounds :: "(usize \<times> usize) list \<Rightarrow> TimeStat \<Rightarrow> TimeStat" where
  "syscall_rounds [] ts = ts"
| "syscall_rounds ((leave, enter) # rs) ts =
     syscall_rounds rs (time_stat_from_user_to_kernel enter (time_stat_from_kernel_to_user leave ts))"

text \<open>The time really spent in each mode, from the first entry at \<open>t\<close> on.\<close>

fun kernel_time :: "usize \<Rightarrow> (usize \<times> usize) list \<Rightarrow> usize" where
  "kernel_time t [] = 0"
| "kernel_time t ((leave, enter) # rs) = (leave - t) + kernel_time enter rs"

fun user_time :: "(usize \<times> usize) list \<Rightarrow> usize" where
  "user_time [] = 0"
| "user_time ((leave, enter) # rs) = (enter - leave) + user_time rs"

lemmas switch_defs = switch_into_kernel_mode_def switch_into_user_mode_def
  switch_from_old_task_def switch_to_new_task_def Let_def

lemma update_timer_select [simp]:
  "utime_ns (update_timer d ts) = utime_ns ts"
  "stime_ns (update_timer d ts) = stime_ns ts"
  "kernel_timestamp (update_timer d ts) = kernel_timestamp ts"
  "user_timestamp (update_timer d ts) = user_timestamp ts"
  "timer_type (update_timer d ts) = timer_type ts"
  by (simp_all add: update_timer_def)

lemma switch_select [simp]:
  "utime_ns (switch_into_kernel_mode t ts) = utime_ns ts + (t - kernel_timestamp ts)"
  "stime_ns (switch_into_kernel_mode t ts) = stime_ns ts"
  "kernel_timestamp (switch_into_kernel_mode t ts) = t"
  "utime_ns (switch_into_user_mode t ts) = utime_ns ts"
  "stime_ns (switch_into_user_mode t ts) = stime_ns ts + (t - kernel_timestamp ts)"
  "kernel_timestamp (switch_into_user_mode t ts) = kernel_timestamp ts"
  by (simp_all add: switch_defs)

lemma update_timer_remained:
  "0 < timer_remained_ns ts \<Longrightarrow>
   0 < timer_remained_ns (update_timer d ts) \<and>
   timer_remained_ns (update_timer d ts) \<le> timer_remained_ns ts"
  by (auto simp: update_timer_def word_gt_0) (simp add: word_sub_le order_less_imp_le)

lemma time_op_remained:
  "0 < timer_remained_ns ts \<Longrightarrow>
   0 < timer_remained_ns (time_op_run x ts) \<and>
   timer_remained_ns (time_op_run x ts) \<le> timer_remained_ns ts"
  using update_timer_remained [of ts] update_timer_remained [of "ts\<lparr>kernel_timestamp := t\<rparr>" for t]
  by (cases x) (auto simp: switch_defs update_timer_def word_gt_0 word_sub_le order_less_imp_le)

section \<open>Properties\<close>

text \<open>
  C10. User time counts kernel time as well. Over any sequence of system calls the recorded
  system time grows by the time spent in the kernel, but the recorded user time grows by the
  time spent in user mode plus the time spent in the kernel: \<^verbatim>\<open>switch_into_kernel_mode\<close>
  measures from the previous entry into the kernel and never reads \<^verbatim>\<open>user_timestamp\<close>.
\<close>

theorem syscall_rounds_accounting:
  "stime_ns (syscall_rounds rs ts) = stime_ns ts + kernel_time (kernel_timestamp ts) rs \<and>
   utime_ns (syscall_rounds rs ts) =
     utime_ns ts + user_time rs + kernel_time (kernel_timestamp ts) rs"
  by (induction rs ts rule: syscall_rounds.induct)
    (simp_all add: time_stat_from_kernel_to_user_def time_stat_from_user_to_kernel_def)

text \<open>
  C11. A timer never expires. Once a timer is set with time left, no sequence of mode and
  task switches brings the time left to zero: \<^verbatim>\<open>update_timer\<close> only subtracts intervals that
  are shorter than what is left, and does nothing for the others. The time left never grows.
\<close>

theorem timer_never_expires:
  assumes "0 < timer_remained_ns ts"
  shows "0 < timer_remained_ns (time_ops_run xs ts) \<and>
    timer_remained_ns (time_ops_run xs ts) \<le> timer_remained_ns ts"
  using assms
proof (induction xs arbitrary: ts)
  case Nil
  then show ?case by simp
next
  case (Cons x xs)
  from time_op_remained [OF Cons.prems, of x]
  show ?case using Cons.IH [of "time_op_run x ts"] by auto
qed

theorem timer_never_expires_witness:
  "let ts = snd (set_timer 0 5 0 TimeStat_new)
   in timer_type ts = TT_REAL \<and> 0 < timer_remained_ns (time_ops_run [Into_kernel 100, Into_user 900] ts)"
proof -
  have "timer_type (snd (set_timer 0 5 0 TimeStat_new)) = TT_REAL"
    by (simp add: set_timer_def Let_def TimerType_from_def TimerType_try_from_def)
  moreover have "0 < timer_remained_ns (snd (set_timer 0 5 0 TimeStat_new))"
    by (simp add: set_timer_def Let_def)
  note timer_never_expires [OF this, of "[Into_kernel 100, Into_user 900]"]
  ultimately show ?thesis by (simp add: Let_def)
qed

end
