(* ===== verification/Time_Values.thy ===== *)
theory Time_Values
  imports Prelude
begin

text \<open>
  Conversions between the kernel's time values and the structures of user space
  (\<^verbatim>\<open>api/src/time.rs\<close>, trait \<^verbatim>\<open>TimeValueLike\<close>), and the calls that use them:
  \<^verbatim>\<open>sys_clock_gettime\<close> and \<^verbatim>\<open>sys_gettimeofday\<close> (\<^verbatim>\<open>api/src/imp/time.rs\<close>) and \<^verbatim>\<open>sys_nanosleep\<close>
  (\<^verbatim>\<open>api/src/imp/task/schedule.rs\<close>). The trait is the locale \<open>time_value_like\<close>, interpreted on
  each of its implementations. The structures of \<^verbatim>\<open>linux_raw_sys\<close> have two signed 64-bit
  fields on every supported target.
\<close>

section \<open>Durations\<close>

text \<open>\<^verbatim>\<open>core::time::Duration\<close>, which \<^verbatim>\<open>TimeValue\<close> names: the nanoseconds stay below a second.\<close>

record TimeValue =
  dur_secs :: u64
  dur_nanos :: u32

abbreviation NANOS_PER_SEC :: u32 where
  "NANOS_PER_SEC \<equiv> 1000000000"

definition dur_ok :: "TimeValue \<Rightarrow> bool" where
  "dur_ok d \<longleftrightarrow> dur_nanos d < NANOS_PER_SEC"

text \<open>\<^verbatim>\<open>Duration::new\<close> carries whole seconds over and panics when that overflows.\<close>

definition Duration_new :: "u64 \<Rightarrow> u32 \<Rightarrow> TimeValue option" where
  "Duration_new secs nanos =
     (if nanos < NANOS_PER_SEC then Some \<lparr>dur_secs = secs, dur_nanos = nanos\<rparr>
      else if unat secs + unat (nanos div NANOS_PER_SEC) < 2 ^ 64
      then Some \<lparr>dur_secs = secs + ucast (nanos div NANOS_PER_SEC), dur_nanos = nanos mod NANOS_PER_SEC\<rparr>
      else None)"

definition as_secs :: "TimeValue \<Rightarrow> u64" where
  "as_secs d = dur_secs d"

definition subsec_nanos :: "TimeValue \<Rightarrow> u32" where
  "subsec_nanos d = dur_nanos d"

definition subsec_micros :: "TimeValue \<Rightarrow> u32" where
  "subsec_micros d = dur_nanos d div 1000"

definition checked_sub :: "TimeValue \<Rightarrow> TimeValue \<Rightarrow> TimeValue option" where
  "checked_sub a b =
     (if dur_secs a < dur_secs b then None
      else let secs = dur_secs a - dur_secs b
      in if dur_nanos b \<le> dur_nanos a
         then Some \<lparr>dur_secs = secs, dur_nanos = dur_nanos a - dur_nanos b\<rparr>
         else if secs = 0 then None
         else Some \<lparr>dur_secs = secs - 1, dur_nanos = dur_nanos a + NANOS_PER_SEC - dur_nanos b\<rparr>)"

text \<open>The length of a duration in nanoseconds.\<close>

definition dur_len :: "TimeValue \<Rightarrow> nat" where
  "dur_len d = unat (dur_secs d) * 1000000000 + unat (dur_nanos d)"

lemma checked_sub_len:
  assumes "dur_ok a" "dur_ok b"
  shows "case checked_sub a b of
      None \<Rightarrow> dur_len a < dur_len b
    | Some d \<Rightarrow> dur_ok d \<and> dur_len b + dur_len d = dur_len a"
proof -
  have na: "unat (dur_nanos a) < 1000000000" and nb: "unat (dur_nanos b) < 1000000000"
    using assms by (simp_all add: dur_ok_def word_less_nat_alt)
  show ?thesis
  proof (cases "dur_secs a < dur_secs b")
    case True
    then have "unat (dur_secs a) < unat (dur_secs b)" by (simp add: word_less_nat_alt)
    with True na show ?thesis by (simp add: checked_sub_def dur_len_def)
  next
    case False
    then have ge: "unat (dur_secs b) \<le> unat (dur_secs a)" by (simp add: word_less_nat_alt)
    have secs: "unat (dur_secs a - dur_secs b) = unat (dur_secs a) - unat (dur_secs b)"
      using False by (simp add: unat_sub not_less)
    show ?thesis
    proof (cases "dur_nanos b \<le> dur_nanos a")
      case True
      then have "unat (dur_nanos a - dur_nanos b) = unat (dur_nanos a) - unat (dur_nanos b)"
        and "unat (dur_nanos b) \<le> unat (dur_nanos a)"
        by (simp_all add: unat_sub word_le_nat_alt)
      with False True secs ge na show ?thesis
        by (simp add: checked_sub_def dur_len_def dur_ok_def word_less_nat_alt, arith)
    next
      case nlt: False
      then have lt: "unat (dur_nanos a) < unat (dur_nanos b)" by (simp add: word_le_nat_alt)
      show ?thesis
      proof (cases "dur_secs a - dur_secs b = 0")
        case True
        with False nlt lt secs ge show ?thesis
          by (simp add: checked_sub_def dur_len_def)
      next
        case ne: False
        then have "unat (dur_secs b) < unat (dur_secs a)"
          using ge secs by (metis diff_is_0_eq linorder_not_less unat_eq_zero)
        then obtain k where k: "unat (dur_secs a) = unat (dur_secs b) + Suc k"
          using less_iff_Suc_add by auto
        moreover have "unat (dur_secs a - dur_secs b - 1) = unat (dur_secs a) - unat (dur_secs b) - 1"
          using ne secs by (simp add: unat_minus_one)
        moreover have "unat (dur_nanos a + NANOS_PER_SEC - dur_nanos b) =
            unat (dur_nanos a) + 1000000000 - unat (dur_nanos b)"
        proof -
          have sum: "unat (dur_nanos a + NANOS_PER_SEC) = unat (dur_nanos a) + 1000000000"
            using na unat_add_lem [of "dur_nanos a" NANOS_PER_SEC] by simp
          then have "dur_nanos b \<le> dur_nanos a + NANOS_PER_SEC"
            using nb by (simp add: word_le_nat_alt)
          then show ?thesis by (simp add: unat_sub sum)
        qed
        ultimately show ?thesis
          using False nlt ne lt na nb
          by (auto simp add: checked_sub_def dur_len_def dur_ok_def word_less_nat_alt)
      qed
    qed
  qed
qed

section \<open>The structures of user space\<close>

record timespec =
  tv_sec :: u64
  tv_nsec :: u64

record timeval =
  tvu_sec :: u64
  tvu_usec :: u64

type_synonym kernel_timespec = timespec
type_synonym kernel_old_timespec = timespec
type_synonym kernel_old_timeval = timeval
type_synonym kernel_sock_timeval = timeval

definition TimeValue_from_time_value :: "TimeValue \<Rightarrow> TimeValue" where
  "TimeValue_from_time_value tv = tv"

definition TimeValue_to_time_value :: "TimeValue \<Rightarrow> TimeValue option" where
  "TimeValue_to_time_value self = Some self"

definition timespec_from_time_value :: "TimeValue \<Rightarrow> timespec" where
  "timespec_from_time_value tv = \<lparr>tv_sec = as_secs tv, tv_nsec = ucast (subsec_nanos tv)\<rparr>"

definition timespec_to_time_value :: "timespec \<Rightarrow> TimeValue option" where
  "timespec_to_time_value self = Duration_new (tv_sec self) (ucast (tv_nsec self))"

definition kernel_timespec_from_time_value :: "TimeValue \<Rightarrow> kernel_timespec" where
  "kernel_timespec_from_time_value tv = \<lparr>tv_sec = as_secs tv, tv_nsec = ucast (subsec_nanos tv)\<rparr>"

definition kernel_timespec_to_time_value :: "kernel_timespec \<Rightarrow> TimeValue option" where
  "kernel_timespec_to_time_value self = Duration_new (tv_sec self) (ucast (tv_nsec self))"

definition kernel_old_timespec_from_time_value :: "TimeValue \<Rightarrow> kernel_old_timespec" where
  "kernel_old_timespec_from_time_value tv = \<lparr>tv_sec = as_secs tv, tv_nsec = ucast (subsec_nanos tv)\<rparr>"

definition kernel_old_timespec_to_time_value :: "kernel_old_timespec \<Rightarrow> TimeValue option" where
  "kernel_old_timespec_to_time_value self = Duration_new (tv_sec self) (ucast (tv_nsec self))"

definition timeval_from_time_value :: "TimeValue \<Rightarrow> timeval" where
  "timeval_from_time_value tv = \<lparr>tvu_sec = as_secs tv, tvu_usec = ucast (subsec_micros tv)\<rparr>"

definition timeval_to_time_value :: "timeval \<Rightarrow> TimeValue option" where
  "timeval_to_time_value self = Duration_new (tvu_sec self) (ucast (tvu_usec self) * 1000)"

definition kernel_old_timeval_from_time_value :: "TimeValue \<Rightarrow> kernel_old_timeval" where
  "kernel_old_timeval_from_time_value tv = \<lparr>tvu_sec = as_secs tv, tvu_usec = ucast (subsec_micros tv)\<rparr>"

definition kernel_old_timeval_to_time_value :: "kernel_old_timeval \<Rightarrow> TimeValue option" where
  "kernel_old_timeval_to_time_value self = Duration_new (tvu_sec self) (ucast (tvu_usec self) * 1000)"

definition kernel_sock_timeval_from_time_value :: "TimeValue \<Rightarrow> kernel_sock_timeval" where
  "kernel_sock_timeval_from_time_value tv = \<lparr>tvu_sec = as_secs tv, tvu_usec = ucast (subsec_micros tv)\<rparr>"

definition kernel_sock_timeval_to_time_value :: "kernel_sock_timeval \<Rightarrow> TimeValue option" where
  "kernel_sock_timeval_to_time_value self = Duration_new (tvu_sec self) (ucast (tvu_usec self) * 1000)"

section \<open>The trait\<close>

text \<open>A duration cut down to a multiple of \<open>g\<close> nanoseconds below the second.\<close>

definition cut :: "u32 \<Rightarrow> TimeValue \<Rightarrow> TimeValue" where
  "cut g d = d\<lparr>dur_nanos := dur_nanos d div g * g\<rparr>"

lemma dur_ok_cut [simp]: "dur_ok d \<Longrightarrow> dur_ok (cut g d)"
  using div_mult_le_word [of "dur_nanos d" g] by (auto simp: dur_ok_def cut_def)

locale time_value_like =
  fixes from_time_value :: "TimeValue \<Rightarrow> 'a"
    and to_time_value :: "'a \<Rightarrow> TimeValue option"
    and grain :: u32
  assumes to_from: "dur_ok d \<Longrightarrow> to_time_value (from_time_value d) = Some (cut grain d)"
    and from_cut: "from_time_value (cut grain d) = from_time_value d"
begin

text \<open>Reading back what was written and writing it again gives the same structure.\<close>

lemma from_to_from:
  "dur_ok d \<Longrightarrow> map_option from_time_value (to_time_value (from_time_value d)) = Some (from_time_value d)"
  by (simp add: to_from from_cut)

lemma to_from_len:
  assumes "dur_ok d" "0 < grain"
  shows "\<exists>d'. to_time_value (from_time_value d) = Some d' \<and> dur_ok d' \<and>
    dur_len d' \<le> dur_len d \<and> dur_len d < dur_len d' + unat grain"
proof -
  have g: "0 < unat grain" using assms(2) by (simp add: word_less_nat_alt)
  have "unat (dur_nanos d) < unat (dur_nanos d) div unat grain * unat grain + unat grain"
    using dividend_less_div_times [OF g] by (simp add: add.commute)
  with assms show ?thesis
    by (simp add: to_from) (simp add: cut_def dur_len_def unat_div_mult)
qed

end

lemma cut_select [simp]:
  "dur_secs (cut g d) = dur_secs d" "dur_nanos (cut g d) = dur_nanos d div g * g"
  by (simp_all add: cut_def)

lemma Duration_new_nanos:
  "dur_ok d \<Longrightarrow> Duration_new (dur_secs d) (dur_nanos d) = Some d"
  by (simp add: Duration_new_def dur_ok_def)

lemma Duration_new_micros:
  "dur_ok d \<Longrightarrow> Duration_new (dur_secs d) (dur_nanos d div 1000 * 1000) = Some (cut 1000 d)"
  using Duration_new_nanos [of "cut 1000 d"] by simp

lemma cut_one [simp]: "cut 1 d = d"
  by (simp add: cut_def)

interpretation tv_TimeValue: time_value_like TimeValue_from_time_value TimeValue_to_time_value 1
  by unfold_locales (simp_all add: TimeValue_from_time_value_def TimeValue_to_time_value_def)

interpretation tv_timespec: time_value_like timespec_from_time_value timespec_to_time_value 1
  by unfold_locales (simp_all add: timespec_from_time_value_def timespec_to_time_value_def
      as_secs_def subsec_nanos_def Duration_new_nanos)

interpretation tv_kernel_timespec:
  time_value_like kernel_timespec_from_time_value kernel_timespec_to_time_value 1
  by unfold_locales (simp_all add: kernel_timespec_from_time_value_def
      kernel_timespec_to_time_value_def as_secs_def subsec_nanos_def Duration_new_nanos)

interpretation tv_kernel_old_timespec:
  time_value_like kernel_old_timespec_from_time_value kernel_old_timespec_to_time_value 1
  by unfold_locales (simp_all add: kernel_old_timespec_from_time_value_def
      kernel_old_timespec_to_time_value_def as_secs_def subsec_nanos_def Duration_new_nanos)

interpretation tv_timeval: time_value_like timeval_from_time_value timeval_to_time_value 1000
  by unfold_locales (simp_all add: timeval_from_time_value_def timeval_to_time_value_def
      as_secs_def subsec_micros_def Duration_new_micros)

interpretation tv_kernel_old_timeval:
  time_value_like kernel_old_timeval_from_time_value kernel_old_timeval_to_time_value 1000
  by unfold_locales (simp_all add: kernel_old_timeval_from_time_value_def
      kernel_old_timeval_to_time_value_def as_secs_def subsec_micros_def Duration_new_micros)

interpretation tv_kernel_sock_timeval:
  time_value_like kernel_sock_timeval_from_time_value kernel_sock_timeval_to_time_value 1000
  by unfold_locales (simp_all add: kernel_sock_timeval_from_time_value_def
      kernel_sock_timeval_to_time_value_def as_secs_def subsec_micros_def Duration_new_micros)

section \<open>System calls\<close>

text \<open>
  The clock numbers come from \<^verbatim>\<open>linux_raw_sys\<close>, the times from \<^verbatim>\<open>axhal\<close>. \<open>ts\<close> is what
  \<^verbatim>\<open>ts.get_as_mut()\<close> gives; the structure stored through it is part of the result.
\<close>

record clock_abi =
  CLOCK_REALTIME :: u32
  CLOCK_MONOTONIC :: u32

definition sys_clock_gettime ::
  "clock_abi \<Rightarrow> TimeValue \<Rightarrow> TimeValue \<Rightarrow> i32 \<Rightarrow> unit LinuxResult \<Rightarrow>
   isize LinuxResult \<times> timespec option" where
  "sys_clock_gettime K wall_time monotonic_time clock_id ts =
     (if clock_id = CLOCK_REALTIME K \<or> clock_id = CLOCK_MONOTONIC K then
        let now = (if clock_id = CLOCK_REALTIME K then wall_time else monotonic_time)
        in (case ts of
              Inl e \<Rightarrow> (Inl e, None)
            | Inr _ \<Rightarrow> (Inr 0, Some (timespec_from_time_value now)))
      else (Inl EINVAL, None))"

definition sys_gettimeofday ::
  "TimeValue \<Rightarrow> unit LinuxResult \<Rightarrow> isize LinuxResult \<times> timeval option" where
  "sys_gettimeofday wall_time ts =
     (case ts of
        Inl e \<Rightarrow> (Inl e, None)
      | Inr _ \<Rightarrow> (Inr 0, Some (timeval_from_time_value wall_time)))"

text \<open>\<^verbatim>\<open>sys_sched_yield\<close>: \<open>yield_now\<close> is what the other tasks do to the state meanwhile.\<close>

definition sys_sched_yield :: "('s \<Rightarrow> 's) \<Rightarrow> 's \<Rightarrow> isize LinuxResult \<times> 's" where
  "sys_sched_yield yield_now s = (Inr 0, yield_now s)"

text \<open>
  \<^verbatim>\<open>sys_nanosleep\<close>. \<open>req\<close> is what \<^verbatim>\<open>req.get_as_ref()\<close> gives; \<open>sleep dur\<close> gives the clock
  before and after \<^verbatim>\<open>axtask::sleep(dur)\<close>; \<open>rem\<close> is \<^verbatim>\<open>nullable!(rem.get_as_mut())\<close>, with
  \<open>Inr False\<close> for a null pointer. Subtracting the clocks panics if the clock ran backwards.
\<close>

definition sys_nanosleep ::
  "(TimeValue \<Rightarrow> TimeValue \<times> TimeValue) \<Rightarrow> timespec LinuxResult \<Rightarrow> bool LinuxResult \<Rightarrow>
   (isize LinuxResult \<times> timespec option) option" where
  "sys_nanosleep sleep req rem =
     (case req of
        Inl e \<Rightarrow> Some (Inl e, None)
      | Inr r \<Rightarrow>
          if sint (tv_nsec r) < 0 \<or> sint (tv_nsec r) > 999999999 \<or> sint (tv_sec r) < 0
          then Some (Inl EINVAL, None)
          else
            Option.bind (timespec_to_time_value r) (\<lambda>dur.
            case sleep dur of (now, after) \<Rightarrow>
            Option.bind (checked_sub after now) (\<lambda>actual.
            case checked_sub dur actual of
              None \<Rightarrow> Some (Inr 0, None)
            | Some diff \<Rightarrow>
                (case rem of
                   Inl e \<Rightarrow> Some (Inl e, None)
                 | Inr non_null \<Rightarrow> Some (Inl EINTR,
                     if non_null then Some (timespec_from_time_value diff) else None)))))"


section \<open>Properties\<close>

lemma dur_len_cut_micros: "dur_len (cut 1000 d) = dur_len d div 1000 * 1000"
proof -
  have "unat (dur_nanos (cut 1000 d)) = unat (dur_nanos d) div 1000 * 1000"
    by (simp add: unat_div_mult)
  moreover have "(unat (dur_secs d) * 1000000000 + unat (dur_nanos d)) div 1000 =
      unat (dur_secs d) * 1000000 + unat (dur_nanos d) div 1000"
    by simp
  ultimately show ?thesis by (simp add: dur_len_def cut_def)
qed

text \<open>
  C12. Converting a duration to a user-space time structure and back loses nothing for the
  nanosecond structures, and for the microsecond structures gives the duration rounded down to a
  whole number of microseconds; no conversion panics and no field wraps.
\<close>

theorem time_value_round_trip:
  assumes "dur_ok d"
  shows "TimeValue_to_time_value (TimeValue_from_time_value d) = Some d
    \<and> timespec_to_time_value (timespec_from_time_value d) = Some d
    \<and> kernel_timespec_to_time_value (kernel_timespec_from_time_value d) = Some d
    \<and> kernel_old_timespec_to_time_value (kernel_old_timespec_from_time_value d) = Some d
    \<and> (\<exists>d'. dur_ok d' \<and> dur_len d' = dur_len d div 1000 * 1000
        \<and> timeval_to_time_value (timeval_from_time_value d) = Some d'
        \<and> kernel_old_timeval_to_time_value (kernel_old_timeval_from_time_value d) = Some d'
        \<and> kernel_sock_timeval_to_time_value (kernel_sock_timeval_from_time_value d) = Some d')"
  using assms dur_len_cut_micros [of d]
  by (simp add: tv_TimeValue.to_from tv_timespec.to_from tv_kernel_timespec.to_from
      tv_kernel_old_timespec.to_from tv_timeval.to_from tv_kernel_old_timeval.to_from
      tv_kernel_sock_timeval.to_from)

theorem time_value_round_trip_witness:
  "timespec_to_time_value (timespec_from_time_value \<lparr>dur_secs = 7, dur_nanos = 999999999\<rparr>) =
     Some \<lparr>dur_secs = 7, dur_nanos = 999999999\<rparr>"
  using time_value_round_trip [of "\<lparr>dur_secs = 7, dur_nanos = 999999999\<rparr>"]
  by (simp add: dur_ok_def)

text \<open>A request \<^verbatim>\<open>sys_nanosleep\<close> accepts, and its length in nanoseconds.\<close>

definition valid_request :: "timespec \<Rightarrow> bool" where
  "valid_request r \<longleftrightarrow> 0 \<le> sint (tv_sec r) \<and> 0 \<le> sint (tv_nsec r) \<and> sint (tv_nsec r) < 1000000000"

definition timespec_len :: "timespec \<Rightarrow> nat" where
  "timespec_len r = unat (tv_sec r) * 1000000000 + unat (tv_nsec r)"

lemma sint_unat_nonneg:
  fixes x :: u64
  assumes "0 \<le> sint x"
  shows "sint x = int (unat x)"
  using assms sint_lt [of x] by (simp add: uint_sint take_bit_int_eq_self)

lemma valid_request_duration:
  assumes "valid_request r"
  shows "\<exists>dur. timespec_to_time_value r = Some dur \<and> dur_ok dur \<and> dur_len dur = timespec_len r"
proof -
  have lt: "unat (tv_nsec r) < 1000000000"
    using assms unfolding valid_request_def by (auto simp only: sint_unat_nonneg)
  then have n: "unat (ucast (tv_nsec r) :: u32) = unat (tv_nsec r)"
    by (simp add: unsigned_ucast_eq take_bit_nat_eq_self)
  with lt have "(ucast (tv_nsec r) :: u32) < NANOS_PER_SEC"
    by (simp add: word_less_nat_alt)
  with n show ?thesis
    by (simp add: timespec_to_time_value_def Duration_new_def dur_ok_def dur_len_def timespec_len_def)
qed

lemma timespec_len_from: "timespec_len (timespec_from_time_value d) = dur_len d"
  using unsigned_less [of "dur_nanos d", where 'a = nat]
  by (simp add: timespec_len_def timespec_from_time_value_def dur_len_def as_secs_def subsec_nanos_def
      unsigned_ucast_eq take_bit_nat_eq_self)

text \<open>
  C13. \<^verbatim>\<open>sys_nanosleep\<close> refuses a malformed request with \<^verbatim>\<open>EINVAL\<close> without sleeping. Otherwise it
  sleeps for exactly the requested time: when the clock shows that more time passed than was asked
  for it returns 0 and stores nothing, and in every other case it returns \<^verbatim>\<open>EINTR\<close> and, if \<^verbatim>\<open>rem\<close>
  is not null, stores the exact remaining time. A sleep of exactly the requested length is
  therefore reported as interrupted with nothing remaining.
\<close>

theorem sys_nanosleep_spec:
  assumes clock: "\<And>dur. dur_ok dur \<Longrightarrow> case sleep dur of (now, after) \<Rightarrow>
      dur_ok now \<and> dur_ok after \<and> dur_len after = dur_len now + slept dur"
  shows "if valid_request r then
      \<exists>dur. dur_ok dur \<and> dur_len dur = timespec_len r \<and>
        (if dur_len dur < slept dur
         then sys_nanosleep sleep (Inr r) (Inr non_null) = Some (Inr 0, None)
         else \<exists>left. timespec_len left + slept dur = timespec_len r \<and>
           sys_nanosleep sleep (Inr r) (Inr non_null) =
             Some (Inl EINTR, if non_null then Some left else None))
    else sys_nanosleep sleep (Inr r) (Inr non_null) = Some (Inl EINVAL, None)"
proof (cases "valid_request r")
  case True
  then obtain dur where dur: "timespec_to_time_value r = Some dur" "dur_ok dur"
    "dur_len dur = timespec_len r"
    using valid_request_duration by blast
  obtain now after where sl: "sleep dur = (now, after)" by fastforce
  with clock [OF dur(2)] have ok: "dur_ok now" "dur_ok after"
    and len: "dur_len after = dur_len now + slept dur" by simp_all
  obtain actual where act: "checked_sub after now = Some actual" "dur_ok actual"
    "dur_len actual = slept dur"
    using checked_sub_len [OF ok(2) ok(1)] len by (auto split: option.splits)
  have run: "sys_nanosleep sleep (Inr r) (Inr non_null) =
      (case checked_sub dur actual of None \<Rightarrow> Some (Inr 0, None)
       | Some diff \<Rightarrow> Some (Inl EINTR, if non_null then Some (timespec_from_time_value diff) else None))"
    using True dur(1) sl act(1) by (auto simp: sys_nanosleep_def valid_request_def split: option.split)
  show ?thesis
    using True dur act(3) checked_sub_len [OF dur(2) act(2)] run
    by (auto split: option.splits intro!: exI [of _ dur] simp: timespec_len_from)
      (metis add.commute timespec_len_from)
next
  case False
  then show ?thesis by (auto simp: sys_nanosleep_def valid_request_def)
qed

theorem sys_nanosleep_spec_witness:
  "sys_nanosleep (\<lambda>dur. (\<lparr>dur_secs = 0, dur_nanos = 0\<rparr>, \<lparr>dur_secs = 0, dur_nanos = 5\<rparr>))
     (Inr \<lparr>tv_sec = 0, tv_nsec = 4\<rparr>) (Inr True) = Some (Inr 0, None)
   \<and> \<not> valid_request \<lparr>tv_sec = 0, tv_nsec = 1000000000\<rparr>"
  using sys_nanosleep_spec [of "\<lambda>_. 5"
      "\<lambda>dur. (\<lparr>dur_secs = 0, dur_nanos = 0\<rparr>, \<lparr>dur_secs = 0, dur_nanos = 5\<rparr>)" "\<lparr>tv_sec = 0, tv_nsec = 4\<rparr>" True]
  by (auto simp: dur_ok_def dur_len_def valid_request_def timespec_len_def)

end
