(* ===== verification/Paths.thy ===== *)
theory Paths
  imports Fd_Table
begin

text \<open>
  Path names and hard links (\<^verbatim>\<open>api/src/path.rs\<close>). A Rust string is the list of its code
  points. Slicing a string at a slash is slicing that list, since a slash is one byte.

  The file system is the crate \<^verbatim>\<open>axfs\<close>, which is not part of the sources: the functions of
  \<^verbatim>\<open>axfs::api\<close> are the record \<open>axfs_ops\<close> over an abstract state \<open>'s\<close>, which also holds the
  conversion of \<^verbatim>\<open>AxError\<close> into \<^verbatim>\<open>LinuxError\<close> of \<^verbatim>\<open>axerrno\<close>.
\<close>

section \<open>Strings\<close>

type_synonym str = "nat list"

definition lit :: "string \<Rightarrow> str" where
  "lit s = map of_char s"

abbreviation slash :: nat where
  "slash \<equiv> 47"

definition starts_with_slash :: "str \<Rightarrow> bool" where
  "starts_with_slash s \<longleftrightarrow> (case s of [] \<Rightarrow> False | c # _ \<Rightarrow> c = slash)"

definition ends_with_slash :: "str \<Rightarrow> bool" where
  "ends_with_slash s \<longleftrightarrow> s \<noteq> [] \<and> last s = slash"

text \<open>The code points with the property \<^verbatim>\<open>White_Space\<close>, which \<^verbatim>\<open>str::trim\<close> removes.\<close>

definition is_whitespace :: "nat \<Rightarrow> bool" where
  "is_whitespace c \<longleftrightarrow> 9 \<le> c \<and> c \<le> 13 \<or> c = 32 \<or> c = 133 \<or> c = 160 \<or> c = 5760
     \<or> 8192 \<le> c \<and> c \<le> 8202 \<or> c = 8232 \<or> c = 8233 \<or> c = 8239 \<or> c = 8287 \<or> c = 12288"

definition trim_end :: "str \<Rightarrow> str" where
  "trim_end s = rev (dropWhile is_whitespace (rev s))"

definition trim :: "str \<Rightarrow> str" where
  "trim s = trim_end (dropWhile is_whitespace s)"

fun rfind :: "nat \<Rightarrow> str \<Rightarrow> nat option" where
  "rfind c [] = None"
| "rfind c (x # xs) =
     (case rfind c xs of
        Some i \<Rightarrow> Some (Suc i)
      | None \<Rightarrow> if x = c then Some 0 else None)"

fun split_at_ch :: "nat \<Rightarrow> str \<Rightarrow> str list" where
  "split_at_ch c [] = [[]]"
| "split_at_ch c (x # xs) =
     (if x = c then [] # split_at_ch c xs
      else case split_at_ch c xs of [] \<Rightarrow> [[x]] | w # ws \<Rightarrow> (x # w) # ws)"

section \<open>The file system\<close>

record 's axfs_ops =
  canonicalize :: "'s \<Rightarrow> str \<Rightarrow> str AxResult"
  absolute_path_exists :: "'s \<Rightarrow> str \<Rightarrow> bool"
  remove_file :: "str \<Rightarrow> 's \<Rightarrow> unit AxResult \<times> 's"
  remove_dir :: "str \<Rightarrow> 's \<Rightarrow> unit AxResult \<times> 's"
  create_dir :: "str \<Rightarrow> 's \<Rightarrow> unit AxResult \<times> 's"
  metadata_is_dir :: "'s \<Rightarrow> str \<Rightarrow> bool AxResult"
  set_current_dir :: "str \<Rightarrow> 's \<Rightarrow> unit AxResult \<times> 's"
  current_dir :: "'s \<Rightarrow> str AxResult"
  ax_into :: "AxError \<Rightarrow> LinuxError"

section \<open>Hard links\<close>

type_synonym FilePath = str

datatype LinkError = LinkExists | LE_InvalidPath | LE_NotFound | NotFile

definition LinkError_to_AxError :: "LinkError \<Rightarrow> AxError" where
  "LinkError_to_AxError err =
     (case err of
        LinkExists \<Rightarrow> AlreadyExists
      | LE_InvalidPath \<Rightarrow> InvalidInput
      | LE_NotFound \<Rightarrow> NotFound
      | NotFile \<Rightarrow> InvalidInput)"

definition LinkError_to_LinuxError :: "'s axfs_ops \<Rightarrow> LinkError \<Rightarrow> LinuxError" where
  "LinkError_to_LinuxError F err = ax_into F (LinkError_to_AxError err)"

record LinkManagerInner =
  links :: "str \<rightharpoonup> str"
  ref_counts :: "str \<rightharpoonup> usize"

definition HardlinkManager_new :: LinkManagerInner where
  "HardlinkManager_new = \<lparr>links = Map.empty, ref_counts = Map.empty\<rparr>"

definition real_path :: "LinkManagerInner \<Rightarrow> str \<Rightarrow> str" where
  "real_path m path = (case links m path of Some p \<Rightarrow> p | None \<Rightarrow> path)"

definition is_root :: "FilePath \<Rightarrow> bool" where
  "is_root p \<longleftrightarrow> p = [slash]"

definition is_dir :: "FilePath \<Rightarrow> bool" where
  "is_dir p \<longleftrightarrow> ends_with_slash p"

definition is_file :: "FilePath \<Rightarrow> bool" where
  "is_file p \<longleftrightarrow> \<not> is_dir p"

definition path_exists :: "'s axfs_ops \<Rightarrow> 's \<Rightarrow> FilePath \<Rightarrow> bool" where
  "path_exists F s p = absolute_path_exists F s p"

definition link_count :: "'s axfs_ops \<Rightarrow> 's \<Rightarrow> LinkManagerInner \<Rightarrow> FilePath \<Rightarrow> usize" where
  "link_count F s m path =
     (case ref_counts m path of
        Some n \<Rightarrow> n
      | None \<Rightarrow> if path_exists F s path then 1 else 0)"

definition decrease_ref_count ::
  "'s axfs_ops \<Rightarrow> str \<Rightarrow> LinkManagerInner \<Rightarrow> 's \<Rightarrow> unit option \<times> LinkManagerInner \<times> 's" where
  "decrease_ref_count F path m s =
     (case ref_counts m path of
        Some count \<Rightarrow>
          if count - 1 = 0 then
            (case remove_file F path s of (r, s') \<Rightarrow>
               (case r of Inl _ \<Rightarrow> None | Inr _ \<Rightarrow> Some (),
                m\<lparr>ref_counts := (ref_counts m)(path := None)\<rparr>, s'))
          else (Some (), m\<lparr>ref_counts := (ref_counts m)(path \<mapsto> count - 1)\<rparr>, s)
      | None \<Rightarrow> (None, m, s))"

definition atomic_link_update ::
  "'s axfs_ops \<Rightarrow> FilePath \<Rightarrow> FilePath \<Rightarrow> LinkManagerInner \<Rightarrow> 's \<Rightarrow> LinkManagerInner \<times> 's" where
  "atomic_link_update F src dst m s =
     (let insert_link = (\<lambda>m.
            m\<lparr>links := (links m)(src \<mapsto> dst),
              ref_counts := (ref_counts m)(dst \<mapsto>
                (case ref_counts m dst of Some n \<Rightarrow> n | None \<Rightarrow> 0) + 1)\<rparr>)
      in case links m src of
           Some old_dst \<Rightarrow>
             if old_dst = dst then (m, s)
             else (case decrease_ref_count F old_dst m s of (_, m', s') \<Rightarrow> (insert_link m', s'))
         | None \<Rightarrow> (insert_link m, s))"

definition atomic_link_remove ::
  "'s axfs_ops \<Rightarrow> FilePath \<Rightarrow> LinkManagerInner \<Rightarrow> 's \<Rightarrow> str option \<times> LinkManagerInner \<times> 's" where
  "atomic_link_remove F src m s =
     (case links m src of
        Some dst \<Rightarrow>
          (case decrease_ref_count F dst (m\<lparr>links := (links m)(src := None)\<rparr>) s of
             (_, m', s') \<Rightarrow> (Some dst, m', s'))
      | None \<Rightarrow> (None, m, s))"

definition create_link ::
  "'s axfs_ops \<Rightarrow> FilePath \<Rightarrow> FilePath \<Rightarrow> LinkManagerInner \<Rightarrow> 's \<Rightarrow>
   (LinkError + unit) \<times> LinkManagerInner \<times> 's" where
  "create_link F src dst m s =
     (if \<not> path_exists F s dst then (Inl LE_NotFound, m, s)
      else if \<not> is_dir dst then (Inl NotFile, m, s)
      else (Inr (), atomic_link_update F src dst m s))"

definition remove_link ::
  "'s axfs_ops \<Rightarrow> FilePath \<Rightarrow> LinkManagerInner \<Rightarrow> 's \<Rightarrow> str option \<times> LinkManagerInner \<times> 's" where
  "remove_link F src m s =
     (case atomic_link_remove F src m s of
        (Some dst, m', s') \<Rightarrow> (Some dst, m', s')
      | (None, m', s') \<Rightarrow>
          (case remove_file F src s' of
             (Inl _, s'') \<Rightarrow> (None, m', s'')
           | (Inr _, s'') \<Rightarrow> (Some src, m', s'')))"

section \<open>File paths\<close>

text \<open>\<open>None\<close> is the failing assertion of \<^verbatim>\<open>FilePath::new\<close>.\<close>

definition FilePath_new ::
  "'s axfs_ops \<Rightarrow> 's \<Rightarrow> LinkManagerInner \<Rightarrow> str \<Rightarrow> FilePath AxResult option" where
  "FilePath_new F s m path =
     (case map_err (\<lambda>_. NotFound) (canonicalize F s path) of
        Inl e \<Rightarrow> Some (Inl e)
      | Inr canonical \<Rightarrow>
          let trimmed = trim canonical;
              new_path = (if ends_with_slash path \<and> \<not> ends_with_slash trimmed
                          then trimmed @ [slash] else trimmed)
          in if starts_with_slash new_path then Some (Inr (real_path m new_path)) else None)"

definition strip_slash :: "str \<Rightarrow> str" where
  "strip_slash p = (if ends_with_slash p then butlast p else p)"

definition FilePath_parent :: "FilePath \<Rightarrow> str AxResult" where
  "FilePath_parent self =
     (if is_root self then Inr [slash]
      else let path = strip_slash self
      in try_then (ok_or (rfind slash path) NotFound) (\<lambda>pos. Inr (take (Suc pos) path)))"

text \<open>\<open>None\<close> is the panic of a slice whose start lies behind its end.\<close>

definition FilePath_name :: "FilePath \<Rightarrow> str AxResult option" where
  "FilePath_name self =
     (if is_root self then Some (Inr [slash])
      else let path = strip_slash self
      in ptry (Some (ok_or (rfind slash path) NotFound)) (\<lambda>start_pos.
         let end_pos = (if ends_with_slash path then length path - 1 else length path)
         in if start_pos + 1 \<le> end_pos
            then Some (Inr (take (end_pos - (start_pos + 1)) (drop (start_pos + 1) path)))
            else None))"

definition FilePath_starts_with :: "FilePath \<Rightarrow> FilePath \<Rightarrow> bool" where
  "FilePath_starts_with self pre \<longleftrightarrow> take (length pre) self = pre"

definition FilePath_ends_with :: "FilePath \<Rightarrow> FilePath \<Rightarrow> bool" where
  "FilePath_ends_with self suf \<longleftrightarrow>
     length suf \<le> length self \<and> drop (length self - length suf) self = suf"

definition FilePath_join ::
  "'s axfs_ops \<Rightarrow> 's \<Rightarrow> LinkManagerInner \<Rightarrow> FilePath \<Rightarrow> str \<Rightarrow> FilePath AxResult option" where
  "FilePath_join F s m self path =
     FilePath_new F s m ((if ends_with_slash self then self else self @ [slash]) @ path)"

definition trim_slashes :: "str \<Rightarrow> str" where
  "trim_slashes s = rev (dropWhile (\<lambda>c. c = slash) (rev (dropWhile (\<lambda>c. c = slash) s)))"

definition FilePath_components :: "FilePath \<Rightarrow> str list" where
  "FilePath_components self = split_at_ch slash (trim_slashes self)"

text \<open>
  \<^verbatim>\<open>handle_file_path\<close>. \<open>file_path\<close> gives the name an open file or directory was opened under,
  which \<^verbatim>\<open>File::path\<close> and \<^verbatim>\<open>Directory::path\<close> return; \<open>AT_FDCWD\<close> is a constant of
  \<^verbatim>\<open>linux_raw_sys\<close>.
\<close>

record at_abi =
  AT_FDCWD :: c_int
  AT_REMOVEDIR :: u32

record ('s, 't) fs_env =
  env_fs :: "'s axfs_ops"
  env_at :: at_abi
  env_fds :: "'t fd_ops"
  env_table :: 't
  env_file_path :: "nat \<Rightarrow> str"

definition ax_try ::
  "('s, 't) fs_env \<Rightarrow> 'a AxResult option \<Rightarrow> ('a \<Rightarrow> 'b LinuxResult option) \<Rightarrow> 'b LinuxResult option" where
  "ax_try E m f = ptry (map_option (map_err (ax_into (env_fs E))) m) f"

definition handle_file_path ::
  "('s, 't) fs_env \<Rightarrow> c_int \<Rightarrow> str \<Rightarrow> LinkManagerInner \<Rightarrow> 's \<Rightarrow> FilePath LinuxResult option" where
  "handle_file_path E dirfd path m s =
     (let new = FilePath_new (env_fs E) s m
      in if starts_with_slash path then ax_try E (new path) (\<lambda>p. Some (Inr p))
      else if path = [] then
        ptry (Some (File_from_fd (env_fds E) (env_table E) dirfd)) (\<lambda>f.
        ax_try E (new (env_file_path E f)) (\<lambda>p. Some (Inr p)))
      else
        ptry (if dirfd = AT_FDCWD (env_at E) then ax_try E (new []) (\<lambda>p. Some (Inr p))
              else ptry (Some (Directory_from_fd (env_fds E) (env_table E) dirfd)) (\<lambda>d.
                   ax_try E (new (env_file_path E d)) (\<lambda>p. Some (Inr p)))) (\<lambda>base.
        ax_try E (FilePath_join (env_fs E) s m base path) (\<lambda>p. Some (Inr p))))"

section \<open>Splitting paths\<close>

lemma rfind_None: "rfind c xs = None \<longleftrightarrow> c \<notin> set xs"
  by (induction xs) (auto split: option.splits)

lemma rfind_Some:
  "rfind c xs = Some i \<Longrightarrow> i < length xs \<and> xs ! i = c \<and> c \<notin> set (drop (Suc i) xs)"
proof (induction xs arbitrary: i)
  case (Cons x xs)
  then show ?case by (auto simp: rfind_None split: option.splits if_splits)
qed simp

definition no_empty_component :: "str \<Rightarrow> bool" where
  "no_empty_component p \<longleftrightarrow> (\<forall>i < length p - 1. \<not> (p ! i = slash \<and> p ! Suc i = slash))"

definition wf_path :: "FilePath \<Rightarrow> bool" where
  "wf_path p \<longleftrightarrow> starts_with_slash p \<and> no_empty_component p"

lemma starts_with_slash_conv: "starts_with_slash p \<longleftrightarrow> p \<noteq> [] \<and> p ! 0 = slash"
  by (cases p) (simp_all add: starts_with_slash_def)

lemma ends_with_slash_conv: "ends_with_slash p \<longleftrightarrow> p \<noteq> [] \<and> p ! (length p - 1) = slash"
  by (auto simp: ends_with_slash_def last_conv_nth)

lemma strip_slash_wf:
  assumes "wf_path p" "\<not> is_root p"
  shows "starts_with_slash (strip_slash p) \<and> \<not> ends_with_slash (strip_slash p)"
proof (cases "ends_with_slash p")
  case True
  have first: "p ! 0 = slash" and ne: "p \<noteq> []"
    using assms(1) by (simp_all add: wf_path_def starts_with_slash_conv)
  have "length p \<noteq> 1"
    using assms(2) first ne by (auto simp: is_root_def length_Suc_conv)
  with ne have "Suc (Suc (length p - 2)) = length p" by (cases p) (auto simp: Suc_diff_Suc)
  then obtain n where n: "length p = Suc (Suc n)" by metis
  with True assms(1) have "p ! n \<noteq> slash"
    by (auto simp: ends_with_slash_conv wf_path_def no_empty_component_def)
  with n True first show ?thesis
    by (auto simp: strip_slash_def starts_with_slash_conv ends_with_slash_conv nth_butlast
        simp flip: length_greater_0_conv)
next
  case False
  with assms show ?thesis by (simp add: strip_slash_def wf_path_def)
qed

text \<open>
  On a normalised path other than the root, \<^verbatim>\<open>FilePath::parent\<close> and \<^verbatim>\<open>FilePath::name\<close>
  split the path (without its trailing slash) exactly at its last component: neither fails or
  panics, the parent ends in a slash, the name is non-empty and contains none, and together they
  are the path.
\<close>

lemma path_parent_name:
  assumes "wf_path p" "\<not> is_root p"
  shows "\<exists>a b. FilePath_parent p = Inr a \<and> FilePath_name p = Some (Inr b) \<and>
    a @ b = strip_slash p \<and> ends_with_slash a \<and> b \<noteq> [] \<and> slash \<notin> set b"
proof -
  let ?q = "strip_slash p"
  have q: "starts_with_slash ?q" "\<not> ends_with_slash ?q" using strip_slash_wf [OF assms] by auto
  then have "slash \<in> set ?q" by (cases ?q) (auto simp: starts_with_slash_def)
  then obtain i where i: "rfind slash ?q = Some i" using rfind_None by (cases "rfind slash ?q") auto
  note found = rfind_Some [OF i]
  have "i \<noteq> length ?q - 1" using q(2) found by (auto simp: ends_with_slash_conv)
  with found have lt: "Suc i < length ?q" by linarith
  have "ends_with_slash (take (Suc i) ?q)"
    using found by (auto simp: ends_with_slash_conv)
  moreover have "FilePath_parent p = Inr (take (Suc i) ?q)"
    using assms(2) i by (simp add: FilePath_parent_def)
  moreover have "FilePath_name p = Some (Inr (drop (Suc i) ?q))"
    using assms(2) i q(2) lt by (simp add: FilePath_name_def)
  ultimately show ?thesis using found lt by (intro exI conjI) auto
qed

section \<open>Paths made by the kernel are normalised\<close>

text \<open>What \<^verbatim>\<open>axfs\<close> documents of \<^verbatim>\<open>canonicalize\<close>: an absolute path without empty components.\<close>

locale axfs_paths =
  fixes F :: "'s axfs_ops"
  assumes canonical: "canonicalize F s p = Inr c \<Longrightarrow> starts_with_slash c \<and> no_empty_component c"

definition link_targets_wf :: "LinkManagerInner \<Rightarrow> bool" where
  "link_targets_wf m \<longleftrightarrow> (\<forall>dst \<in> ran (links m). wf_path dst)"

lemma no_empty_component_take: "no_empty_component p \<Longrightarrow> no_empty_component (take n p)"
  by (auto simp: no_empty_component_def)

lemma no_empty_component_snoc:
  assumes "no_empty_component p" "\<not> ends_with_slash p"
  shows "no_empty_component (p @ [slash])"
  unfolding no_empty_component_def
proof (intro allI impI)
  fix i
  assume "i < length (p @ [slash]) - 1"
  then consider "Suc i < length p" | "i = length p - 1" "p \<noteq> []" by (cases p) (auto, linarith)
  then show "\<not> ((p @ [slash]) ! i = slash \<and> (p @ [slash]) ! Suc i = slash)"
  proof cases
    case 1
    with assms(1) show ?thesis by (auto simp: no_empty_component_def nth_append)
  next
    case 2
    with assms(2) show ?thesis by (auto simp: ends_with_slash_conv nth_append)
  qed
qed

lemma trim_prefix:
  assumes "starts_with_slash c"
  shows "\<exists>n. trim c = take n c" "starts_with_slash (trim c)"
proof -
  obtain d where c: "c = slash # d"
    using assms by (cases c) (auto simp: starts_with_slash_def)
  have e: "trim c = trim_end c" by (simp add: trim_def c is_whitespace_def)
  have "trim_end c @ rev (takeWhile is_whitespace (rev c)) = c"
    unfolding trim_end_def by (metis rev_append rev_rev_ident takeWhile_dropWhile_id)
  then show "\<exists>n. trim c = take n c" unfolding e by (metis append_eq_conv_conj)
  have "trim_end c = slash # trim_end d \<or> trim_end c = [slash]"
    by (auto simp: trim_end_def c dropWhile_append is_whitespace_def dropWhile_eq_Nil_conv)
  then show "starts_with_slash (trim c)" by (auto simp: e starts_with_slash_def)
qed

lemma wf_real_path: "link_targets_wf m \<Longrightarrow> wf_path p \<Longrightarrow> wf_path (real_path m p)"
  by (auto simp: real_path_def link_targets_wf_def ran_def split: option.splits)

definition path_result_ok :: "('e + FilePath) option \<Rightarrow> bool" where
  "path_result_ok r \<longleftrightarrow>
     (case r of None \<Rightarrow> False | Some (Inl e) \<Rightarrow> True | Some (Inr p) \<Rightarrow> wf_path p)"

lemma path_result_ok_simps [simp]:
  "\<not> path_result_ok None"
  "path_result_ok (Some (Inl e))"
  "path_result_ok (Some (Inr p)) \<longleftrightarrow> wf_path p"
  by (simp_all add: path_result_ok_def)

lemma path_result_ok_ptry:
  assumes "x \<noteq> None" "\<And>y. path_result_ok (f y)"
  shows "path_result_ok (ptry x f)"
  using assms by (auto simp: ptry_def split: sum.split)

lemma path_result_ok_ax_try:
  "path_result_ok r \<Longrightarrow> path_result_ok (ax_try E r (\<lambda>p. Some (Inr p)))"
  by (auto simp: path_result_ok_def ax_try_def ptry_def map_err_def split: option.splits sum.splits)

lemma path_result_not_None: "path_result_ok r \<Longrightarrow> r \<noteq> None"
  by (cases r) simp_all

context axfs_paths
begin

lemma FilePath_new_wf:
  assumes "link_targets_wf m"
  shows "path_result_ok (FilePath_new F s m path)"
proof (cases "canonicalize F s path")
  case (Inl e)
  then show ?thesis by (simp add: FilePath_new_def)
next
  case (Inr c)
  note c = canonical [OF Inr]
  define q where "q = (if ends_with_slash path \<and> \<not> ends_with_slash (trim c)
    then trim c @ [slash] else trim c)"
  have t: "starts_with_slash (trim c)" "no_empty_component (trim c)"
    using c trim_prefix [of c] by (auto intro: no_empty_component_take)
  then have wf: "wf_path q"
    by (auto simp: q_def wf_path_def no_empty_component_snoc starts_with_slash_conv nth_append)
  have "FilePath_new F s m path = (if starts_with_slash q then Some (Inr (real_path m q)) else None)"
    unfolding FilePath_new_def Inr q_def by (simp add: Let_def)
  with wf assms show ?thesis by (simp add: wf_real_path wf_path_def [of q])
qed

lemma handle_file_path_ok:
  assumes "env_fs E = F" "link_targets_wf m"
  shows "path_result_ok (handle_file_path E dirfd path m s)"
proof -
  have new: "path_result_ok (ax_try E (FilePath_new F s m q) (\<lambda>p. Some (Inr p)))" for q
    by (intro path_result_ok_ax_try FilePath_new_wf assms)
  show ?thesis
    unfolding handle_file_path_def assms(1) FilePath_join_def Let_def
    by (auto intro!: path_result_ok_ptry new path_result_not_None)
qed

end

text \<open>
  C14. Every path the kernel derives from a descriptor and a name is normalised: if
  \<^verbatim>\<open>canonicalize\<close> gives absolute paths without empty components and the targets of the existing
  links are such paths, then \<^verbatim>\<open>handle_file_path\<close> never trips the assertion in \<^verbatim>\<open>FilePath::new\<close>,
  and the path it returns is absolute and has no empty component.
\<close>

theorem handle_file_path_wf:
  assumes "axfs_paths (env_fs E)" "link_targets_wf m"
  shows "case handle_file_path E dirfd path m s of
      None \<Rightarrow> False | Some (Inl e) \<Rightarrow> True | Some (Inr p) \<Rightarrow> wf_path p"
  using axfs_paths.handle_file_path_ok [OF assms(1) refl assms(2)]
  unfolding path_result_ok_def .

text \<open>
  A file system that meets the contract: its state is the working directory and the names of its
  files and directories, and \<^verbatim>\<open>canonicalize\<close> joins a relative name to the working directory and
  drops empty components. Directories end in a slash.
\<close>

record plain_fs =
  pf_cwd :: str
  pf_names :: "str list"

definition plain_canonical :: "str \<Rightarrow> str \<Rightarrow> str" where
  "plain_canonical cwd p =
     (let ws = filter (\<lambda>w. w \<noteq> []) (split_at_ch slash
            (if starts_with_slash p then p else cwd @ [slash] @ p))
      in if ws = [] then [slash] else concat (map (\<lambda>w. slash # w) ws))"

definition plain_remove :: "str \<Rightarrow> plain_fs \<Rightarrow> unit AxResult \<times> plain_fs" where
  "plain_remove p s =
     (if p \<in> set (pf_names s) then (Inr (), s\<lparr>pf_names := removeAll p (pf_names s)\<rparr>)
      else (Inl NotFound, s))"

definition plain_ops :: "plain_fs axfs_ops" where
  "plain_ops = \<lparr>canonicalize = (\<lambda>s p. Inr (plain_canonical (pf_cwd s) p)),
     absolute_path_exists = (\<lambda>s p. p \<in> set (pf_names s)),
     remove_file = plain_remove, remove_dir = plain_remove,
     create_dir = (\<lambda>p s. (Inr (), s\<lparr>pf_names := p # pf_names s\<rparr>)),
     metadata_is_dir = (\<lambda>s p. if p \<in> set (pf_names s) then Inr (ends_with_slash p) else Inl NotFound),
     set_current_dir = (\<lambda>p s. (Inr (), s\<lparr>pf_cwd := p\<rparr>)),
     current_dir = (\<lambda>s. Inr (pf_cwd s)),
     ax_into = (\<lambda>e. case e of AlreadyExists \<Rightarrow> EEXIST | NotFound \<Rightarrow> ENOENT
       | IsADirectory \<Rightarrow> EISDIR | _ \<Rightarrow> EINVAL)\<rparr>"

lemma split_at_ch_words: "w \<in> set (split_at_ch c p) \<Longrightarrow> c \<notin> set w"
proof (induction p arbitrary: w)
  case (Cons a p)
  then show ?case by (fastforce split: if_splits list.splits)
qed simp

lemma no_empty_component_Cons:
  "no_empty_component (a # b # xs) \<longleftrightarrow> \<not> (a = slash \<and> b = slash) \<and> no_empty_component (b # xs)"
  by (auto simp: no_empty_component_def All_less_Suc2)

lemma no_empty_component_append:
  "slash \<notin> set w \<Longrightarrow> no_empty_component q \<Longrightarrow> no_empty_component (w @ q)"
proof (induction w)
  case (Cons a w)
  then show ?case
    by (cases "w @ q") (auto simp: no_empty_component_Cons, simp add: no_empty_component_def)
qed simp

lemma no_empty_component_words:
  "\<forall>w \<in> set ws. w \<noteq> [] \<and> slash \<notin> set w \<Longrightarrow> no_empty_component (concat (map (\<lambda>w. slash # w) ws))"
proof (induction ws)
  case Nil
  then show ?case by (simp add: no_empty_component_def)
next
  case (Cons w ws)
  then obtain x v where w: "w = x # v" "x \<noteq> slash" "slash \<notin> set v"
    by (cases w) auto
  have "no_empty_component (w @ concat (map (\<lambda>w. slash # w) ws))"
    using Cons by (intro no_empty_component_append) auto
  with w show ?case by (simp add: no_empty_component_Cons)
qed

interpretation plain: axfs_paths plain_ops
proof
  fix s p c
  assume "canonicalize plain_ops s p = Inr c"
  then have c: "c = plain_canonical (pf_cwd s) p" by (simp add: plain_ops_def)
  define ws where "ws = filter (\<lambda>w. w \<noteq> []) (split_at_ch slash
    (if starts_with_slash p then p else pf_cwd s @ [slash] @ p))"
  have "\<forall>w \<in> set ws. w \<noteq> [] \<and> slash \<notin> set w" by (auto simp: ws_def dest: split_at_ch_words)
  then have "no_empty_component (concat (map (\<lambda>w. slash # w) ws))" by (rule no_empty_component_words)
  moreover have "ws \<noteq> [] \<Longrightarrow> starts_with_slash (concat (map (\<lambda>w. slash # w) ws))"
    by (cases ws) (simp_all add: starts_with_slash_def)
  ultimately show "starts_with_slash c \<and> no_empty_component c"
    by (simp add: c plain_canonical_def ws_def [symmetric] Let_def)
      (simp add: starts_with_slash_def no_empty_component_def)
qed

definition plain_env :: "(plain_fs, usize \<rightharpoonup> file_like) fs_env" where
  "plain_env = \<lparr>env_fs = plain_ops, env_at = \<lparr>AT_FDCWD = - 100, AT_REMOVEDIR = 512\<rparr>,
     env_fds = slot_ops, env_table = Map.empty, env_file_path = (\<lambda>_. [slash])\<rparr>"

lemmas plain_eval = handle_file_path_def plain_env_def plain_ops_def plain_canonical_def lit_def
  FilePath_new_def FilePath_join_def ax_try_def starts_with_slash_def ends_with_slash_def trim_def
  trim_end_def is_whitespace_def real_path_def HardlinkManager_new_def

theorem handle_file_path_wf_witness:
  "case handle_file_path plain_env (- 100) (lit ''a//b'') HardlinkManager_new
       \<lparr>pf_cwd = lit ''/home'', pf_names = []\<rparr> of
     None \<Rightarrow> False | Some (Inl e) \<Rightarrow> True | Some (Inr p) \<Rightarrow> wf_path p"
  using handle_file_path_wf [of plain_env HardlinkManager_new "- 100" "lit ''a//b''"]
    plain.axfs_paths_axioms
  by (simp add: plain_env_def link_targets_wf_def HardlinkManager_new_def)

section \<open>Reference counts\<close>

definition referrers :: "LinkManagerInner \<Rightarrow> str \<Rightarrow> str set" where
  "referrers m p = {src. links m src = Some p}"

definition count_of :: "nat \<Rightarrow> usize option" where
  "count_of n = (if n = 0 then None else Some (of_nat n))"

definition link_inv :: "LinkManagerInner \<Rightarrow> bool" where
  "link_inv m \<longleftrightarrow> finite (dom (links m)) \<and> (\<forall>p. ref_counts m p = count_of (card (referrers m p)))"

lemma finite_referrers: "link_inv m \<Longrightarrow> finite (referrers m p)"
  by (rule finite_subset [of _ "dom (links m)"]) (auto simp: link_inv_def referrers_def)

lemma card_referrers_le: "link_inv m \<Longrightarrow> card (referrers m p) \<le> card (dom (links m))"
  by (rule card_mono) (auto simp: link_inv_def referrers_def)

lemma card_referrers_less:
  "finite (dom l) \<Longrightarrow> l src = Some p \<Longrightarrow> card {x. l x = Some p} = Suc (card ({x. l x = Some p} - {src}))"
  by (rule card.remove) (auto intro: finite_subset [of _ "dom l"])

text \<open>Below \<open>2 ^ 64\<close> links the counters do not wrap, so a counter is zero only without referrers.\<close>

lemma decrease_ref_count_eq:
  assumes "ref_counts m p = count_of (Suc n)" "n < 2 ^ 64"
  shows "snd (decrease_ref_count F p m s) =
    (m\<lparr>ref_counts := (ref_counts m)(p := count_of n)\<rparr>, if n = 0 then snd (remove_file F p s) else s)"
proof -
  have "(of_nat n :: usize) = 0 \<longleftrightarrow> n = 0"
    using assms(2) by (auto simp: word_of_nat_eq_0_iff dest: dvd_imp_le)
  moreover have "ref_counts m p = Some (of_nat (Suc n))"
    using assms(1) by (simp add: count_of_def)
  ultimately show ?thesis
    by (auto simp: decrease_ref_count_def count_of_def split: prod.split)
qed

lemma referrers_simps [simp]:
  "referrers (m\<lparr>links := (links m)(src := None)\<rparr>) p = referrers m p - {src}"
  "referrers (m\<lparr>links := (links m)(src \<mapsto> dst)\<rparr>) p =
     (if p = dst then insert src (referrers m p) else referrers m p - {src})"
  "referrers (m\<lparr>ref_counts := r\<rparr>) p = referrers m p"
  by (auto simp: referrers_def)

lemma referrer_count:
  assumes "link_inv m" "links m src = Some dst" "card (dom (links m)) < 2 ^ 64"
  obtains n where "card (referrers m dst) = Suc n" "n < 2 ^ 64" "card (referrers m dst - {src}) = n"
    "ref_counts m dst = count_of (Suc n)" "n = 0 \<longleftrightarrow> referrers m dst = {src}"
proof -
  have "src \<in> referrers m dst" using assms(2) by (simp add: referrers_def)
  then have "card (referrers m dst) = Suc (card (referrers m dst - {src}))"
    by (rule card.remove [OF finite_referrers [OF assms(1)]])
  moreover have "card (referrers m dst - {src}) = 0 \<longleftrightarrow> referrers m dst = {src}"
    using \<open>src \<in> referrers m dst\<close> finite_referrers [OF assms(1), of dst] by (auto simp only: card_0_eq finite_Diff)
  moreover have "card (referrers m dst) < 2 ^ 64"
    using card_referrers_le [OF assms(1), of dst] assms(3) by linarith
  ultimately show ?thesis using that assms(1) by (simp add: link_inv_def)
qed

lemma not_referrer: "links m src \<noteq> Some p \<Longrightarrow> referrers m p - {src} = referrers m p"
  by (auto simp: referrers_def)

lemma atomic_link_remove_spec:
  assumes "link_inv m" "card (dom (links m)) < 2 ^ 64"
    and "atomic_link_remove F src m s = (r, m', s')"
  shows "link_inv m' \<and> r = links m src \<and> links m' = (links m)(src := None) \<and>
    s' = (case links m src of
            None \<Rightarrow> s
          | Some dst \<Rightarrow> if referrers m dst = {src} then snd (remove_file F dst s) else s)"
proof (cases "links m src")
  case None
  then have "(links m)(src := None) = links m" by auto
  with None assms show ?thesis by (simp add: atomic_link_remove_def)
next
  case (Some dst)
  let ?m = "m\<lparr>links := (links m)(src := None)\<rparr>"
  obtain n where n: "card (referrers m dst) = Suc n" "n < 2 ^ 64" "card (referrers m dst - {src}) = n"
    "ref_counts ?m dst = count_of (Suc n)" "n = 0 \<longleftrightarrow> referrers m dst = {src}"
    using referrer_count [OF assms(1) Some assms(2)] by simp metis
  have m': "m' = ?m\<lparr>ref_counts := (ref_counts m)(dst := count_of n)\<rparr>"
    and s': "s' = (if n = 0 then snd (remove_file F dst s) else s)" and r: "r = Some dst"
    using assms(3) decrease_ref_count_eq [OF n(4,2), of F s] Some
    by (auto simp: atomic_link_remove_def split: prod.splits)
  have "ref_counts m' p = count_of (card (referrers m' p))" for p
    using assms(1) n Some not_referrer [of m src p] by (auto simp: m' link_inv_def)
  then show ?thesis
    using assms(1) Some m' s' r n(5) by (simp add: link_inv_def)
qed

lemma count_of_next: "Some ((case count_of k of None \<Rightarrow> 0 | Some n \<Rightarrow> n) + 1) = count_of (Suc k)"
  by (simp add: count_of_def)

text \<open>Pointing a new name at \<open>dst\<close>, with the counters of the other targets already right.\<close>

lemma insert_link_inv:
  assumes "finite (dom (links m))" "links m src \<noteq> Some dst"
    and "\<And>p. c p = count_of (card (referrers m p - {src}))"
  shows "link_inv (m\<lparr>links := (links m)(src \<mapsto> dst),
    ref_counts := c(dst := count_of (Suc (card (referrers m dst))))\<rparr>)"
proof -
  have fin: "finite (referrers m p)" for p
    unfolding referrers_def by (rule finite_subset [OF _ assms(1)]) auto
  have "src \<notin> referrers m dst" using assms(2) by (simp add: referrers_def)
  then show ?thesis using assms fin by (simp add: link_inv_def)
qed

lemma atomic_link_update_spec:
  assumes "link_inv m" "card (dom (links m)) < 2 ^ 64"
    and "atomic_link_update F src dst m s = (m', s')"
  shows "link_inv m' \<and> links m' = (links m)(src \<mapsto> dst) \<and>
    s' = (case links m src of
            None \<Rightarrow> s
          | Some old \<Rightarrow>
              if old \<noteq> dst \<and> referrers m old = {src} then snd (remove_file F old s) else s)"
proof (cases "links m src")
  case None
  have "m' = m\<lparr>links := (links m)(src \<mapsto> dst),
      ref_counts := (ref_counts m)(dst := count_of (Suc (card (referrers m dst))))\<rparr>" and "s' = s"
    using assms(1,3) None by (simp_all add: atomic_link_update_def link_inv_def count_of_next)
  moreover have "link_inv (m\<lparr>links := (links m)(src \<mapsto> dst),
      ref_counts := (ref_counts m)(dst := count_of (Suc (card (referrers m dst))))\<rparr>)"
    using assms(1) None by (intro insert_link_inv) (simp_all add: link_inv_def not_referrer)
  ultimately show ?thesis using None by simp
next
  case (Some old)
  show ?thesis
  proof (cases "old = dst")
    case True
    then have "(links m)(src \<mapsto> dst) = links m" using Some by auto
    with True Some assms show ?thesis by (simp add: atomic_link_update_def)
  next
    case False
    obtain n where n: "card (referrers m old) = Suc n" "n < 2 ^ 64" "card (referrers m old - {src}) = n"
      "ref_counts m old = count_of (Suc n)" "n = 0 \<longleftrightarrow> referrers m old = {src}"
      using referrer_count [OF assms(1) Some assms(2)] by metis
    let ?c = "(ref_counts m)(old := count_of n)"
    obtain r where dec: "decrease_ref_count F old m s =
        (r, m\<lparr>ref_counts := ?c\<rparr>, if n = 0 then snd (remove_file F old s) else s)"
      using decrease_ref_count_eq [OF n(4,2), of F s] by (metis prod.collapse)
    have m': "m' = m\<lparr>links := (links m)(src \<mapsto> dst),
        ref_counts := ?c(dst := count_of (Suc (card (referrers m dst))))\<rparr>"
      and s': "s' = (if n = 0 then snd (remove_file F old s) else s)"
      using assms(1,3) Some False
      by (simp_all add: atomic_link_update_def dec link_inv_def count_of_next)
    have "?c p = count_of (card (referrers m p - {src}))" for p
      using assms(1) n(3) Some by (cases "p = old") (simp_all add: link_inv_def not_referrer)
    then have "link_inv m'"
      unfolding m' using assms(1) Some False by (intro insert_link_inv) (simp_all add: link_inv_def)
    then show ?thesis using Some False m' s' n(5) by simp
  qed
qed

section \<open>Sequences of link operations\<close>

text \<open>
  The calls on the global \<^verbatim>\<open>HARDLINK_MANAGER\<close> in the order they take its lock, with arbitrary
  changes of the file system in between.
\<close>

datatype 's link_op = CreateLink FilePath FilePath | RemoveLink FilePath | FsChange "'s \<Rightarrow> 's"

fun link_op_run :: "'s axfs_ops \<Rightarrow> 's link_op \<Rightarrow> LinkManagerInner \<times> 's \<Rightarrow> LinkManagerInner \<times> 's" where
  "link_op_run F (CreateLink src dst) (m, s) = snd (create_link F src dst m s)"
| "link_op_run F (RemoveLink src) (m, s) = snd (remove_link F src m s)"
| "link_op_run F (FsChange f) (m, s) = (m, f s)"

definition link_ops_run ::
  "'s axfs_ops \<Rightarrow> 's link_op list \<Rightarrow> LinkManagerInner \<times> 's \<Rightarrow> LinkManagerInner \<times> 's" where
  "link_ops_run F ops st = fold (link_op_run F) ops st"

lemma remove_link_cases:
  assumes "link_inv m" "card (dom (links m)) < 2 ^ 64" "remove_link F src m s = (r, m', s')"
  shows "link_inv m' \<and> (case links m src of
      Some dst \<Rightarrow> r = Some dst \<and> links m' = (links m)(src := None) \<and>
        s' = (if referrers m dst = {src} then snd (remove_file F dst s) else s)
    | None \<Rightarrow> m' = m \<and> s' = snd (remove_file F src s) \<and>
        r = (case fst (remove_file F src s) of Inl _ \<Rightarrow> None | Inr _ \<Rightarrow> Some src))"
proof -
  obtain r1 m1 s1 where rm: "atomic_link_remove F src m s = (r1, m1, s1)" by (metis prod_cases3)
  note spec = atomic_link_remove_spec [OF assms(1,2) rm]
  show ?thesis
  proof (cases "links m src")
    case None
    then have "r1 = None" "m1 = m" "s1 = s" using rm by (simp_all add: atomic_link_remove_def)
    with None assms(1,3) rm show ?thesis
      by (cases "remove_file F src s") (auto simp: remove_link_def split: sum.splits)
  next
    case (Some dst)
    with spec have sp: "r1 = Some dst" "link_inv m1" "links m1 = (links m)(src := None)"
      "s1 = (if referrers m dst = {src} then snd (remove_file F dst s) else s)" by simp_all
    then have "r = Some dst" "m' = m1" "s' = s1"
      using assms(3) rm by (simp_all add: remove_link_def)
    then show ?thesis using Some sp by simp
  qed
qed

lemma link_op_run_inv:
  assumes "link_inv (fst st)" "card (dom (links (fst st))) < 2 ^ 64"
  shows "link_inv (fst (link_op_run F op st)) \<and>
    card (dom (links (fst (link_op_run F op st)))) \<le> Suc (card (dom (links (fst st))))"
proof -
  obtain m s where st: "st = (m, s)" by fastforce
  have fin: "finite (dom (links m))" using assms(1) by (simp add: st link_inv_def)
  show ?thesis
  proof (cases op)
    case (CreateLink src dst)
    obtain m' s' where up: "atomic_link_update F src dst m s = (m', s')" by fastforce
    then show ?thesis
      using atomic_link_update_spec [OF _ _ up] assms fin
      by (auto simp: st CreateLink create_link_def card_insert_if)
  next
    case (RemoveLink src)
    obtain r m' s' where rm: "remove_link F src m s = (r, m', s')" by (metis prod_cases3)
    then show ?thesis
      using remove_link_cases [OF _ _ rm] assms fin card_Diff1_le [of "dom (links m)" src]
      by (auto simp: st RemoveLink split: option.splits)
  next
    case (FsChange f)
    then show ?thesis using assms by (simp add: st)
  qed
qed

lemma link_ops_run_inv:
  assumes "link_inv (fst st)" "card (dom (links (fst st))) + length ops < 2 ^ 64"
  shows "link_inv (fst (link_ops_run F ops st)) \<and>
    card (dom (links (fst (link_ops_run F ops st)))) \<le> card (dom (links (fst st))) + length ops"
  using assms
proof (induction ops arbitrary: st)
  case (Cons op ops)
  have step: "link_inv (fst (link_op_run F op st)) \<and>
    card (dom (links (fst (link_op_run F op st)))) \<le> Suc (card (dom (links (fst st))))"
    using Cons.prems by (intro link_op_run_inv) simp_all
  then show ?case using Cons.IH [of "link_op_run F op st"] Cons.prems by (simp add: link_ops_run_def)
qed (simp add: link_ops_run_def)

text \<open>
  C15. Whatever sequence of fewer than \<open>2 ^ 64\<close> link creations and removals is run, and however
  the file system changes in between, the reference counter of a path is exactly the number of
  link names that point at it, and a path has a counter only if some link points at it; so the
  branch \<^verbatim>\<open>link exists but ref count is zero\<close> is dead and no counter wraps.
\<close>

theorem hardlink_ref_counts:
  assumes "length ops < 2 ^ 64"
    and "fst (link_ops_run F ops (HardlinkManager_new, s)) = m"
  shows "ref_counts m p =
      (if referrers m p = {} then None else Some (of_nat (card (referrers m p)))) \<and>
    finite (referrers m p) \<and> card (referrers m p) < 2 ^ 64"
proof -
  have "link_inv HardlinkManager_new"
    by (simp add: link_inv_def HardlinkManager_new_def count_of_def referrers_def)
  then have inv: "link_inv m" "card (dom (links m)) \<le> length ops"
    using link_ops_run_inv [of "(HardlinkManager_new, s)" ops F] assms
    by (simp_all add: HardlinkManager_new_def)
  then show ?thesis
    using assms(1) card_referrers_le [OF inv(1), of p] finite_referrers [OF inv(1), of p]
    by (simp add: link_inv_def count_of_def)
qed

theorem hardlink_ref_counts_witness:
  "\<exists>m. fst (link_ops_run plain_ops [FsChange (\<lambda>s. s\<lparr>pf_names := [lit ''/d/'']\<rparr>),
        CreateLink (lit ''/x'') (lit ''/d/''), CreateLink (lit ''/y'') (lit ''/d/'')]
      (HardlinkManager_new, \<lparr>pf_cwd = lit ''/'', pf_names = []\<rparr>)) = m
    \<and> links m (lit ''/x'') = Some (lit ''/d/'')
    \<and> ref_counts m (lit ''/d/'') = Some (of_nat (card (referrers m (lit ''/d/''))))"
proof -
  let ?ops = "[FsChange (\<lambda>s. s\<lparr>pf_names := [lit ''/d/'']\<rparr>),
        CreateLink (lit ''/x'') (lit ''/d/''), CreateLink (lit ''/y'') (lit ''/d/'')]"
  let ?m = "fst (link_ops_run plain_ops ?ops (HardlinkManager_new, \<lparr>pf_cwd = lit ''/'', pf_names = []\<rparr>))"
  have x: "links ?m (lit ''/x'') = Some (lit ''/d/'')"
    by code_simp
  then have "referrers ?m (lit ''/d/'') \<noteq> {}" by (auto simp: referrers_def)
  then show ?thesis
    using hardlink_ref_counts [of ?ops plain_ops "\<lparr>pf_cwd = lit ''/'', pf_names = []\<rparr>" ?m "lit ''/d/''"] x
    by simp
qed



end
