(* ===== verification/Names.thy ===== *)
theory Names
  imports Paths
begin

text \<open>
  The system calls on file names of \<^verbatim>\<open>api/src/imp/fs/ctl.rs\<close> and the mount table of
  \<^verbatim>\<open>api/src/imp/fs/mount.rs\<close>.
\<close>

section \<open>System calls on names\<close>

text \<open>
  A call takes the text \<^verbatim>\<open>get_as_str\<close> gives for each name (or its error) and runs on the link
  table and the file system.
\<close>

type_synonym 's names = "LinkManagerInner \<times> 's"

definition with_path ::
  "('s, 't) fs_env \<Rightarrow> c_int \<Rightarrow> str \<Rightarrow> 's names \<Rightarrow>
   (FilePath \<Rightarrow> ('a LinuxResult, 's names) call) \<Rightarrow> ('a LinuxResult, 's names) call" where
  "with_path E dirfd path st k =
     (case handle_file_path E dirfd path (fst st) (snd st) of
        None \<Rightarrow> Panic
      | Some (Inl e) \<Rightarrow> Done (Inl e) st
      | Some (Inr p) \<Rightarrow> k p)"

definition fs_call ::
  "('s, 't) fs_env \<Rightarrow> ('s \<Rightarrow> unit AxResult \<times> 's) \<Rightarrow> 's names \<Rightarrow> (isize LinuxResult, 's names) call" where
  "fs_call E f st =
     (case f (snd st) of (r, s') \<Rightarrow>
        Done (case r of Inl e \<Rightarrow> Inl (ax_into (env_fs E) e) | Inr _ \<Rightarrow> Inr 0) (fst st, s'))"

definition sys_ioctl :: "i32 \<Rightarrow> usize \<Rightarrow> usize \<Rightarrow> isize LinuxResult" where
  "sys_ioctl fd op argp = Inr 0"

definition sys_chdir ::
  "('s, 't) fs_env \<Rightarrow> str LinuxResult \<Rightarrow> 's names \<Rightarrow> (isize LinuxResult, 's names) call" where
  "sys_chdir E path st =
     (case path of
        Inl e \<Rightarrow> Done (Inl e) st
      | Inr path \<Rightarrow> fs_call E (set_current_dir (env_fs E) path) st)"

definition sys_mkdirat ::
  "('s, 't) fs_env \<Rightarrow> i32 \<Rightarrow> str LinuxResult \<Rightarrow> u32 \<Rightarrow> 's names \<Rightarrow> (isize LinuxResult, 's names) call" where
  "sys_mkdirat E dirfd path mode st =
     (case path of
        Inl e \<Rightarrow> Done (Inl e) st
      | Inr path \<Rightarrow> with_path E dirfd path st (\<lambda>p. fs_call E (create_dir (env_fs E) p) st))"

definition sys_linkat ::
  "('s, 't) fs_env \<Rightarrow> c_int \<Rightarrow> str LinuxResult \<Rightarrow> c_int \<Rightarrow> str LinuxResult \<Rightarrow> i32 \<Rightarrow> 's names \<Rightarrow>
   (isize LinuxResult, 's names) call" where
  "sys_linkat E old_dirfd old_path new_dirfd new_path flags st =
     (case try_then old_path (\<lambda>o'. try_then new_path (\<lambda>n'. Inr (o', n'))) of
        Inl e \<Rightarrow> Done (Inl e) st
      | Inr (old_path, new_path) \<Rightarrow>
          with_path E old_dirfd old_path st (\<lambda>old_path.
          with_path E new_dirfd new_path st (\<lambda>new_path.
          case create_link (env_fs E) new_path old_path (fst st) (snd st) of
            (Inl e, st') \<Rightarrow> Done (Inl (LinkError_to_LinuxError (env_fs E) e)) st'
          | (Inr _, st') \<Rightarrow> Done (Inr 0) st')))"

definition sys_link ::
  "('s, 't) fs_env \<Rightarrow> str LinuxResult \<Rightarrow> str LinuxResult \<Rightarrow> 's names \<Rightarrow>
   (isize LinuxResult, 's names) call" where
  "sys_link E old_path new_path st =
     sys_linkat E (AT_FDCWD (env_at E)) old_path (AT_FDCWD (env_at E)) new_path 0 st"

definition sys_unlinkat ::
  "('s, 't) fs_env \<Rightarrow> c_int \<Rightarrow> str LinuxResult \<Rightarrow> u32 \<Rightarrow> 's names \<Rightarrow> (isize LinuxResult, 's names) call" where
  "sys_unlinkat E dirfd path flags st =
     (case path of
        Inl e \<Rightarrow> Done (Inl e) st
      | Inr path \<Rightarrow> with_path E dirfd path st (\<lambda>path.
          if flags = AT_REMOVEDIR (env_at E) then fs_call E (remove_dir (env_fs E) path) st
          else case metadata_is_dir (env_fs E) (snd st) path of
            Inl e \<Rightarrow> Done (Inl (ax_into (env_fs E) e)) st
          | Inr True \<Rightarrow> Done (Inl EISDIR) st
          | Inr False \<Rightarrow>
              (case remove_link (env_fs E) path (fst st) (snd st) of
                 (None, st') \<Rightarrow> Done (Inl ENOENT) st'
               | (Some _, st') \<Rightarrow> Done (Inr 0) st')))"

definition sys_unlink ::
  "('s, 't) fs_env \<Rightarrow> str LinuxResult \<Rightarrow> 's names \<Rightarrow> (isize LinuxResult, 's names) call" where
  "sys_unlink E path st = sys_unlinkat E (AT_FDCWD (env_at E)) path 0 st"

text \<open>
  \<^verbatim>\<open>sys_getcwd\<close>: \<open>buf\<close> is \<^verbatim>\<open>nullable!(buf.get_as_mut_slice(size))\<close>, the address and length of the
  user buffer; the bytes stored in it are part of the result. \<^verbatim>\<open>CString::new\<close> refuses an inner
  zero byte, and \<open>utf8\<close> is the encoding of a Rust string.
\<close>

definition utf8_char :: "nat \<Rightarrow> u8 list" where
  "utf8_char c =
     (if c < 128 then [of_nat c]
      else if c < 2048 then [of_nat (192 + c div 64), of_nat (128 + c mod 64)]
      else if c < 65536 then
        [of_nat (224 + c div 4096), of_nat (128 + c div 64 mod 64), of_nat (128 + c mod 64)]
      else [of_nat (240 + c div 262144), of_nat (128 + c div 4096 mod 64),
            of_nat (128 + c div 64 mod 64), of_nat (128 + c mod 64)])"

definition utf8 :: "str \<Rightarrow> u8 list" where
  "utf8 s = concat (map utf8_char s)"

definition sys_getcwd ::
  "('s, 't) fs_env \<Rightarrow> (usize \<times> nat) option LinuxResult \<Rightarrow> 's \<Rightarrow> isize LinuxResult \<times> u8 list option" where
  "sys_getcwd E buf s =
     (case buf of
        Inl e \<Rightarrow> (Inl e, None)
      | Inr None \<Rightarrow> (Inr 0, None)
      | Inr (Some (addr, len)) \<Rightarrow>
          (case current_dir (env_fs E) s of
             Inl e \<Rightarrow> (Inl (ax_into (env_fs E) e), None)
           | Inr dir \<Rightarrow>
               if 0 \<in> set (utf8 dir) then (Inl EINVAL, None)
               else let cwd = utf8 dir @ [0]
               in if length cwd \<le> len then (Inr addr, Some cwd) else (Inl ERANGE, None)))"

section \<open>Mounts\<close>

record MountedFs =
  device :: FilePath
  mnt_dir :: FilePath

definition MountedFs_new :: "FilePath \<Rightarrow> FilePath \<Rightarrow> MountedFs" where
  "MountedFs_new device_path mount_path = \<lparr>device = device_path, mnt_dir = mount_path\<rparr>"

definition check_mounted :: "FilePath \<Rightarrow> MountedFs list \<Rightarrow> bool" where
  "check_mounted path mounted = list_ex (\<lambda>m. FilePath_starts_with path (mnt_dir m)) mounted"

definition mount_fat_fs ::
  "'s axfs_ops \<Rightarrow> 's \<Rightarrow> FilePath \<Rightarrow> FilePath \<Rightarrow> MountedFs list \<Rightarrow> bool \<times> MountedFs list" where
  "mount_fat_fs F s device_path mount_path mounted =
     (if path_exists F s mount_path then (True, mounted @ [MountedFs_new device_path mount_path])
      else (False, mounted))"

definition umount_fat_fs :: "FilePath \<Rightarrow> MountedFs list \<Rightarrow> bool \<times> MountedFs list" where
  "umount_fat_fs mount_path mounted =
     (let mounted' = filter (\<lambda>m. mnt_dir m \<noteq> mount_path) mounted
      in (length mounted' < length mounted, mounted'))"

definition sys_mount ::
  "('s, 't) fs_env \<Rightarrow> 's names \<Rightarrow> str LinuxResult \<Rightarrow> str LinuxResult \<Rightarrow> str LinuxResult \<Rightarrow> i32 \<Rightarrow>
   MountedFs list \<Rightarrow> (isize LinuxResult \<times> MountedFs list) option" where
  "sys_mount E st source target fs_type flags mounted =
     (case try_then source (\<lambda>a. try_then target (\<lambda>b. try_then fs_type (\<lambda>c. Inr (a, b, c)))) of
        Inl e \<Rightarrow> Some (Inl e, mounted)
      | Inr (source, target, fs_type) \<Rightarrow>
          (case handle_file_path E (AT_FDCWD (env_at E)) source (fst st) (snd st) of
             None \<Rightarrow> None
           | Some (Inl e) \<Rightarrow> Some (Inl e, mounted)
           | Some (Inr device_path) \<Rightarrow>
               (case handle_file_path E (AT_FDCWD (env_at E)) target (fst st) (snd st) of
                  None \<Rightarrow> None
                | Some (Inl e) \<Rightarrow> Some (Inl e, mounted)
                | Some (Inr mount_path) \<Rightarrow> Some
                    (if fs_type \<noteq> lit ''vfat'' then (Inl EPERM, mounted)
                     else if \<not> path_exists (env_fs E) (snd st) mount_path then (Inl EPERM, mounted)
                     else if check_mounted mount_path mounted then (Inl EPERM, mounted)
                     else case mount_fat_fs (env_fs E) (snd st) device_path mount_path mounted of
                       (False, mounted') \<Rightarrow> (Inl EPERM, mounted')
                     | (True, mounted') \<Rightarrow> (Inr 0, mounted')))))"

definition sys_umount2 ::
  "('s, 't) fs_env \<Rightarrow> 's names \<Rightarrow> str LinuxResult \<Rightarrow> i32 \<Rightarrow>
   MountedFs list \<Rightarrow> (isize LinuxResult \<times> MountedFs list) option" where
  "sys_umount2 E st target flags mounted =
     (case target of
        Inl e \<Rightarrow> Some (Inl e, mounted)
      | Inr target \<Rightarrow>
          (case handle_file_path E (AT_FDCWD (env_at E)) target (fst st) (snd st) of
             None \<Rightarrow> None
           | Some (Inl e) \<Rightarrow> Some (Inl e, mounted)
           | Some (Inr mount_path) \<Rightarrow> Some
               (if flags \<noteq> 0 then (Inl EPERM, mounted)
                else if \<not> path_exists (env_fs E) (snd st) mount_path then (Inl EPERM, mounted)
                else case umount_fat_fs mount_path mounted of
                  (False, mounted') \<Rightarrow> (Inl EPERM, mounted')
                | (True, mounted') \<Rightarrow> (Inr 0, mounted'))))"

section \<open>Properties\<close>





definition mount_inv :: "MountedFs list \<Rightarrow> bool" where
  "mount_inv mounted \<longleftrightarrow>
     sorted_wrt (\<lambda>a b. \<not> FilePath_starts_with (mnt_dir b) (mnt_dir a)) mounted"

lemma starts_with_refl [simp]: "FilePath_starts_with p p"
  by (simp add: FilePath_starts_with_def)

text \<open>A mount that succeeds, with the path its target resolves to.\<close>

lemma sys_mount_success:
  assumes "sys_mount E st source (Inr target) fs_type flags mounted = Some (Inr v, mounted')"
  obtains d where
    "handle_file_path E (AT_FDCWD (env_at E)) target (fst st) (snd st) = Some (Inr (mnt_dir d))"
    "path_exists (env_fs E) (snd st) (mnt_dir d)" "\<not> check_mounted (mnt_dir d) mounted"
    "mounted' = mounted @ [d]" "v = 0"
proof -
  obtain dev where "mounted' = mounted @ [MountedFs_new (fst dev) (snd dev)]" "v = 0"
    "handle_file_path E (AT_FDCWD (env_at E)) target (fst st) (snd st) = Some (Inr (snd dev))"
    "path_exists (env_fs E) (snd st) (snd dev)" "\<not> check_mounted (snd dev) mounted"
    using assms by (auto simp: sys_mount_def mount_fat_fs_def try_then_def
        split: sum.splits option.splits if_splits prod.splits)
  then show ?thesis
    by (intro that [of "MountedFs_new (fst dev) (snd dev)"]) (simp_all add: MountedFs_new_def)
qed

lemma not_mounted_filter:
  assumes "\<not> check_mounted p mounted"
  shows "filter (\<lambda>m. mnt_dir m \<noteq> p) mounted = mounted"
  using assms by (auto simp: check_mounted_def list_ex_iff intro!: filter_True)

text \<open>
  C19. A successful \<^verbatim>\<open>sys_mount\<close> appends one entry to the mount table and keeps the invariant that
  no mount point lies at or below one mounted earlier. Mounting again at the same target fails
  with \<^verbatim>\<open>EPERM\<close> and changes nothing, and unmounting the target succeeds and restores the table.
\<close>

theorem mount_umount_round_trip:
  assumes "mount_inv mounted"
    and "sys_mount E st source (Inr target) fs_type flags mounted = Some (Inr v, mounted')"
  shows "mount_inv mounted' \<and> (\<exists>d. mounted' = mounted @ [d])
    \<and> sys_mount E st source (Inr target) fs_type flags mounted' = Some (Inl EPERM, mounted')
    \<and> sys_umount2 E st (Inr target) 0 mounted' = Some (Inr 0, mounted)"
proof -
  obtain d where d:
    "handle_file_path E (AT_FDCWD (env_at E)) target (fst st) (snd st) = Some (Inr (mnt_dir d))"
    "path_exists (env_fs E) (snd st) (mnt_dir d)" "\<not> check_mounted (mnt_dir d) mounted"
    "mounted' = mounted @ [d]"
    using sys_mount_success [OF assms(2)] by metis
  have "mount_inv mounted'"
    using assms(1) d(3) by (auto simp: d(4) mount_inv_def sorted_wrt_append check_mounted_def list_ex_iff)
  moreover have "check_mounted (mnt_dir d) mounted'"
    by (simp add: d(4) check_mounted_def)
  then have "sys_mount E st source (Inr target) fs_type flags mounted' = Some (Inl EPERM, mounted')"
    using assms(2) d(1,2) by (auto simp: sys_mount_def try_then_def
        split: sum.splits option.splits if_splits)
  moreover have "umount_fat_fs (mnt_dir d) mounted' = (True, mounted)"
    using not_mounted_filter [OF d(3)] by (simp add: d(4) umount_fat_fs_def)
  then have "sys_umount2 E st (Inr target) 0 mounted' = Some (Inr 0, mounted)"
    using d(1,2) by (simp add: sys_umount2_def)
  ultimately show ?thesis using d(4) by blast
qed

theorem mount_umount_round_trip_witness:
  "sys_umount2 plain_env (HardlinkManager_new, \<lparr>pf_cwd = lit ''/'', pf_names = [lit ''/m'']\<rparr>)
     (Inr (lit ''/m'')) 0 [\<lparr>device = lit ''/dev'', mnt_dir = lit ''/m''\<rparr>] = Some (Inr 0, [])"
proof -
  have "sys_mount plain_env (HardlinkManager_new, \<lparr>pf_cwd = lit ''/'', pf_names = [lit ''/m'']\<rparr>)
     (Inr (lit ''/dev'')) (Inr (lit ''/m'')) (Inr (lit ''vfat'')) 0 [] =
     Some (Inr 0, [\<lparr>device = lit ''/dev'', mnt_dir = lit ''/m''\<rparr>])"
    by (simp add: plain_eval sys_mount_def path_exists_def check_mounted_def mount_fat_fs_def
        MountedFs_new_def)
  from mount_umount_round_trip [OF _ this] show ?thesis by (simp add: mount_inv_def)
qed

text \<open>The prefix test is textual: a file system on \<^verbatim>\<open>/mnt\<close> blocks a mount on \<^verbatim>\<open>/mnt2\<close>.\<close>

lemma mount_sibling_refused:
  "sys_mount plain_env (HardlinkManager_new, \<lparr>pf_cwd = lit ''/'', pf_names = [lit ''/mnt'', lit ''/mnt2'']\<rparr>)
     (Inr (lit ''/dev'')) (Inr (lit ''/mnt2'')) (Inr (lit ''vfat'')) 0
     [\<lparr>device = lit ''/dev'', mnt_dir = lit ''/mnt''\<rparr>] =
   Some (Inl EPERM, [\<lparr>device = lit ''/dev'', mnt_dir = lit ''/mnt''\<rparr>])"
  by (simp add: plain_eval sys_mount_def path_exists_def check_mounted_def FilePath_starts_with_def)

text \<open>Trailing white space is dropped from a name: \<^verbatim>\<open>"/a "\<close> stands for the file \<^verbatim>\<open>/a\<close>.\<close>

lemma trailing_space_lost:
  "handle_file_path plain_env 0 (lit ''/a '') HardlinkManager_new \<lparr>pf_cwd = lit ''/'', pf_names = []\<rparr> =
   Some (Inr (lit ''/a''))"
  by (simp add: plain_eval sys_mount_def path_exists_def check_mounted_def FilePath_starts_with_def)

end
