(* ===== verification/Dirents.thy ===== *)
theory Dirents
  imports Bytes Fd_Table
begin

text \<open>
  Reading directories: \<^verbatim>\<open>DirBuffer\<close> and \<^verbatim>\<open>sys_getdents64\<close> of \<^verbatim>\<open>api/src/imp/fs/ctl.rs\<close>, with the
  entry that \<^verbatim>\<open>Directory\<close> (\<^verbatim>\<open>api/src/file/fs.rs\<close>) keeps when it did not fit.

  The records are the \<^verbatim>\<open>struct linux_dirent64\<close> of the kernel's user interface, laid out by the C
  rules: an inode number and an offset of 8 bytes, a record length of 2, a type of 1, and the name
  from byte 19 on, aligned to 8. The position in a directory is kept by \<^verbatim>\<open>axfs\<close>: \<open>read_dir\<close> is a
  parameter that returns the next entry, \<open>None\<close> at the end.
\<close>

section \<open>Entries\<close>

record DirEntry =
  ent_is_dir :: bool
  ent_is_file :: bool
  ent_name :: "u8 list"

datatype FileType = Unknown | Fifo | Chr | Dir | Blk | Reg | Lnk | Socket

text \<open>The codes \<^verbatim>\<open>DT_*\<close> of \<^verbatim>\<open>linux_raw_sys\<close>.\<close>

type_synonym dt_abi = "FileType \<Rightarrow> u8"

definition FileType_from :: "DirEntry \<Rightarrow> FileType" where
  "FileType_from ent = (if ent_is_dir ent then Dir else if ent_is_file ent then Reg else Unknown)"

section \<open>The buffer\<close>

record DirBuffer =
  db_buf :: "u8 list"
  db_offset :: nat

definition DirBuffer_new :: "u8 list \<Rightarrow> DirBuffer" where
  "DirBuffer_new buf = \<lparr>db_buf = buf, db_offset = 0\<rparr>"

definition remaining_space :: "DirBuffer \<Rightarrow> nat" where
  "remaining_space b = length (db_buf b) - db_offset b"

definition next_multiple_of :: "nat \<Rightarrow> nat \<Rightarrow> nat" where
  "next_multiple_of x k = (x + (k - 1)) div k * k"

definition NAME_OFFSET :: nat where
  "NAME_OFFSET = 19"

text \<open>The first 19 bytes of a record; \<^verbatim>\<open>d_reclen\<close> keeps the low 16 bits of the length.\<close>

definition dirent_header :: "nat \<Rightarrow> u8 \<Rightarrow> u8 list" where
  "dirent_header len d_type = le_bytes 8 1 @ le_bytes 8 0 @ le_bytes 2 len @ [d_type]"

text \<open>
  \<^verbatim>\<open>write_entry\<close> stores the structure, then the name over its end, then a zero byte. \<open>pad\<close> is what
  storing the structure leaves in its 5 padding bytes, which Rust does not specify.
\<close>

definition write_entry :: "(nat \<Rightarrow> u8) \<Rightarrow> u8 \<Rightarrow> u8 list \<Rightarrow> DirBuffer \<Rightarrow> bool \<times> DirBuffer" where
  "write_entry pad d_type name b =
     (let len = next_multiple_of (NAME_OFFSET + length name + 1) 8
      in if remaining_space b < len then (False, b)
      else
        let entry = db_offset b;
            buf1 = overwrite (db_buf b) entry (dirent_header len d_type @ map pad [0..<5]);
            buf2 = overwrite buf1 (entry + NAME_OFFSET) name;
            buf3 = overwrite buf2 (entry + NAME_OFFSET + length name) [0]
        in (True, \<lparr>db_buf = buf3, db_offset = db_offset b + len\<rparr>))"

definition dirent_len :: "u8 list \<Rightarrow> nat" where
  "dirent_len name = next_multiple_of (NAME_OFFSET + length name + 1) 8"

lemma dirent_len_bounds:
  "20 + length name \<le> dirent_len name" "dirent_len name < 28 + length name" "24 \<le> dirent_len name"
proof -
  show "20 + length name \<le> dirent_len name" "dirent_len name < 28 + length name"
    unfolding dirent_len_def next_multiple_of_def NAME_OFFSET_def by linarith+
  have "3 \<le> (27 + length name) div 8" using div_le_mono [of 27 "27 + length name" 8] by simp
  then show "24 \<le> dirent_len name"
    by (simp add: dirent_len_def next_multiple_of_def NAME_OFFSET_def)
qed

lemma length_dirent_header [simp]: "length (dirent_header len d_type) = 19"
  by (simp add: dirent_header_def)

lemma write_entry_unfold:
  "write_entry pad d_type name b =
     (if remaining_space b < dirent_len name then (False, b)
      else (True, \<lparr>db_buf = overwrite (overwrite (overwrite (db_buf b) (db_offset b)
              (dirent_header (dirent_len name) d_type @ map pad [0..<5]))
              (db_offset b + NAME_OFFSET) name) (db_offset b + NAME_OFFSET + length name) [0],
            db_offset = db_offset b + dirent_len name\<rparr>))"
  unfolding write_entry_def dirent_len_def Let_def ..

text \<open>What a successful \<^verbatim>\<open>write_entry\<close> does to the bytes of the buffer.\<close>

lemma write_entry_bytes:
  assumes "write_entry pad d_type name b = (True, b')"
  obtains tail where
    "db_buf b' = take (db_offset b) (db_buf b) @
       (dirent_header (dirent_len name) d_type @ name @ 0 # tail) @
       drop (db_offset b + dirent_len name) (db_buf b)"
    "length (dirent_header (dirent_len name) d_type @ name @ 0 # tail) = dirent_len name"
    "db_offset b' = db_offset b + dirent_len name"
    "db_offset b + dirent_len name \<le> length (db_buf b)"
proof -
  let ?n = "dirent_len name" and ?off = "db_offset b" and ?h = "dirent_header (dirent_len name) d_type"
  have fits: "?off + ?n \<le> length (db_buf b)" and b': "db_offset b' = ?off + ?n"
    using assms dirent_len_bounds(3) [of name]
    by (auto simp: write_entry_unfold remaining_space_def split: if_splits)
  define old where "old = take ?n (drop ?off (db_buf b))"
  have len: "length old = ?n" using fits by (simp add: old_def)
  have buf: "db_buf b = take ?off (db_buf b) @ old @ drop (?off + ?n) (db_buf b)"
    by (simp add: old_def) (metis append_take_drop_id drop_drop add.commute)
  define q where "q = map pad [0..<5] @ drop 24 old"
  have off: "length (take ?off (db_buf b)) = ?off" using fits by simp
  note mid = overwrite_middle [of _ _ _ "take ?off (db_buf b)", unfolded off]
  have "overwrite (db_buf b) ?off (?h @ map pad [0..<5]) =
      take ?off (db_buf b) @ (?h @ q) @ drop (?off + ?n) (db_buf b)"
    using mid [of 0 "?h @ map pad [0..<5]" old "drop (?off + ?n) (db_buf b)"] len
      dirent_len_bounds(3) [of name]
    by (simp add: buf [symmetric] overwrite_def q_def)
  moreover have q: "length q = ?n - 19" "length name < length q"
    using len dirent_len_bounds [of name] by (simp_all add: q_def)
  have "overwrite (take ?off (db_buf b) @ (?h @ q) @ drop (?off + ?n) (db_buf b)) (?off + NAME_OFFSET) name =
      take ?off (db_buf b) @ (?h @ name @ drop (length name) q) @ drop (?off + ?n) (db_buf b)"
    using mid [of NAME_OFFSET name "?h @ q"] q by (simp add: NAME_OFFSET_def overwrite_after)
  moreover have "overwrite (take ?off (db_buf b) @ (?h @ name @ drop (length name) q) @ drop (?off + ?n) (db_buf b))
        (?off + NAME_OFFSET + length name) [0] =
      take ?off (db_buf b) @ (?h @ name @ 0 # drop (Suc (length name)) q) @ drop (?off + ?n) (db_buf b)"
    using mid [of "NAME_OFFSET + length name" "[0]" "?h @ name @ drop (length name) q"] q
      overwrite_after [of "?h @ name" "19 + length name" "drop (length name) q" "[0]"]
    by (simp add: NAME_OFFSET_def add.assoc)
  ultimately have "db_buf b' = take ?off (db_buf b) @
      (?h @ name @ 0 # drop (Suc (length name)) q) @ drop (?off + ?n) (db_buf b)"
    using assms by (auto simp: write_entry_unfold split: if_splits)
  moreover have "length (?h @ name @ 0 # drop (Suc (length name)) q) = ?n"
    using q dirent_len_bounds [of name] by (simp add: length_drop)
  ultimately show ?thesis using b' fits by (intro that)
qed

lemma write_entry_remaining:
  assumes "write_entry pad d_type name b = (True, b')"
  shows "remaining_space b' < remaining_space b"
proof -
  obtain tail where w: "db_buf b' = take (db_offset b) (db_buf b) @
       (dirent_header (dirent_len name) d_type @ name @ 0 # tail) @
       drop (db_offset b + dirent_len name) (db_buf b)"
    "length (dirent_header (dirent_len name) d_type @ name @ 0 # tail) = dirent_len name"
    "db_offset b' = db_offset b + dirent_len name"
    "db_offset b + dirent_len name \<le> length (db_buf b)"
    using write_entry_bytes [OF assms] .
  have "length (db_buf b') = length (db_buf b)" using w(2,4) by (simp add: w(1))
  with w(3,4) show ?thesis using dirent_len_bounds(3) [of name] by (simp add: remaining_space_def)
qed

section \<open>The system call\<close>

record 's Directory =
  dir_inner :: 's
  dir_last :: "DirEntry option"

type_synonym 's read_dir = "'s \<Rightarrow> DirEntry option AxResult \<times> 's"

text \<open>
  The loop of \<^verbatim>\<open>sys_getdents64\<close>: its result is the error of \<^verbatim>\<open>read_dir\<close> or the entry that did not
  fit. Every turn but the last takes at least 24 bytes of the buffer.
\<close>

function getdents_loop ::
  "dt_abi \<Rightarrow> (nat \<Rightarrow> u8) \<Rightarrow> 's read_dir \<Rightarrow> DirBuffer \<Rightarrow> 's \<Rightarrow>
   DirEntry option AxResult \<times> DirBuffer \<times> 's" where
  "getdents_loop K pad read_dir b s =
     (case read_dir s of
        (Inl e, s') \<Rightarrow> (Inl e, b, s')
      | (Inr None, s') \<Rightarrow> (Inr None, b, s')
      | (Inr (Some ent), s') \<Rightarrow>
          (case write_entry pad (K (FileType_from ent)) (ent_name ent) b of
             (False, b') \<Rightarrow> (Inr (Some ent), b', s')
           | (True, b') \<Rightarrow> getdents_loop K pad read_dir b' s'))"
  by pat_completeness auto

termination
  by (relation "measure (\<lambda>(K, pad, read_dir, b, s). remaining_space b)")
    (auto dest: sym [THEN write_entry_remaining])

declare getdents_loop.simps [simp del]

text \<open>
  \<open>into\<close> converts an \<^verbatim>\<open>AxError\<close>; \<open>buf\<close> is what \<^verbatim>\<open>get_as_mut_slice\<close> gives and \<open>dir\<close> what
  \<^verbatim>\<open>Directory::from_fd\<close> finds. The call returns the bytes of the buffer and the directory.
\<close>

definition sys_getdents64 ::
  "dt_abi \<Rightarrow> (nat \<Rightarrow> u8) \<Rightarrow> (AxError \<Rightarrow> LinuxError) \<Rightarrow> 's read_dir \<Rightarrow>
   u8 list LinuxResult \<Rightarrow> unit LinuxResult \<Rightarrow> 's Directory \<Rightarrow>
   isize LinuxResult \<times> u8 list option \<times> 's Directory" where
  "sys_getdents64 K pad into read_dir buf from_fd dir =
     (case buf of
        Inl e \<Rightarrow> (Inl e, None, dir)
      | Inr buf \<Rightarrow>
          let buffer = DirBuffer_new buf
          in case from_fd of
            Inl e \<Rightarrow> (Inl e, Some buf, dir)
          | Inr _ \<Rightarrow>
              (case (case dir_last dir of
                       None \<Rightarrow> (True, buffer)
                     | Some ent \<Rightarrow>
                         write_entry pad (K (FileType_from ent)) (ent_name ent) buffer) of
                 (False, buffer) \<Rightarrow> (Inl EINVAL, Some (db_buf buffer), dir)
               | (True, buffer) \<Rightarrow>
                   (case getdents_loop K pad read_dir buffer (dir_inner dir) of
                      (Inl e, buffer, inner) \<Rightarrow>
                        (Inl (into e), Some (db_buf buffer), \<lparr>dir_inner = inner, dir_last = None\<rparr>)
                    | (Inr last_dirent, buffer, inner) \<Rightarrow>
                        let dir' = \<lparr>dir_inner = inner, dir_last = last_dirent\<rparr>
                        in if last_dirent \<noteq> None \<and> db_offset buffer = 0
                           then (Inl EINVAL, Some (db_buf buffer), dir')
                           else (Inr (of_nat (db_offset buffer)), Some (db_buf buffer), dir'))))"

section \<open>What a program reads\<close>

text \<open>Walking the records of a filled buffer, as a user program does with \<^verbatim>\<open>d_reclen\<close>.\<close>

function parse_dirents :: "u8 list \<Rightarrow> (u8 \<times> u8 list) list" where
  "parse_dirents bs =
     (let len = le_nat (take 2 (drop 16 bs))
      in if length bs < 24 \<or> len < 24 then []
         else (bs ! 18, takeWhile (\<lambda>c. c \<noteq> 0) (drop 19 bs)) # parse_dirents (drop len bs))"
  by pat_completeness auto

termination
  by (relation "measure length") auto

declare parse_dirents.simps [simp del]

definition dirent_view :: "dt_abi \<Rightarrow> DirEntry \<Rightarrow> u8 \<times> u8 list" where
  "dirent_view K ent = (K (FileType_from ent), ent_name ent)"

text \<open>A name as file systems have it: no zero byte, and a record length that fits 16 bits.\<close>

definition ent_ok :: "DirEntry \<Rightarrow> bool" where
  "ent_ok ent \<longleftrightarrow> 0 \<notin> set (ent_name ent) \<and> length (ent_name ent) < 65500"

lemma parse_dirents_record:
  assumes "0 \<notin> set name" "length name < 65500"
    and "length (dirent_header (dirent_len name) d_type @ name @ 0 # tail) = dirent_len name"
  shows "parse_dirents ((dirent_header (dirent_len name) d_type @ name @ 0 # tail) @ rest) =
    (d_type, name) # parse_dirents rest"
proof -
  let ?h = "dirent_header (dirent_len name) d_type"
  let ?r = "(?h @ name @ 0 # tail) @ rest"
  have "take 2 (drop 16 ?h) = le_bytes 2 (dirent_len name)"
    by (simp add: dirent_header_def)
  then have len: "le_nat (take 2 (drop 16 ?r)) = dirent_len name"
    using dirent_len_bounds(2) [of name] assms(2) by simp
  have "?h ! 18 = d_type" by (simp add: dirent_header_def nth_append)
  then have ty: "?r ! 18 = d_type" by (simp add: nth_append)
  have "takeWhile (\<lambda>c. c \<noteq> 0) (drop 19 ?r) = name"
    using assms(1) by (simp add: takeWhile_append2) (metis (mono_tags, lifting) append_Nil2 takeWhile.simps takeWhile_append2)
  moreover have "drop (dirent_len name) ?r = rest"
    using assms(3) by (metis append_eq_conv_conj)
  moreover have "24 \<le> length ?r"
    using assms(3) dirent_len_bounds(3) [of name] by simp
  ultimately show ?thesis
    using len ty dirent_len_bounds(3) [of name] by (subst parse_dirents.simps) (simp add: Let_def)
qed

text \<open>The buffer holds exactly the records of \<open>es\<close>, whatever bytes follow them.\<close>

definition filled :: "dt_abi \<Rightarrow> DirBuffer \<Rightarrow> DirEntry list \<Rightarrow> bool" where
  "filled K b es \<longleftrightarrow> db_offset b \<le> length (db_buf b) \<and> (db_offset b = 0 \<longleftrightarrow> es = []) \<and>
     (\<forall>rest. parse_dirents (take (db_offset b) (db_buf b) @ rest) =
        map (dirent_view K) es @ parse_dirents rest)"

lemma filled_new: "filled K (DirBuffer_new buf) []"
  by (simp add: filled_def DirBuffer_new_def)

lemma parse_dirents_Nil [simp]: "parse_dirents [] = []"
  by (subst parse_dirents.simps) simp

lemma filled_parse: "filled K b es \<Longrightarrow> parse_dirents (take (db_offset b) (db_buf b)) = map (dirent_view K) es"
  by (auto simp: filled_def dest: spec [of _ "[]"])

lemma write_entry_filled:
  assumes "write_entry pad (K (FileType_from ent)) (ent_name ent) b = (True, b')"
    and "filled K b es" "ent_ok ent"
  shows "filled K b' (es @ [ent]) \<and> length (db_buf b') = length (db_buf b)"
proof -
  let ?name = "ent_name ent" and ?ty = "K (FileType_from ent)"
  obtain tail where w: "db_buf b' = take (db_offset b) (db_buf b) @
       (dirent_header (dirent_len ?name) ?ty @ ?name @ 0 # tail) @
       drop (db_offset b + dirent_len ?name) (db_buf b)"
    "length (dirent_header (dirent_len ?name) ?ty @ ?name @ 0 # tail) = dirent_len ?name"
    "db_offset b' = db_offset b + dirent_len ?name"
    "db_offset b + dirent_len ?name \<le> length (db_buf b)"
    using write_entry_bytes [OF assms(1)] .
  let ?r = "dirent_header (dirent_len ?name) ?ty @ ?name @ 0 # tail"
  have "take (db_offset b') (db_buf b') = take (db_offset b) (db_buf b) @ ?r"
    unfolding w(1,3) using w(4) by (intro take_prefix_middle w(2)) simp
  moreover have "parse_dirents (?r @ rest) = (?ty, ?name) # parse_dirents rest" for rest
    using assms(3) by (intro parse_dirents_record w(2)) (simp_all add: ent_ok_def)
  ultimately have "parse_dirents (take (db_offset b') (db_buf b') @ rest) =
      map (dirent_view K) (es @ [ent]) @ parse_dirents rest" for rest
    using assms(2) by (simp add: filled_def dirent_view_def)
  moreover have "length (db_buf b') = length (db_buf b)" using w(2,4) by (simp add: w(1))
  ultimately show ?thesis
    using w(3,4) dirent_len_bounds(3) [of ?name] by (simp add: filled_def)
qed

text \<open>
  What \<^verbatim>\<open>axfs\<close> documents of \<^verbatim>\<open>Directory::read_dir\<close>: it advances the position, so successive calls
  return the remaining entries one by one and then nothing.
\<close>

locale dir_stream =
  fixes read_dir :: "'s read_dir"
    and rest_of :: "'s \<Rightarrow> DirEntry list"
  assumes read_end: "rest_of s = [] \<Longrightarrow> \<exists>s'. read_dir s = (Inr None, s') \<and> rest_of s' = []"
    and read_next: "rest_of s = e # es \<Longrightarrow> \<exists>s'. read_dir s = (Inr (Some e), s') \<and> rest_of s' = es"
begin

lemma getdents_loop_filled:
  assumes "filled K b es" "\<forall>e \<in> set (rest_of s). ent_ok e"
    and "getdents_loop K pad read_dir b s = (r, b', s')"
  shows "\<exists>new lst. r = Inr lst \<and> filled K b' (es @ new) \<and> length (db_buf b') = length (db_buf b) \<and>
    (case lst of
       None \<Rightarrow> rest_of s = new \<and> rest_of s' = []
     | Some e \<Rightarrow> rest_of s = new @ e # rest_of s' \<and> remaining_space b' < dirent_len (ent_name e))"
  using assms
proof (induction "rest_of s" arbitrary: es b s)
  case Nil
  then obtain t where "read_dir s = (Inr None, t)" "rest_of t = []" using read_end [of s] by auto
  with Nil show ?case by (auto simp: getdents_loop.simps [of _ _ _ b])
next
  case (Cons e rest)
  then obtain t where t: "read_dir s = (Inr (Some e), t)" "rest_of t = rest"
    using read_next [of s e rest] by auto
  let ?w = "write_entry pad (K (FileType_from e)) (ent_name e) b"
  have ok: "ent_ok e" "\<forall>e \<in> set rest. ent_ok e"
    using Cons.prems(2) Cons.hyps(2) [symmetric] by simp_all
  show ?case
  proof (cases "fst ?w")
    case False
    then have "?w = (False, b)" "remaining_space b < dirent_len (ent_name e)"
      by (auto simp: write_entry_unfold split: if_splits)
    with Cons.prems t Cons.hyps(2) [symmetric] show ?thesis
      by (intro exI [of _ "[]"]) (auto simp: getdents_loop.simps [of _ _ _ b])
  next
    case True
    then obtain b1 where w: "?w = (True, b1)" by (cases ?w) auto
    then have loop: "getdents_loop K pad read_dir b1 t = (r, b', s')"
      using Cons.prems(3) t(1) by (simp add: getdents_loop.simps [of _ _ _ b])
    have f: "filled K b1 (es @ [e])" "length (db_buf b1) = length (db_buf b)"
      using write_entry_filled [OF w Cons.prems(1) ok(1)] by simp_all
    from Cons.hyps(1) [OF t(2) [symmetric] f(1) _ loop] ok(2) t(2)
    obtain new lst where n: "r = Inr lst" "filled K b' ((es @ [e]) @ new)"
      "length (db_buf b') = length (db_buf b1)"
      "case lst of
         None \<Rightarrow> rest_of t = new \<and> rest_of s' = []
       | Some e \<Rightarrow> rest_of t = new @ e # rest_of s' \<and> remaining_space b' < dirent_len (ent_name e)"
      by auto
    then show ?thesis
      using f(2) t(2) Cons.hyps(2) [symmetric]
      by (intro exI [of _ "e # new"] exI [of _ lst]) (auto split: option.splits)
  qed
qed

end

section \<open>Sequences of calls\<close>

text \<open>What a program collects by calling \<^verbatim>\<open>getdents64\<close> with one buffer after the other.\<close>

fun getdents_calls ::
  "dt_abi \<Rightarrow> (nat \<Rightarrow> u8) \<Rightarrow> (AxError \<Rightarrow> LinuxError) \<Rightarrow> 's read_dir \<Rightarrow> u8 list list \<Rightarrow> 's Directory \<Rightarrow>
   (u8 \<times> u8 list) list \<times> 's Directory" where
  "getdents_calls K pad into read_dir [] dir = ([], dir)"
| "getdents_calls K pad into read_dir (buf # bufs) dir =
     (case sys_getdents64 K pad into read_dir (Inr buf) (Inr ()) dir of
        (r, buf', dir') \<Rightarrow>
          (case getdents_calls K pad into read_dir bufs dir' of
             (es, dir'') \<Rightarrow>
               ((case (r, buf') of
                   (Inr n, Some bs) \<Rightarrow> parse_dirents (take (unat n) bs)
                 | _ \<Rightarrow> []) @ es, dir'')))"

text \<open>The entries a directory still has to deliver: the one put back, then the unread ones.\<close>

definition pending :: "('s \<Rightarrow> DirEntry list) \<Rightarrow> 's Directory \<Rightarrow> DirEntry list" where
  "pending rest_of dir = (case dir_last dir of None \<Rightarrow> [] | Some e \<Rightarrow> [e]) @ rest_of (dir_inner dir)"

text \<open>The entry put back by the previous call, if any, goes into the buffer first.\<close>

definition put_back :: "'s Directory \<Rightarrow> DirEntry list" where
  "put_back dir = (case dir_last dir of None \<Rightarrow> [] | Some e \<Rightarrow> [e])"

definition write_put_back ::
  "dt_abi \<Rightarrow> (nat \<Rightarrow> u8) \<Rightarrow> 's Directory \<Rightarrow> u8 list \<Rightarrow> bool \<times> DirBuffer" where
  "write_put_back K pad dir buf = (case dir_last dir of
      None \<Rightarrow> (True, DirBuffer_new buf)
    | Some ent \<Rightarrow> write_entry pad (K (FileType_from ent)) (ent_name ent) (DirBuffer_new buf))"

lemma write_put_back_cases:
  assumes "\<forall>e \<in> set (put_back dir). ent_ok e"
  obtains e where "dir_last dir = Some e" "write_put_back K pad dir buf = (False, DirBuffer_new buf)"
    "length buf < dirent_len (ent_name e)"
  | b where "write_put_back K pad dir buf = (True, b)" "filled K b (put_back dir)"
    "length (db_buf b) = length buf"
proof (cases "dir_last dir")
  case None
  then show ?thesis using that(2) [of "DirBuffer_new buf"] filled_new
    by (simp add: put_back_def write_put_back_def DirBuffer_new_def)
next
  case (Some e)
  let ?w = "write_entry pad (K (FileType_from e)) (ent_name e) (DirBuffer_new buf)"
  show ?thesis
  proof (cases "fst ?w")
    case True
    then obtain b where w: "?w = (True, b)" by (cases ?w) auto
    with write_entry_filled [OF w filled_new [of K]] assms Some show ?thesis
      by (intro that(2) [of b]) (auto simp: put_back_def write_put_back_def DirBuffer_new_def)
  next
    case False
    with Some show ?thesis
      by (intro that(1) [of e]) (auto simp: write_put_back_def write_entry_unfold remaining_space_def
          DirBuffer_new_def split: if_splits)
  qed
qed

lemma sys_getdents64_unfold:
  "sys_getdents64 K pad into read_dir (Inr buf) (Inr ()) dir =
     (case write_put_back K pad dir buf of
        (False, b) \<Rightarrow> (Inl EINVAL, Some (db_buf b), dir)
      | (True, b) \<Rightarrow>
          (case getdents_loop K pad read_dir b (dir_inner dir) of
             (Inl e, b', inner) \<Rightarrow>
               (Inl (into e), Some (db_buf b'), \<lparr>dir_inner = inner, dir_last = None\<rparr>)
           | (Inr lst, b', inner) \<Rightarrow>
               if lst \<noteq> None \<and> db_offset b' = 0
               then (Inl EINVAL, Some (db_buf b'), \<lparr>dir_inner = inner, dir_last = lst\<rparr>)
               else (Inr (of_nat (db_offset b')), Some (db_buf b'),
                     \<lparr>dir_inner = inner, dir_last = lst\<rparr>)))"
  unfolding sys_getdents64_def write_put_back_def Let_def by simp

context dir_stream
begin

abbreviation todo :: "'s Directory \<Rightarrow> DirEntry list" where
  "todo \<equiv> pending rest_of"

lemma sys_getdents64_step:
  assumes "\<forall>e \<in> set (todo dir). ent_ok e" "length buf < 2 ^ 64"
    and "sys_getdents64 K pad into read_dir (Inr buf) (Inr ()) dir = (r, buf', dir')"
  shows "\<exists>new. todo dir = new @ todo dir' \<and>
    (case r of
       Inl err \<Rightarrow> err = EINVAL \<and> new = [] \<and> todo dir \<noteq> [] \<and> length buf < dirent_len (ent_name (hd (todo dir)))
     | Inr n \<Rightarrow> \<exists>bs. buf' = Some bs \<and> parse_dirents (take (unat n) bs) = map (dirent_view K) new \<and>
         (new = [] \<longrightarrow> todo dir = []))"
proof (rule write_put_back_cases [of dir K pad buf])
  show "\<forall>e \<in> set (put_back dir). ent_ok e" using assms(1) by (simp add: put_back_def pending_def)
next
  fix e
  assume "dir_last dir = Some e" "write_put_back K pad dir buf = (False, DirBuffer_new buf)"
    "length buf < dirent_len (ent_name e)"
  with assms(3) show ?thesis by (auto simp: sys_getdents64_unfold pending_def)
next
  fix b
  assume b: "write_put_back K pad dir buf = (True, b)" and f: "filled K b (put_back dir)"
    and len: "length (db_buf b) = length buf"
  let ?first = "put_back dir"
  obtain rl b' inner where loop: "getdents_loop K pad read_dir b (dir_inner dir) = (rl, b', inner)"
    by (metis prod_cases3)
  obtain new lst where n: "rl = Inr lst" "filled K b' (?first @ new)" "length (db_buf b') = length (db_buf b)"
    "case lst of
       None \<Rightarrow> rest_of (dir_inner dir) = new \<and> rest_of inner = []
     | Some e \<Rightarrow> rest_of (dir_inner dir) = new @ e # rest_of inner \<and>
         remaining_space b' < dirent_len (ent_name e)"
    using getdents_loop_filled [OF f _ loop] assms(1) by (auto simp: pending_def)
  have todo: "todo dir = (?first @ new) @ todo \<lparr>dir_inner = inner, dir_last = lst\<rparr>"
    using n(4) by (auto simp: pending_def put_back_def split: option.splits)
  have off: "unat (of_nat (db_offset b') :: usize) = db_offset b'"
    using n(2,3) len assms(2) by (simp add: filled_def unsigned_of_nat take_bit_nat_eq_self)
  show ?thesis
  proof (cases "lst \<noteq> None \<and> db_offset b' = 0")
    case True
    then have none: "?first @ new = []" using n(2) by (simp add: filled_def)
    have "r = Inl EINVAL" "dir' = \<lparr>dir_inner = inner, dir_last = lst\<rparr>"
      using assms(3) b loop n(1) True by (auto simp: sys_getdents64_unfold)
    with todo none True n(3,4) len show ?thesis
      by (auto simp: pending_def remaining_space_def)
  next
    case False
    then have res: "r = Inr (of_nat (db_offset b'))" "buf' = Some (db_buf b')"
      "dir' = \<lparr>dir_inner = inner, dir_last = lst\<rparr>"
      using assms(3) b loop n(1) by (auto simp: sys_getdents64_unfold split: if_splits)
    have "?first @ new = [] \<Longrightarrow> todo dir = []"
      using False n(2,4) todo by (auto simp: filled_def pending_def split: option.splits)
    with todo res off filled_parse [OF n(2)] show ?thesis by (intro exI [of _ "?first @ new"]) simp
  qed
qed

lemma getdents_calls_deliver:
  assumes "\<forall>e \<in> set (todo dir). ent_ok e" "\<forall>buf \<in> set bufs. length buf < 2 ^ 64"
    and "getdents_calls K pad into read_dir bufs dir = (got, dir')"
  shows "\<exists>new. todo dir = new @ todo dir' \<and> got = map (dirent_view K) new \<and>
    ((\<forall>buf \<in> set bufs. \<forall>e \<in> set (todo dir). dirent_len (ent_name e) \<le> length buf) \<longrightarrow>
      length (todo dir) \<le> length bufs \<longrightarrow> todo dir' = [])"
  using assms
proof (induction bufs arbitrary: dir got)
  case (Cons buf bufs)
  obtain r bs d1 where call: "sys_getdents64 K pad into read_dir (Inr buf) (Inr ()) dir = (r, bs, d1)"
    by (metis prod_cases3)
  obtain more where rest: "getdents_calls K pad into read_dir bufs d1 = (more, dir')"
    and got: "got = (case (r, bs) of (Inr n, Some b) \<Rightarrow> parse_dirents (take (unat n) b) | _ \<Rightarrow> []) @ more"
    using Cons.prems(3) call by (auto split: prod.splits)
  obtain new where new: "todo dir = new @ todo d1"
    "case r of
       Inl err \<Rightarrow> err = EINVAL \<and> new = [] \<and> todo dir \<noteq> [] \<and> length buf < dirent_len (ent_name (hd (todo dir)))
     | Inr n \<Rightarrow> \<exists>b. bs = Some b \<and> parse_dirents (take (unat n) b) = map (dirent_view K) new \<and>
         (new = [] \<longrightarrow> todo dir = [])"
    using sys_getdents64_step [OF Cons.prems(1) _ call] Cons.prems(2) by auto
  then have view: "got = map (dirent_view K) new @ more"
    by (cases r) (auto simp: got)
  obtain new' where new': "todo d1 = new' @ todo dir'" "more = map (dirent_view K) new'"
    "(\<forall>buf \<in> set bufs. \<forall>e \<in> set (todo d1). dirent_len (ent_name e) \<le> length buf) \<longrightarrow>
      length (todo d1) \<le> length bufs \<longrightarrow> todo dir' = []"
  proof -
    have "\<forall>e \<in> set (todo d1). ent_ok e" "\<forall>buf \<in> set bufs. length buf < 2 ^ 64"
      using Cons.prems(1,2) new(1) by simp_all
    from Cons.IH [OF this rest] that show ?thesis by blast
  qed
  have "todo dir' = []" if big: "\<forall>buf \<in> set (buf # bufs). \<forall>e \<in> set (todo dir). dirent_len (ent_name e) \<le> length buf"
    and many: "length (todo dir) \<le> length (buf # bufs)"
  proof (cases "todo dir = []")
    case False
    with big new(2) have "new \<noteq> []" by (cases r) (auto simp: hd_in_set not_le [symmetric])
    with many new(1) have "length (todo d1) \<le> length bufs" by (cases new) auto
    with big new(1) new'(3) show ?thesis by auto
  qed (use new(1) new'(1) in simp)
  then show ?case using new(1) new'(1,2) view by (intro exI [of _ "new @ new'"]) auto
qed (simp add: pending_def)

end

text \<open>The entries of a directory as a list are such a stream.\<close>

definition list_read_dir :: "DirEntry list read_dir" where
  "list_read_dir s = (case s of [] \<Rightarrow> (Inr None, []) | e # es \<Rightarrow> (Inr (Some e), es))"

interpretation list_dir: dir_stream list_read_dir "\<lambda>s. s"
  by unfold_locales (simp_all add: list_read_dir_def)

text \<open>
  C20. Reading a directory delivers every entry exactly once, in order. For any sequence of
  \<^verbatim>\<open>getdents64\<close> calls with buffers of any sizes, the records a program parses out of the buffers,
  followed by the entries the directory still holds back, are the entries of the directory: a
  call whose buffer is too small fails with nothing lost. If every buffer can hold the longest
  entry, as many calls as there are entries deliver them all.
\<close>

theorem getdents64_delivers_all:
  assumes "dir_stream read_dir rest_of" "\<forall>e \<in> set (pending rest_of dir). ent_ok e"
    and "\<forall>buf \<in> set bufs. length buf < 2 ^ 64"
    and "getdents_calls K pad into read_dir bufs dir = (got, dir')"
  shows "got @ map (dirent_view K) (pending rest_of dir') = map (dirent_view K) (pending rest_of dir)
    \<and> ((\<forall>buf \<in> set bufs. \<forall>e \<in> set (pending rest_of dir). dirent_len (ent_name e) \<le> length buf) \<and>
        length (pending rest_of dir) \<le> length bufs \<longrightarrow>
      got = map (dirent_view K) (pending rest_of dir))"
  using dir_stream.getdents_calls_deliver [OF assms] by (elim exE conjE) auto

theorem getdents64_delivers_all_witness:
  "fst (getdents_calls (\<lambda>_. 4) (\<lambda>_. 0) (\<lambda>_. EIO) list_read_dir [replicate 24 0, replicate 24 0]
     \<lparr>dir_inner = [\<lparr>ent_is_dir = True, ent_is_file = False, ent_name = [97]\<rparr>,
        \<lparr>ent_is_dir = True, ent_is_file = False, ent_name = [98, 99]\<rparr>], dir_last = None\<rparr>) =
   [(4, [97]), (4, [98, 99])]"
proof -
  let ?dir = "\<lparr>dir_inner = [\<lparr>ent_is_dir = True, ent_is_file = False, ent_name = [97]\<rparr>,
        \<lparr>ent_is_dir = True, ent_is_file = False, ent_name = [98, 99]\<rparr>], dir_last = None\<rparr> :: DirEntry list Directory"
  obtain got dir' where calls: "getdents_calls (\<lambda>_. 4) (\<lambda>_. 0) (\<lambda>_. EIO) list_read_dir
      [replicate 24 0, replicate 24 0] ?dir = (got, dir')" by fastforce
  have len: "dirent_len [97] = 24" "dirent_len [98, 99] = 24"
    by (simp_all add: dirent_len_def next_multiple_of_def NAME_OFFSET_def)
  have "got = map (dirent_view (\<lambda>_. 4)) (pending (\<lambda>s. s) ?dir)"
    using getdents64_delivers_all [OF list_dir.dir_stream_axioms _ _ calls]
    by (simp add: pending_def ent_ok_def len)
  with calls show ?thesis by (simp add: pending_def dirent_view_def)
qed

text \<open>
  When \<^verbatim>\<open>read_dir\<close> fails after entries were stored, the call reports the error, and the stored
  entries are neither reported nor kept for the next call.
\<close>

lemma getdents_error_loses_entries:
  assumes "dir_last dir = None" "read_dir (dir_inner dir) = (Inr (Some e), s1)" "read_dir s1 = (Inl err, s2)"
    and "dirent_len (ent_name e) \<le> length buf"
  shows "\<exists>bs. sys_getdents64 K pad into read_dir (Inr buf) (Inr ()) dir =
    (Inl (into err), Some bs, \<lparr>dir_inner = s2, dir_last = None\<rparr>)"
  using assms
  by (simp add: sys_getdents64_unfold write_put_back_def getdents_loop.simps write_entry_unfold
      remaining_space_def DirBuffer_new_def)

end
