(* ===== verification/Socket_Addr.thy ===== *)
theory Socket_Addr
  imports Bytes
begin

text \<open>
  Socket addresses in user memory (\<^verbatim>\<open>api/src/socket.rs\<close>). The structures are those of the kernel's
  user interface under the C layout rules: \<^verbatim>\<open>sockaddr_in\<close> has 16 bytes (family, port, address,
  padding), \<^verbatim>\<open>sockaddr_in6\<close> has 28 (family, port, flow information, address, scope) and
  \<^verbatim>\<open>sockaddr\<close> is a storage of 128 bytes that starts with the family. The family numbers come from
  \<^verbatim>\<open>linux_raw_sys\<close> and are the record \<open>af_abi\<close>.

  A user pointer is given by what \<^verbatim>\<open>get_as_ref\<close> or \<^verbatim>\<open>get_as_mut\<close> returns for it: an error or the 128
  bytes it points to. \<open>None\<close> as the outcome of a read stands for a copy beyond the end of
  the kernel's storage.
\<close>

type_synonym socklen_t = u32
type_synonym sockaddr = "u8 list"

record SocketAddrV4 =
  ip4 :: u32
  port4 :: u16

record SocketAddrV6 =
  ip6 :: "128 word"
  port6 :: u16
  flowinfo6 :: u32
  scope_id6 :: u32

datatype SocketAddr = V4 SocketAddrV4 | V6 SocketAddrV6

record af_abi =
  AF_INET :: u32
  AF_INET6 :: u32

abbreviation (input) size_of_sockaddr :: nat where "size_of_sockaddr \<equiv> 128"
abbreviation (input) size_of_sockaddr_in :: nat where "size_of_sockaddr_in \<equiv> 16"
abbreviation (input) size_of_sockaddr_in6 :: nat where "size_of_sockaddr_in6 \<equiv> 28"
abbreviation (input) size_of_sa_family :: nat where "size_of_sa_family \<equiv> 2"

text \<open>The field of \<open>k\<close> bytes at offset \<open>i\<close>, as a number in the byte order of the machine.\<close>

definition field :: "nat \<Rightarrow> nat \<Rightarrow> u8 list \<Rightarrow> nat" where
  "field i k bs = le_nat (take k (drop i bs))"

text \<open>\<^verbatim>\<open>from_be\<close> and \<^verbatim>\<open>to_be\<close> on an integer of \<open>k\<close> bytes.\<close>

definition from_be :: "nat \<Rightarrow> nat \<Rightarrow> nat" where
  "from_be k x = be_nat (le_bytes k x)"

definition to_be :: "nat \<Rightarrow> nat \<Rightarrow> nat" where
  "to_be k x = le_nat (be_bytes k x)"

definition copy_sockaddr_from_user :: "sockaddr LinuxResult \<Rightarrow> socklen_t \<Rightarrow> u8 list LinuxResult option" where
  "copy_sockaddr_from_user addr addrlen =
     (case addr of
        Inl e \<Rightarrow> Some (Inl e)
      | Inr sock_addr \<Rightarrow>
          if unat addrlen \<le> size_of_sockaddr then Some (Inr (take (unat addrlen) sock_addr)) else None)"

section \<open>IPv4\<close>

definition SocketAddrV4_read_from_user ::
  "af_abi \<Rightarrow> sockaddr LinuxResult \<Rightarrow> socklen_t \<Rightarrow> SocketAddrV4 LinuxResult option" where
  "SocketAddrV4_read_from_user A addr addrlen =
     (if addrlen < of_nat size_of_sockaddr_in then Some (Inl EINVAL)
      else ptry (copy_sockaddr_from_user addr addrlen) (\<lambda>storage.
        if field 0 2 storage \<noteq> unat (AF_INET A) then Some (Inl EAFNOSUPPORT)
        else Some (Inr \<lparr>ip4 = of_nat (from_be 4 (field 4 4 storage)),
                        port4 = of_nat (from_be 2 (field 2 2 storage))\<rparr>)))"

definition sockaddr_in_bytes :: "af_abi \<Rightarrow> SocketAddrV4 \<Rightarrow> u8 list" where
  "sockaddr_in_bytes A self =
     le_bytes 2 (unat (AF_INET A)) @ le_bytes 2 (to_be 2 (unat (port4 self))) @
     le_bytes 4 (le_nat (be_bytes 4 (unat (ip4 self)))) @ replicate 8 0"

definition SocketAddrV4_write_to_user ::
  "af_abi \<Rightarrow> SocketAddrV4 \<Rightarrow> bool \<Rightarrow> sockaddr LinuxResult \<Rightarrow> socklen_t LinuxResult \<times> sockaddr option" where
  "SocketAddrV4_write_to_user A self is_null addr =
     (if is_null then (Inl EINVAL, None)
      else case addr of
        Inl e \<Rightarrow> (Inl e, None)
      | Inr dst_addr \<Rightarrow>
          (Inr (of_nat size_of_sockaddr_in), Some (overwrite dst_addr 0 (sockaddr_in_bytes A self))))"

definition SocketAddrV4_family :: "af_abi \<Rightarrow> SocketAddrV4 \<Rightarrow> u16" where
  "SocketAddrV4_family A self = ucast (AF_INET A)"

definition SocketAddrV4_addr_len :: "SocketAddrV4 \<Rightarrow> socklen_t" where
  "SocketAddrV4_addr_len self = of_nat size_of_sockaddr_in"

section \<open>IPv6\<close>

definition SocketAddrV6_read_from_user ::
  "af_abi \<Rightarrow> sockaddr LinuxResult \<Rightarrow> socklen_t \<Rightarrow> SocketAddrV6 LinuxResult option" where
  "SocketAddrV6_read_from_user A addr addrlen =
     (if addrlen < of_nat size_of_sockaddr_in6 then Some (Inl EINVAL)
      else ptry (copy_sockaddr_from_user addr addrlen) (\<lambda>storage.
        if field 0 2 storage \<noteq> unat (AF_INET6 A) then Some (Inl EAFNOSUPPORT)
        else Some (Inr \<lparr>ip6 = of_nat (be_nat (take 16 (drop 8 storage))),
                        port6 = of_nat (from_be 2 (field 2 2 storage)),
                        flowinfo6 = of_nat (from_be 4 (field 4 4 storage)),
                        scope_id6 = of_nat (field 24 4 storage)\<rparr>)))"

definition sockaddr_in6_bytes :: "af_abi \<Rightarrow> SocketAddrV6 \<Rightarrow> u8 list" where
  "sockaddr_in6_bytes A self =
     le_bytes 2 (unat (AF_INET6 A)) @ le_bytes 2 (to_be 2 (unat (port6 self))) @
     le_bytes 4 (to_be 4 (unat (flowinfo6 self))) @ be_bytes 16 (unat (ip6 self)) @
     le_bytes 4 (unat (scope_id6 self))"

definition SocketAddrV6_write_to_user ::
  "af_abi \<Rightarrow> SocketAddrV6 \<Rightarrow> bool \<Rightarrow> sockaddr LinuxResult \<Rightarrow> socklen_t LinuxResult \<times> sockaddr option" where
  "SocketAddrV6_write_to_user A self is_null addr =
     (if is_null then (Inl EINVAL, None)
      else case addr of
        Inl e \<Rightarrow> (Inl e, None)
      | Inr dst_addr \<Rightarrow>
          (Inr (of_nat size_of_sockaddr_in6), Some (overwrite dst_addr 0 (sockaddr_in6_bytes A self))))"

definition SocketAddrV6_family :: "af_abi \<Rightarrow> SocketAddrV6 \<Rightarrow> u16" where
  "SocketAddrV6_family A self = ucast (AF_INET6 A)"

definition SocketAddrV6_addr_len :: "SocketAddrV6 \<Rightarrow> socklen_t" where
  "SocketAddrV6_addr_len self = of_nat size_of_sockaddr_in6"

section \<open>Either\<close>

definition SocketAddr_read_from_user ::
  "af_abi \<Rightarrow> sockaddr LinuxResult \<Rightarrow> socklen_t \<Rightarrow> SocketAddr LinuxResult option" where
  "SocketAddr_read_from_user A addr addrlen =
     (if unat addrlen < size_of_sa_family \<or> size_of_sockaddr < unat addrlen then Some (Inl EINVAL)
      else ptry (Some addr) (\<lambda>src_addr.
        let family = field 0 2 src_addr
        in if family = unat (AF_INET A)
           then ptry (SocketAddrV4_read_from_user A addr addrlen) (\<lambda>v. Some (Inr (V4 v)))
           else if family = unat (AF_INET6 A)
           then ptry (SocketAddrV6_read_from_user A addr addrlen) (\<lambda>v. Some (Inr (V6 v)))
           else Some (Inl EAFNOSUPPORT)))"

definition SocketAddr_write_to_user ::
  "af_abi \<Rightarrow> SocketAddr \<Rightarrow> bool \<Rightarrow> sockaddr LinuxResult \<Rightarrow> socklen_t LinuxResult \<times> sockaddr option" where
  "SocketAddr_write_to_user A self is_null addr =
     (if is_null then (Inl EINVAL, None)
      else case self of
        V4 v4 \<Rightarrow> SocketAddrV4_write_to_user A v4 is_null addr
      | V6 v6 \<Rightarrow> SocketAddrV6_write_to_user A v6 is_null addr)"

definition SocketAddr_family :: "af_abi \<Rightarrow> SocketAddr \<Rightarrow> u16" where
  "SocketAddr_family A self =
     (case self of V4 v4 \<Rightarrow> SocketAddrV4_family A v4 | V6 v6 \<Rightarrow> SocketAddrV6_family A v6)"

definition SocketAddr_addr_len :: "SocketAddr \<Rightarrow> socklen_t" where
  "SocketAddr_addr_len self =
     (case self of V4 v4 \<Rightarrow> SocketAddrV4_addr_len v4 | V6 v6 \<Rightarrow> SocketAddrV6_addr_len v6)"

section \<open>The trait\<close>

locale socket_addr_ext =
  fixes read_from_user :: "sockaddr LinuxResult \<Rightarrow> socklen_t \<Rightarrow> 'a LinuxResult option"
    and write_to_user :: "'a \<Rightarrow> bool \<Rightarrow> sockaddr LinuxResult \<Rightarrow> socklen_t LinuxResult \<times> sockaddr option"
    and family :: "'a \<Rightarrow> u16"
    and addr_len :: "'a \<Rightarrow> socklen_t"
    and encode :: "'a \<Rightarrow> u8 list"
  assumes addr_len_encode: "length (encode a) = unat (addr_len a)"
    and addr_len_bounds: "2 \<le> unat (addr_len a)" "unat (addr_len a) \<le> size_of_sockaddr"
    and encode_family: "field 0 2 (encode a) = unat (family a)"
    and write_encode: "write_to_user a False (Inr mem) = (Inr (addr_len a), Some (overwrite mem 0 (encode a)))"
    and read_encode: "unat (addr_len a) \<le> unat n \<Longrightarrow> unat n \<le> size_of_sockaddr \<Longrightarrow>
      length rest = size_of_sockaddr - unat (addr_len a) \<Longrightarrow>
      read_from_user (Inr (encode a @ rest)) n = Some (Inr a)"
begin

lemma write_read:
  assumes "length mem = size_of_sockaddr" "unat (addr_len a) \<le> unat n" "unat n \<le> size_of_sockaddr"
  shows "\<exists>mem'. write_to_user a False (Inr mem) = (Inr (addr_len a), Some mem') \<and>
    length mem' = size_of_sockaddr \<and> drop (unat (addr_len a)) mem' = drop (unat (addr_len a)) mem \<and>
    field 0 2 mem' = unat (family a) \<and> read_from_user (Inr mem') n = Some (Inr a)"
proof -
  let ?mem = "encode a @ drop (unat (addr_len a)) mem"
  have "overwrite mem 0 (encode a) = ?mem"
    by (simp add: overwrite_def addr_len_encode)
  moreover have "field 0 2 ?mem = unat (family a)"
    using encode_family [of a] addr_len_bounds(1) [of a] by (simp add: field_def addr_len_encode)
  ultimately show ?thesis
    using assms addr_len_bounds [of a] read_encode [of a n "drop (unat (addr_len a)) mem"]
    by (simp add: write_encode addr_len_encode)
qed

end

section \<open>The implementations\<close>

lemma field_append_skip [simp]:
  "length xs \<le> i \<Longrightarrow> field i k (xs @ ys) = field (i - length xs) k ys"
  by (simp add: field_def)

lemma field_append_here [simp]: "length xs = k \<Longrightarrow> field 0 k (xs @ ys) = le_nat xs"
  by (simp add: field_def)

lemma field_all [simp]: "length xs = k \<Longrightarrow> field 0 k xs = le_nat xs"
  by (simp add: field_def)

lemma to_be_bound: "to_be k x < 256 ^ k"
  using le_nat_bound [of "be_bytes k x"] by (simp add: to_be_def)

lemma from_be_to_be [simp]: "from_be k (to_be k x) = x mod 256 ^ k"
  unfolding from_be_def to_be_def by (metis be_nat_be_bytes le_bytes_le_nat length_be_bytes)

lemma to_be_mod [simp]: "to_be k x mod 256 ^ k = to_be k x"
  by (simp add: to_be_bound)

lemma length_sockaddr_in_bytes [simp]: "length (sockaddr_in_bytes A a) = 16"
  by (simp add: sockaddr_in_bytes_def)

lemma length_sockaddr_in6_bytes [simp]: "length (sockaddr_in6_bytes A a) = 28"
  by (simp add: sockaddr_in6_bytes_def)

lemma unat_mod_word: "unat (x :: 'w::len word) mod 2 ^ LENGTH('w) = unat x"
  by (simp add: unsigned_less)

lemmas unat_mod_simps [simp] =
  unat_mod_word [where 'w = 16, simplified] unat_mod_word [where 'w = 32, simplified]
  unat_mod_word [where 'w = 128, simplified]

text \<open>What the code relies on: the families differ and fit their 16-bit field.\<close>

locale inet_families =
  fixes A :: af_abi
  assumes different: "AF_INET A \<noteq> AF_INET6 A"
    and small: "unat (AF_INET A) < 65536" "unat (AF_INET6 A) < 65536"
begin

lemma sockaddr_in_fields:
  "field 0 2 (sockaddr_in_bytes A a @ rest) = unat (AF_INET A)"
    "field 2 2 (sockaddr_in_bytes A a @ rest) = to_be 2 (unat (port4 a))"
    "field 4 4 (sockaddr_in_bytes A a @ rest) = to_be 4 (unat (ip4 a))"
  using small(1) to_be_mod [of 2 "unat (port4 a)"] to_be_mod [of 4 "unat (ip4 a)"]
  by (simp_all add: sockaddr_in_bytes_def to_be_def [of 4, symmetric])

lemma sockaddr_in6_fields:
  "field 0 2 (sockaddr_in6_bytes A a @ rest) = unat (AF_INET6 A)"
    "field 2 2 (sockaddr_in6_bytes A a @ rest) = to_be 2 (unat (port6 a))"
    "field 4 4 (sockaddr_in6_bytes A a @ rest) = to_be 4 (unat (flowinfo6 a))"
    "take 16 (drop 8 (sockaddr_in6_bytes A a)) = be_bytes 16 (unat (ip6 a))"
    "field 24 4 (sockaddr_in6_bytes A a @ rest) = unat (scope_id6 a)"
  using small(2) to_be_mod [of 2 "unat (port6 a)"] to_be_mod [of 4 "unat (flowinfo6 a)"]
  by (simp_all add: sockaddr_in6_bytes_def)

lemma read_V4_encode:
  assumes "16 \<le> unat n" "unat n \<le> size_of_sockaddr"
  shows "SocketAddrV4_read_from_user A (Inr (sockaddr_in_bytes A a @ rest)) n = Some (Inr a)"
  using assms from_be_to_be [of 2 "unat (port4 a)"] from_be_to_be [of 4 "unat (ip4 a)"]
  by (simp add: SocketAddrV4_read_from_user_def copy_sockaddr_from_user_def word_less_nat_alt
      sockaddr_in_fields)

lemma read_V6_encode:
  assumes "28 \<le> unat n" "unat n \<le> size_of_sockaddr"
  shows "SocketAddrV6_read_from_user A (Inr (sockaddr_in6_bytes A a @ rest)) n = Some (Inr a)"
  using assms from_be_to_be [of 2 "unat (port6 a)"] from_be_to_be [of 4 "unat (flowinfo6 a)"]
    be_nat_be_bytes [of 16 "unat (ip6 a)"]
  by (simp add: SocketAddrV6_read_from_user_def copy_sockaddr_from_user_def word_less_nat_alt
      sockaddr_in6_fields)

end

definition SocketAddr_bytes :: "af_abi \<Rightarrow> SocketAddr \<Rightarrow> u8 list" where
  "SocketAddr_bytes A a = (case a of V4 v \<Rightarrow> sockaddr_in_bytes A v | V6 v \<Rightarrow> sockaddr_in6_bytes A v)"

lemma unat_ucast_family: "unat x < 65536 \<Longrightarrow> unat (ucast (x :: u32) :: u16) = unat x"
  by (simp add: unsigned_ucast_eq take_bit_nat_eq_self)

sublocale inet_families \<subseteq> sa_v4: socket_addr_ext "SocketAddrV4_read_from_user A"
    "SocketAddrV4_write_to_user A" "SocketAddrV4_family A" SocketAddrV4_addr_len "sockaddr_in_bytes A"
  using sockaddr_in_fields(1) [of _ "[]"] small(1)
  by unfold_locales (simp_all add: SocketAddrV4_write_to_user_def SocketAddrV4_family_def
      SocketAddrV4_addr_len_def read_V4_encode unat_ucast_family)

sublocale inet_families \<subseteq> sa_v6: socket_addr_ext "SocketAddrV6_read_from_user A"
    "SocketAddrV6_write_to_user A" "SocketAddrV6_family A" SocketAddrV6_addr_len "sockaddr_in6_bytes A"
  using sockaddr_in6_fields(1) [of _ "[]"] small(2)
  by unfold_locales (simp_all add: SocketAddrV6_write_to_user_def SocketAddrV6_family_def
      SocketAddrV6_addr_len_def read_V6_encode unat_ucast_family)

context inet_families
begin

lemma read_any_encode:
  assumes "unat (SocketAddr_addr_len a) \<le> unat n" "unat n \<le> size_of_sockaddr"
  shows "SocketAddr_read_from_user A (Inr (SocketAddr_bytes A a @ rest)) n = Some (Inr a)"
proof (cases a)
  case (V4 v)
  have "field 0 2 (sockaddr_in_bytes A v @ rest) = unat (AF_INET A)"
    using sockaddr_in_fields(1) by simp
  with V4 assms show ?thesis
    by (simp add: SocketAddr_read_from_user_def SocketAddr_bytes_def SocketAddr_addr_len_def
        SocketAddrV4_addr_len_def read_V4_encode)
next
  case (V6 v)
  have "field 0 2 (sockaddr_in6_bytes A v @ rest) = unat (AF_INET6 A)"
    using sockaddr_in6_fields(1) by simp
  moreover have "unat (AF_INET6 A) \<noteq> unat (AF_INET A)" using different word_unat_eq_iff by metis
  ultimately show ?thesis using V6 assms
    by (simp add: Let_def SocketAddr_read_from_user_def SocketAddr_bytes_def SocketAddr_addr_len_def
        SocketAddrV6_addr_len_def read_V6_encode)
qed

end

sublocale inet_families \<subseteq> sa_any: socket_addr_ext "SocketAddr_read_from_user A"
    "SocketAddr_write_to_user A" "SocketAddr_family A" SocketAddr_addr_len "SocketAddr_bytes A"
proof
  fix a :: SocketAddr
  show "length (SocketAddr_bytes A a) = unat (SocketAddr_addr_len a)" "2 \<le> unat (SocketAddr_addr_len a)"
    "unat (SocketAddr_addr_len a) \<le> size_of_sockaddr"
    by (simp_all add: SocketAddr_bytes_def SocketAddr_addr_len_def SocketAddrV4_addr_len_def
        SocketAddrV6_addr_len_def split: SocketAddr.split)
  show "field 0 2 (SocketAddr_bytes A a) = unat (SocketAddr_family A a)"
    using sa_v4.encode_family sa_v6.encode_family
    by (simp add: SocketAddr_bytes_def SocketAddr_family_def split: SocketAddr.split)
  show "SocketAddr_write_to_user A a False (Inr mem) =
      (Inr (SocketAddr_addr_len a), Some (overwrite mem 0 (SocketAddr_bytes A a)))" for mem
    using sa_v4.write_encode sa_v6.write_encode
    by (simp add: SocketAddr_write_to_user_def SocketAddr_addr_len_def SocketAddr_bytes_def
        split: SocketAddr.split)
qed (rule read_any_encode)

context inet_families
begin

lemmas any_write_read = sa_any.write_read

end

definition linux_af :: af_abi where
  "linux_af = \<lparr>AF_INET = 2, AF_INET6 = 10\<rparr>"

interpretation linux_families: inet_families linux_af
  by unfold_locales (simp_all add: linux_af_def)

section \<open>Properties\<close>

text \<open>
  C21. A socket address of either kind written to user memory and read back with any permitted
  length is the same address: the family stored is the one \<^verbatim>\<open>family\<close> reports, exactly \<^verbatim>\<open>addr_len\<close>
  bytes of the memory change, ports, addresses and flow information survive the byte-order
  conversions, and the kernel's storage is never overrun.
\<close>

theorem socket_addr_round_trip:
  assumes "inet_families A" "length mem = size_of_sockaddr"
    and "unat (SocketAddr_addr_len a) \<le> unat n" "unat n \<le> size_of_sockaddr"
  shows "\<exists>mem'. SocketAddr_write_to_user A a False (Inr mem) = (Inr (SocketAddr_addr_len a), Some mem')
    \<and> length mem' = length mem
    \<and> drop (unat (SocketAddr_addr_len a)) mem' = drop (unat (SocketAddr_addr_len a)) mem
    \<and> field 0 2 mem' = unat (SocketAddr_family A a)
    \<and> SocketAddr_read_from_user A (Inr mem') n = Some (Inr a)"
  using inet_families.any_write_read [OF assms] assms(2) by simp

theorem socket_addr_round_trip_witness:
  "\<exists>mem'. SocketAddr_write_to_user linux_af (V4 \<lparr>ip4 = 2130706433, port4 = 8080\<rparr>) False (Inr (replicate 128 0)) =
      (Inr 16, Some mem')
    \<and> SocketAddr_read_from_user linux_af (Inr mem') 16 = Some (Inr (V4 \<lparr>ip4 = 2130706433, port4 = 8080\<rparr>))"
  using socket_addr_round_trip [of linux_af "replicate 128 0" "V4 \<lparr>ip4 = 2130706433, port4 = 8080\<rparr>" 16]
    linux_families.inet_families_axioms
  by (auto simp: SocketAddr_addr_len_def SocketAddrV4_addr_len_def)

lemma from_be_field:
  "i + k \<le> length bs \<Longrightarrow> from_be k (field i k bs) = be_nat (take k (drop i bs))"
  using le_bytes_le_nat [of "take k (drop i bs)"] by (simp add: from_be_def field_def min_absorb2)

lemma field_take: "i + k \<le> n \<Longrightarrow> field i k (take n bs) = field i k bs"
  by (simp add: field_def drop_take min_absorb2)

text \<open>
  C22. \<^verbatim>\<open>SocketAddr::read_from_user\<close> on every input: a length outside 2 to 128 is \<^verbatim>\<open>EINVAL\<close>, a bad
  pointer gives its own error, an unknown family is \<^verbatim>\<open>EAFNOSUPPORT\<close>, a length too short for the
  family is \<^verbatim>\<open>EINVAL\<close>, and otherwise the fields are read at their offsets in network byte order
  (the scope in host order). The copy never runs beyond the kernel's storage.
\<close>

theorem socket_addr_read_spec:
  assumes "\<And>bs. addr = Inr bs \<Longrightarrow> length bs = size_of_sockaddr" "AF_INET A \<noteq> AF_INET6 A"
  shows "SocketAddr_read_from_user A addr n = Some
    (if unat n < 2 \<or> 128 < unat n then Inl EINVAL
     else case addr of
       Inl e \<Rightarrow> Inl e
     | Inr bs \<Rightarrow>
         if field 0 2 bs = unat (AF_INET A) then
           if unat n < 16 then Inl EINVAL
           else Inr (V4 \<lparr>ip4 = of_nat (be_nat (take 4 (drop 4 bs))),
                         port4 = of_nat (be_nat (take 2 (drop 2 bs)))\<rparr>)
         else if field 0 2 bs = unat (AF_INET6 A) then
           if unat n < 28 then Inl EINVAL
           else Inr (V6 \<lparr>ip6 = of_nat (be_nat (take 16 (drop 8 bs))),
                         port6 = of_nat (be_nat (take 2 (drop 2 bs))),
                         flowinfo6 = of_nat (be_nat (take 4 (drop 4 bs))),
                         scope_id6 = of_nat (le_nat (take 4 (drop 24 bs)))\<rparr>)
         else Inl EAFNOSUPPORT)"
proof (cases addr)
  case (Inl e)
  then show ?thesis by (simp add: SocketAddr_read_from_user_def)
next
  case (Inr bs)
  with assms(1) have len: "length bs = 128" by simp
  have ne: "unat (AF_INET A) \<noteq> unat (AF_INET6 A)" using assms(2) word_unat_eq_iff by metis
  have sixteen: "take 16 (drop 8 (take (unat n) bs)) = take 16 (drop 8 bs)" if "28 \<le> unat n"
    using that by (simp add: drop_take min_absorb2)
  have scope: "field 24 4 bs = le_nat (take 4 (drop 24 bs))" by (simp add: field_def)
  show ?thesis
    using Inr len ne sixteen
    by (auto simp: SocketAddr_read_from_user_def SocketAddrV4_read_from_user_def
        SocketAddrV6_read_from_user_def copy_sockaddr_from_user_def Let_def word_less_nat_alt
        field_take from_be_field scope)
qed

theorem socket_addr_read_spec_witness:
  "SocketAddr_read_from_user linux_af (Inr (2 # 0 # replicate 126 0)) 8 = Some (Inl EINVAL)"
proof -
  have "field 0 2 (2 # 0 # replicate 126 0) = 2" by (simp add: field_def)
  then show ?thesis
    using socket_addr_read_spec [of "Inr (2 # 0 # replicate 126 0)" linux_af 8]
    by (simp add: linux_af_def)
qed

end
