(* ===== verification/Futex.thy ===== *)
theory Futex
  imports Time_Values
begin

text \<open>
  Futexes: the table of wait queues (\<^verbatim>\<open>core/src/futex.rs\<close>) and \<^verbatim>\<open>sys_futex\<close>
  (\<^verbatim>\<open>api/src/imp/futex.rs\<close>).

  The wait queues are those of \<^verbatim>\<open>axtask\<close>, which is not part of the sources: their operations are
  the record \<open>wq_ops\<close>, and the locale \<open>wait_queue\<close> states their documented behaviour, a queue of
  waiting tasks. A queue is shared by reference counting, so the table and the guards hold its
  number, and the guards alive are counted per queue.
\<close>

section \<open>Wait queues\<close>

type_synonym task = nat

record 'q wq_ops =
  wq_new :: 'q
  wq_block :: "task \<Rightarrow> 'q \<Rightarrow> 'q"
  wq_notify_one :: "'q \<Rightarrow> bool \<times> 'q"
  wq_requeue :: "nat \<Rightarrow> 'q \<Rightarrow> 'q \<Rightarrow> nat \<times> 'q \<times> 'q"
  wq_is_empty :: "'q \<Rightarrow> bool"

locale wait_queue =
  fixes W :: "'q wq_ops"
    and waiters :: "'q \<Rightarrow> task list"
  assumes waiters_new: "waiters (wq_new W) = []"
    and waiters_block: "waiters (wq_block W t q) = waiters q @ [t]"
    and waiters_notify: "waiters (snd (wq_notify_one W q)) = tl (waiters q)"
    and notify_result: "fst (wq_notify_one W q) \<longleftrightarrow> waiters q \<noteq> []"
    and waiters_requeue: "wq_requeue W n q q2 = (k, q', q2') \<Longrightarrow>
      k = min n (length (waiters q)) \<and> waiters q' = drop n (waiters q) \<and>
      waiters q2' = waiters q2 @ take n (waiters q)"
    and is_empty_iff: "wq_is_empty W q \<longleftrightarrow> waiters q = []"

section \<open>The table\<close>

type_synonym guard = "usize \<times> nat"

record 'q FutexTable =
  ft_map :: "usize \<rightharpoonup> nat"
  ft_queues :: "nat \<Rightarrow> 'q"
  ft_next :: nat
  ft_guards :: "nat \<Rightarrow> nat"

definition FutexTable_new :: "'q wq_ops \<Rightarrow> 'q FutexTable" where
  "FutexTable_new W =
     \<lparr>ft_map = Map.empty, ft_queues = (\<lambda>_. wq_new W), ft_next = 0, ft_guards = (\<lambda>_. 0)\<rparr>"

text \<open>Cloning the reference to queue \<open>i\<close> into a new guard.\<close>

definition new_guard :: "usize \<Rightarrow> nat \<Rightarrow> 'q FutexTable \<Rightarrow> guard \<times> 'q FutexTable" where
  "new_guard addr i t = ((addr, i), t\<lparr>ft_guards := (ft_guards t)(i := ft_guards t i + 1)\<rparr>)"

definition FutexTable_get :: "usize \<Rightarrow> 'q FutexTable \<Rightarrow> guard option \<times> 'q FutexTable" where
  "FutexTable_get addr t =
     (case ft_map t addr of
        None \<Rightarrow> (None, t)
      | Some i \<Rightarrow> (case new_guard addr i t of (g, t') \<Rightarrow> (Some g, t')))"

definition get_or_insert :: "'q wq_ops \<Rightarrow> usize \<Rightarrow> 'q FutexTable \<Rightarrow> guard \<times> 'q FutexTable" where
  "get_or_insert W addr t =
     (case ft_map t addr of
        Some i \<Rightarrow> new_guard addr i t
      | None \<Rightarrow>
          let i = ft_next t
          in new_guard addr i (t\<lparr>ft_map := (ft_map t)(addr \<mapsto> i),
               ft_queues := (ft_queues t)(i := wq_new W), ft_next := i + 1\<rparr>))"

text \<open>\<^verbatim>\<open>Arc::strong_count\<close>: the reference of the table, if it still has it, and those of the guards.\<close>

definition strong_count :: "guard \<Rightarrow> 'q FutexTable \<Rightarrow> nat" where
  "strong_count g t = (if ft_map t (fst g) = Some (snd g) then 1 else 0) + ft_guards t (snd g)"

text \<open>Dropping a guard runs \<^verbatim>\<open>WaitQueueGuard::drop\<close> first and releases its reference afterwards.\<close>

definition WaitQueueGuard_drop :: "'q wq_ops \<Rightarrow> guard \<Rightarrow> 'q FutexTable \<Rightarrow> 'q FutexTable" where
  "WaitQueueGuard_drop W g t =
     (let t' = (if strong_count g t = 1 \<and> wq_is_empty W (ft_queues t (snd g))
                then t\<lparr>ft_map := (ft_map t)(fst g := None)\<rparr> else t)
      in t'\<lparr>ft_guards := (ft_guards t')(snd g := ft_guards t' (snd g) - 1)\<rparr>)"

section \<open>The system call\<close>

record futex_abi =
  FUTEX_CMD_MASK :: u32
  FUTEX_WAIT :: u32
  FUTEX_WAKE :: u32
  FUTEX_REQUEUE :: u32
  FUTEX_CMP_REQUEUE :: u32

text \<open>Notifying up to \<open>n\<close> tasks of a queue, counting from \<open>count\<close>.\<close>

fun notify_loop :: "'q wq_ops \<Rightarrow> nat \<Rightarrow> isize \<Rightarrow> 'q \<Rightarrow> isize \<times> 'q" where
  "notify_loop W 0 count q = (count, q)"
| "notify_loop W (Suc n) count q =
     (case wq_notify_one W q of
        (False, q') \<Rightarrow> (count, q')
      | (True, q') \<Rightarrow> notify_loop W n (count + 1) q')"

text \<open>
  The outcome of entering \<^verbatim>\<open>sys_futex\<close>: a result, or blocking on the queue of a guard, with a
  timeout or without; \<open>FX_panic\<close> is the panic of \<^verbatim>\<open>to_time_value\<close>.
\<close>

datatype futex_outcome = FX_ret "isize LinuxResult" | FX_block guard "TimeValue option" | FX_panic

definition futex_wait ::
  "'q wq_ops \<Rightarrow> usize \<Rightarrow> u32 LinuxResult \<Rightarrow> u32 \<Rightarrow> timespec option LinuxResult \<Rightarrow> 'q FutexTable \<Rightarrow>
   futex_outcome \<times> 'q FutexTable" where
  "futex_wait W addr uaddr value timeout t =
     (case uaddr of
        Inl e \<Rightarrow> (FX_ret (Inl e), t)
      | Inr word \<Rightarrow>
          if word \<noteq> value then (FX_ret (Inl EAGAIN), t)
          else case get_or_insert W addr t of (g, t') \<Rightarrow>
            (case timeout of
               Inl e \<Rightarrow> (FX_ret (Inl e), WaitQueueGuard_drop W g t')
             | Inr None \<Rightarrow> (FX_block g None, t')
             | Inr (Some ts) \<Rightarrow>
                 (case timespec_to_time_value ts of
                    None \<Rightarrow> (FX_panic, t')
                  | Some d \<Rightarrow> (FX_block g (Some d), t'))))"

text \<open>What the waiting task does when it runs again, whether it was woken or timed out.\<close>

definition futex_wait_return :: "'q wq_ops \<Rightarrow> guard \<Rightarrow> 'q FutexTable \<Rightarrow> isize LinuxResult \<times> 'q FutexTable" where
  "futex_wait_return W g t = (Inr 0, WaitQueueGuard_drop W g t)"

definition futex_wake :: "'q wq_ops \<Rightarrow> usize \<Rightarrow> u32 \<Rightarrow> 'q FutexTable \<Rightarrow> isize LinuxResult \<times> 'q FutexTable" where
  "futex_wake W addr value t =
     (case FutexTable_get addr t of
        (None, t') \<Rightarrow> (Inr 0, t')
      | (Some g, t') \<Rightarrow>
          (case notify_loop W (unat value) 0 (ft_queues t' (snd g)) of (count, q) \<Rightarrow>
             (Inr count,
              WaitQueueGuard_drop W g (t'\<lparr>ft_queues := (ft_queues t')(snd g := q)\<rparr>))))"

definition futex_requeue ::
  "'q wq_ops \<Rightarrow> usize \<Rightarrow> u32 \<Rightarrow> u32 \<Rightarrow> usize \<Rightarrow> 'q FutexTable \<Rightarrow> isize LinuxResult \<times> 'q FutexTable" where
  "futex_requeue W addr value value2 addr2 t =
     (case FutexTable_get addr t of (wq, t1) \<Rightarrow>
      case get_or_insert W addr2 t1 of (g2, t2) \<Rightarrow>
      (case wq of
         None \<Rightarrow> (Inr 0, WaitQueueGuard_drop W g2 t2)
       | Some g \<Rightarrow>
           (case notify_loop W (unat value) 0 (ft_queues t2 (snd g)) of (count, q) \<Rightarrow>
            let t3 = t2\<lparr>ft_queues := (ft_queues t2)(snd g := q)\<rparr>;
                (count', t4) =
                  (if count = ucast value then
                     (case wq_requeue W (unat value2) q (ft_queues t3 (snd g2)) of (k, q', q2') \<Rightarrow>
                        (count + of_nat k,
                         t3\<lparr>ft_queues := (ft_queues t3)(snd g := q', snd g2 := q2')\<rparr>))
                   else (count, t3))
            in (Inr count', WaitQueueGuard_drop W g2 (WaitQueueGuard_drop W g t4)))))"

definition sys_futex ::
  "'q wq_ops \<Rightarrow> futex_abi \<Rightarrow> usize \<Rightarrow> u32 LinuxResult \<Rightarrow> u32 \<Rightarrow> u32 \<Rightarrow> usize \<Rightarrow>
   timespec option LinuxResult \<Rightarrow> usize \<Rightarrow> u32 \<Rightarrow> 'q FutexTable \<Rightarrow> futex_outcome \<times> 'q FutexTable" where
  "sys_futex W K addr uaddr futex_op value timeout_addr timeout addr2 value3 t =
     (let command = futex_op AND FUTEX_CMD_MASK K
      in if command = FUTEX_WAIT K then futex_wait W addr uaddr value timeout t
      else if command = FUTEX_WAKE K then
        (case futex_wake W addr value t of (r, t') \<Rightarrow> (FX_ret r, t'))
      else if command = FUTEX_REQUEUE K \<or> command = FUTEX_CMP_REQUEUE K then
        (case (if command = FUTEX_CMP_REQUEUE K then
                 (case uaddr of
                    Inl e \<Rightarrow> Inl e
                  | Inr word \<Rightarrow> if word \<noteq> value3 then Inl EAGAIN else Inr ())
               else Inr ()) of
           Inl e \<Rightarrow> (FX_ret (Inl e), t)
         | Inr _ \<Rightarrow>
             (case futex_requeue W addr value (ucast timeout_addr) addr2 t of
                (r, t') \<Rightarrow> (FX_ret r, t')))
      else (FX_ret (Inl ENOSYS), t))"

section \<open>Wait queues as lists\<close>

definition list_wq :: "task list wq_ops" where
  "list_wq = \<lparr>wq_new = [], wq_block = (\<lambda>t q. q @ [t]),
     wq_notify_one = (\<lambda>q. (q \<noteq> [], tl q)),
     wq_requeue = (\<lambda>n q q2. (min n (length q), drop n q, q2 @ take n q)),
     wq_is_empty = (\<lambda>q. q = [])\<rparr>"

interpretation list_queue: wait_queue list_wq "\<lambda>q. q"
  by unfold_locales (simp_all add: list_wq_def)

section \<open>Effects of the operations\<close>

lemma WaitQueueGuard_drop_kept:
  assumes "ft_map t (fst g) = Some (snd g)" "0 < ft_guards t (snd g)"
  shows "WaitQueueGuard_drop W g t =
    t\<lparr>ft_guards := (ft_guards t)(snd g := ft_guards t (snd g) - 1)\<rparr>"
  using assms by (simp add: WaitQueueGuard_drop_def strong_count_def)

lemma new_guard_drop:
  assumes "ft_map t addr = Some i"
  shows "WaitQueueGuard_drop W (addr, i)
      (t\<lparr>ft_guards := (ft_guards t)(i := Suc (ft_guards t i)), ft_queues := Q\<rparr>) = t\<lparr>ft_queues := Q\<rparr>"
  using assms by (simp add: WaitQueueGuard_drop_def strong_count_def)

lemma get_or_insert_effect:
  assumes "get_or_insert W addr t = (g, t')"
  shows "fst g = addr" "ft_map t' = (ft_map t)(addr \<mapsto> snd g)"
    "ft_guards t' = (ft_guards t)(snd g := Suc (ft_guards t (snd g)))" "ft_next t \<le> ft_next t'"
    "case ft_map t addr of
       Some i \<Rightarrow> snd g = i \<and> ft_queues t' = ft_queues t \<and> ft_next t' = ft_next t
     | None \<Rightarrow> snd g = ft_next t \<and> ft_queues t' = (ft_queues t)(ft_next t := wq_new W)
         \<and> ft_next t' = Suc (ft_next t)"
proof -
  have "ft_map t addr = Some i \<Longrightarrow> (ft_map t)(addr \<mapsto> i) = ft_map t" for i by auto
  with assms show "fst g = addr" "ft_map t' = (ft_map t)(addr \<mapsto> snd g)"
    "ft_guards t' = (ft_guards t)(snd g := Suc (ft_guards t (snd g)))" "ft_next t \<le> ft_next t'"
    "case ft_map t addr of
       Some i \<Rightarrow> snd g = i \<and> ft_queues t' = ft_queues t \<and> ft_next t' = ft_next t
     | None \<Rightarrow> snd g = ft_next t \<and> ft_queues t' = (ft_queues t)(ft_next t := wq_new W)
         \<and> ft_next t' = Suc (ft_next t)"
    by (auto simp: get_or_insert_def new_guard_def Let_def split: option.splits)
qed

text \<open>The queues of the table are allocated and not shared between addresses.\<close>

definition table_ok :: "'q FutexTable \<Rightarrow> bool" where
  "table_ok t \<longleftrightarrow> (\<forall>a i. ft_map t a = Some i \<longrightarrow> i < ft_next t \<and> (\<forall>b. ft_map t b = Some i \<longrightarrow> b = a))"

context wait_queue
begin

lemma notify_loop_effect:
  "notify_loop W n c q = (c', q') \<Longrightarrow>
   c' = c + of_nat (min n (length (waiters q))) \<and> waiters q' = drop n (waiters q)"
proof (induction n arbitrary: c q)
  case (Suc n)
  obtain r q1 where one: "wq_notify_one W q = (r, q1)" by fastforce
  show ?case
  proof (cases "waiters q")
    case Nil
    with one Suc.prems show ?thesis
      using notify_result [of q] waiters_notify [of q] by simp
  next
    case (Cons x xs)
    with one have "r" "waiters q1 = xs"
      using notify_result [of q] waiters_notify [of q] by simp_all
    with Suc.IH [of "c + 1" q1] Suc.prems one Cons show ?thesis by simp
  qed
qed simp

lemma futex_wake_effect:
  assumes "ft_map t addr = Some i"
  shows "\<exists>q. futex_wake W addr value t =
      (Inr (of_nat (min (unat value) (length (waiters (ft_queues t i))))),
       t\<lparr>ft_queues := (ft_queues t)(i := q)\<rparr>)
    \<and> waiters q = drop (unat value) (waiters (ft_queues t i))"
proof -
  obtain c q where loop: "notify_loop W (unat value) 0 (ft_queues t i) = (c, q)" by fastforce
  with notify_loop_effect [OF loop] new_guard_drop [OF assms, of W "(ft_queues t)(i := q)"] assms
  show ?thesis
    by (auto simp: futex_wake_def FutexTable_get_def new_guard_def intro!: exI [of _ q])
qed

end

text \<open>The tasks waiting at an address.\<close>

definition queue_at :: "('q \<Rightarrow> task list) \<Rightarrow> 'q FutexTable \<Rightarrow> usize \<Rightarrow> task list" where
  "queue_at waiters t addr = (case ft_map t addr of None \<Rightarrow> [] | Some i \<Rightarrow> waiters (ft_queues t i))"

lemma queue_at_cong:
  "ft_map t = ft_map t' \<Longrightarrow> ft_queues t = ft_queues t' \<Longrightarrow> queue_at waiters t = queue_at waiters t'"
  by (simp add: queue_at_def fun_eq_iff split: option.split)

context wait_queue
begin

lemma futex_wake_at:
  assumes "table_ok t"
  shows "\<exists>t'. futex_wake W addr value t = (Inr (of_nat (min (unat value) (length (queue_at waiters t addr)))), t')
    \<and> queue_at waiters t' = (queue_at waiters t)(addr := drop (unat value) (queue_at waiters t addr))
    \<and> ft_map t' = ft_map t \<and> ft_guards t' = ft_guards t \<and> ft_next t' = ft_next t"
proof (cases "ft_map t addr")
  case None
  then show ?thesis by (auto simp: futex_wake_def FutexTable_get_def queue_at_def)
next
  case (Some i)
  obtain q where q: "futex_wake W addr value t =
      (Inr (of_nat (min (unat value) (length (waiters (ft_queues t i))))),
       t\<lparr>ft_queues := (ft_queues t)(i := q)\<rparr>)"
    "waiters q = drop (unat value) (waiters (ft_queues t i))"
    using futex_wake_effect [OF Some] by blast
  have "queue_at waiters (t\<lparr>ft_queues := (ft_queues t)(i := q)\<rparr>) =
      (queue_at waiters t)(addr := drop (unat value) (queue_at waiters t addr))"
    using Some assms q(2) by (fastforce simp: queue_at_def table_ok_def fun_eq_iff split: option.splits)
  with q(1) Some show ?thesis by (simp add: queue_at_def)
qed

lemma count_eq_value: "of_nat (min (unat value) n) = (ucast (value :: u32) :: isize) \<longleftrightarrow> unat value \<le> n"
proof -
  have "min (unat value) n < 2 ^ 64"
    using unsigned_less [of "value", where 'a = nat] by simp
  then have "unat (of_nat (min (unat value) n) :: isize) = min (unat value) n"
    by (simp add: unsigned_of_nat take_bit_nat_eq_self)
  moreover have "unat (ucast value :: isize) = unat value"
    using unsigned_less [of "value", where 'a = nat] by (simp add: unsigned_ucast_eq take_bit_nat_eq_self)
  ultimately show ?thesis unfolding word_unat_eq_iff by auto
qed

lemma get_or_insert_at:
  assumes "table_ok t" "get_or_insert W addr t = (g, t')"
  shows "table_ok t'" "queue_at waiters t' = queue_at waiters t" "ft_map t \<subseteq>\<^sub>m ft_map t'"
proof -
  note eff = get_or_insert_effect [OF assms(2)]
  have "table_ok t' \<and> queue_at waiters t' = queue_at waiters t \<and> ft_map t \<subseteq>\<^sub>m ft_map t'"
  proof (cases "ft_map t addr")
    case None
    then have t': "ft_map t' = (ft_map t)(addr \<mapsto> ft_next t)" "ft_next t' = Suc (ft_next t)"
      "ft_queues t' = (ft_queues t)(ft_next t := wq_new W)" using eff(2,5) by simp_all
    have fresh: "ft_map t a \<noteq> Some (ft_next t)" for a using assms(1) by (auto simp: table_ok_def)
    have "queue_at waiters t' a = queue_at waiters t a" for a
      using None fresh [of a] waiters_new by (auto simp: queue_at_def t' split: option.split)
    moreover have "table_ok t'"
      using assms(1) fresh by (simp add: table_ok_def t') (metis less_SucI option.inject)
    ultimately show ?thesis using None by (auto simp: t' map_le_def)
  next
    case (Some i)
    then have "ft_map t' = ft_map t" "ft_next t' = ft_next t" "ft_queues t' = ft_queues t"
      using eff(2,5) by auto
    with assms(1) show ?thesis using queue_at_cong [of t' t] by (simp add: table_ok_def)
  qed
  then show "table_ok t'" "queue_at waiters t' = queue_at waiters t" "ft_map t \<subseteq>\<^sub>m ft_map t'"
    by simp_all
qed

lemma get_or_insert_drop:
  assumes "get_or_insert W addr t = (g, t')"
  shows "WaitQueueGuard_drop W g (t'\<lparr>ft_queues := Q\<rparr>) = t'\<lparr>ft_queues := Q, ft_guards := ft_guards t\<rparr>"
  using get_or_insert_effect(1-3) [OF assms] by (subst WaitQueueGuard_drop_kept) auto

text \<open>Replacing the queues of two addresses.\<close>

lemma queue_at_update2:
  assumes "table_ok t" "ft_map t a = Some i" "ft_map t b = Some j" "a \<noteq> b"
  shows "queue_at waiters (t\<lparr>ft_queues := (ft_queues t)(i := q, j := q')\<rparr>) =
    (queue_at waiters t)(a := waiters q, b := waiters q')"
proof
  fix x
  have "i \<noteq> j" using assms by (auto simp: table_ok_def)
  moreover have "x \<noteq> a \<Longrightarrow> ft_map t x \<noteq> Some i" "x \<noteq> b \<Longrightarrow> ft_map t x \<noteq> Some j"
    using assms by (auto simp: table_ok_def)
  ultimately show "queue_at waiters (t\<lparr>ft_queues := (ft_queues t)(i := q, j := q')\<rparr>) x =
      ((queue_at waiters t)(a := waiters q, b := waiters q')) x"
    using assms by (auto simp: queue_at_def split: option.split)
qed

lemma table_ok_queues [simp]: "table_ok (t\<lparr>ft_queues := Q\<rparr>) = table_ok t"
  "table_ok (t\<lparr>ft_guards := G\<rparr>) = table_ok t"
  by (simp_all add: table_ok_def)

lemma queue_at_guards [simp]: "queue_at waiters (t\<lparr>ft_guards := G\<rparr>) = queue_at waiters t"
  by (rule queue_at_cong) simp_all

lemma futex_requeue_at:
  assumes "table_ok t" "addr \<noteq> addr2"
    and "ws = queue_at waiters t addr" "woken = min (unat value) (length ws)"
    and "moved = (if unat value \<le> length ws then min (unat value2) (length ws - unat value) else 0)"
  shows "\<exists>t'. futex_requeue W addr value value2 addr2 t = (Inr (of_nat (woken + moved)), t')
    \<and> queue_at waiters t' = (queue_at waiters t)
        (addr := drop (woken + moved) ws, addr2 := queue_at waiters t addr2 @ take moved (drop woken ws))
    \<and> table_ok t' \<and> ft_map t \<subseteq>\<^sub>m ft_map t' \<and> ft_guards t' = ft_guards t"
proof (cases "ft_map t addr")
  case None
  obtain g2 t2 where ins: "get_or_insert W addr2 t = (g2, t2)" by fastforce
  have "ws = []" using None assms(3) by (simp add: queue_at_def)
  then have "woken = 0" "moved = 0" using assms(4,5) by simp_all
  moreover have "futex_requeue W addr value value2 addr2 t = (Inr 0, t2\<lparr>ft_guards := ft_guards t\<rparr>)"
    using None get_or_insert_drop [OF ins, of "ft_queues t2"] ins
    by (simp add: futex_requeue_def FutexTable_get_def)
  ultimately show ?thesis
    using get_or_insert_at [OF assms(1) ins] \<open>ws = []\<close> assms(3) by (auto simp: fun_eq_iff)
next
  case (Some i)
  define t1 where "t1 = t\<lparr>ft_guards := (ft_guards t)(i := Suc (ft_guards t i))\<rparr>"
  obtain g2 t2 where ins: "get_or_insert W addr2 t1 = (g2, t2)" by fastforce
  define j where "j = snd g2"
  obtain c q where loop: "notify_loop W (unat value) 0 (ft_queues t2 i) = (c, q)" by fastforce
  have ok1: "table_ok t1" using assms(1) by (simp add: t1_def)
  note at = get_or_insert_at [OF ok1 ins] and eff = get_or_insert_effect [OF ins]
  have m: "ft_map t2 addr = Some i" "ft_map t2 addr2 = Some j"
    using Some assms(2) eff(2) by (simp_all add: t1_def j_def)
  have ij: "i \<noteq> j" using at(1) m assms(2) by (auto simp: table_ok_def)
  have ws: "waiters (ft_queues t2 i) = ws" and ws2: "waiters (ft_queues t2 j) = queue_at waiters t addr2"
    using fun_cong [OF at(2), of addr] fun_cong [OF at(2), of addr2] assms(3) m
    by (simp_all add: queue_at_def [of _ t2] t1_def)
  have drop2: "WaitQueueGuard_drop W g2 (WaitQueueGuard_drop W (addr, i) (t2\<lparr>ft_queues := Q\<rparr>)) =
      t2\<lparr>ft_queues := Q, ft_guards := ft_guards t\<rparr>" for Q
    using eff(1,3) m ij
    by (simp add: WaitQueueGuard_drop_kept j_def t1_def fun_eq_iff)
  have cq: "c = of_nat woken" "waiters q = drop (unat value) ws"
    using notify_loop_effect [OF loop] by (simp_all add: ws assms(4))
  show ?thesis
  proof (cases "unat value \<le> length ws")
    case True
    obtain k q' q2' where rq: "wq_requeue W (unat value2) q (ft_queues t2 j) = (k, q', q2')"
      by (metis prod_cases3)
    let ?Q = "(ft_queues t2)(i := q', j := q2')"
    have "futex_requeue W addr value value2 addr2 t =
        (Inr (c + of_nat k), t2\<lparr>ft_queues := ?Q, ft_guards := ft_guards t\<rparr>)"
      using Some ins loop rq True cq(1) assms(4) drop2 [of ?Q] ij count_eq_value [of "value" "length ws"]
      by (simp add: futex_requeue_def FutexTable_get_def new_guard_def t1_def [symmetric] j_def Let_def)
    moreover have "queue_at waiters (t2\<lparr>ft_queues := ?Q\<rparr>) =
        (queue_at waiters t)(addr := waiters q', addr2 := waiters q2')"
      using queue_at_update2 [OF at(1) m assms(2)] at(2) by (simp add: t1_def)
    moreover note waiters_requeue [OF rq]
    ultimately show ?thesis
      using True cq ws2 at(1,3) assms(4,5)
      by (simp add: t1_def min_def add.commute)
  next
    case False
    let ?Q = "(ft_queues t2)(i := q)"
    have "futex_requeue W addr value value2 addr2 t = (Inr c, t2\<lparr>ft_queues := ?Q, ft_guards := ft_guards t\<rparr>)"
      using Some ins loop False cq(1) assms(4) drop2 [of ?Q] count_eq_value [of "value" "length ws"]
      by (simp add: futex_requeue_def FutexTable_get_def new_guard_def t1_def [symmetric] j_def Let_def)
    moreover have "queue_at waiters (t2\<lparr>ft_queues := ?Q\<rparr>) =
        (queue_at waiters t)(addr := waiters q, addr2 := queue_at waiters t addr2)"
      using queue_at_update2 [OF at(1) m assms(2), of q "ft_queues t2 j"] at(2) ws2 ij
      by (simp add: t1_def fun_upd_idem)
    ultimately show ?thesis
      using False cq at(1,3) assms(4,5) by (simp add: t1_def)
  qed
qed

end

section \<open>The tasks of a process\<close>

text \<open>
  The tasks of one process run \<^verbatim>\<open>sys_futex\<close> concurrently. A waiting task passes through three
  points: it has compared the futex word with the expected value, it has taken a guard of the
  queue (\<open>get_or_insert\<close>), it is in the queue. Between two points any other task may run. A step
  is labelled by what happens.
\<close>

datatype pc = User | Checked usize | Holding guard | Waiting guard

record 'q futex_sys =
  fs_table :: "'q FutexTable"
  fs_mem :: "usize \<Rightarrow> u32"
  fs_pc :: "task \<Rightarrow> pc"

datatype event = Store task usize u32 | WaitCheck task usize u32 | WaitEnter task | WaitBlock task
  | Wake task usize u32 isize | Requeue task usize u32 u32 usize isize | Resume task

inductive futex_step ::
  "'q wq_ops \<Rightarrow> ('q \<Rightarrow> task list) \<Rightarrow> event \<Rightarrow> 'q futex_sys \<Rightarrow> 'q futex_sys \<Rightarrow> bool"
  for W waiters where
  store: "fs_pc s t = User \<Longrightarrow>
    futex_step W waiters (Store t a v) s (s\<lparr>fs_mem := (fs_mem s)(a := v)\<rparr>)"
| wait_check: "fs_pc s t = User \<Longrightarrow> fs_mem s a = v \<Longrightarrow>
    futex_step W waiters (WaitCheck t a v) s (s\<lparr>fs_pc := (fs_pc s)(t := Checked a)\<rparr>)"
| wait_enter: "fs_pc s t = Checked a \<Longrightarrow> get_or_insert W a (fs_table s) = (g, tbl) \<Longrightarrow>
    futex_step W waiters (WaitEnter t) s (s\<lparr>fs_table := tbl, fs_pc := (fs_pc s)(t := Holding g)\<rparr>)"
| wait_block: "fs_pc s t = Holding g \<Longrightarrow>
    futex_step W waiters (WaitBlock t) s
      (s\<lparr>fs_table := (fs_table s)\<lparr>ft_queues := (ft_queues (fs_table s))
           (snd g := wq_block W t (ft_queues (fs_table s) (snd g)))\<rparr>,
         fs_pc := (fs_pc s)(t := Waiting g)\<rparr>)"
| wake: "fs_pc s t = User \<Longrightarrow> futex_wake W a v (fs_table s) = (Inr n, tbl) \<Longrightarrow>
    futex_step W waiters (Wake t a v n) s (s\<lparr>fs_table := tbl\<rparr>)"
| requeue: "fs_pc s t = User \<Longrightarrow> a \<noteq> a2 \<Longrightarrow> futex_requeue W a v v2 a2 (fs_table s) = (Inr n, tbl) \<Longrightarrow>
    futex_step W waiters (Requeue t a v v2 a2 n) s (s\<lparr>fs_table := tbl\<rparr>)"
| resume: "fs_pc s t = Waiting g \<Longrightarrow> \<forall>i. t \<notin> set (waiters (ft_queues (fs_table s) i)) \<Longrightarrow>
    futex_wait_return W g (fs_table s) = (Inr 0, tbl) \<Longrightarrow>
    futex_step W waiters (Resume t) s (s\<lparr>fs_table := tbl, fs_pc := (fs_pc s)(t := User)\<rparr>)"

inductive futex_run ::
  "'q wq_ops \<Rightarrow> ('q \<Rightarrow> task list) \<Rightarrow> event list \<Rightarrow> 'q futex_sys \<Rightarrow> 'q futex_sys \<Rightarrow> bool"
  for W waiters where
  run_nil: "futex_run W waiters [] s s"
| run_cons: "futex_step W waiters e s s' \<Longrightarrow> futex_run W waiters es s' s'' \<Longrightarrow>
    futex_run W waiters (e # es) s s''"

inductive_cases futex_stepE: "futex_step W waiters e s s'"
inductive_cases futex_run_nilE: "futex_run W waiters [] s s'"
inductive_cases futex_run_consE: "futex_run W waiters (e # es) s s'"

definition futex_start :: "'q wq_ops \<Rightarrow> (usize \<Rightarrow> u32) \<Rightarrow> 'q futex_sys" where
  "futex_start W mem = \<lparr>fs_table = FutexTable_new W, fs_mem = mem, fs_pc = (\<lambda>_. User)\<rparr>"

text \<open>Every guard a task holds is in the table, and the guards alive are exactly those of the tasks.\<close>

fun guard_of :: "pc \<Rightarrow> guard option" where
  "guard_of User = None"
| "guard_of (Checked a) = None"
| "guard_of (Holding g) = Some g"
| "guard_of (Waiting g) = Some g"

definition holders :: "'q futex_sys \<Rightarrow> nat \<Rightarrow> task set" where
  "holders s i = {t. \<exists>a. guard_of (fs_pc s t) = Some (a, i)}"

definition futex_inv :: "'q futex_sys \<Rightarrow> bool" where
  "futex_inv s \<longleftrightarrow> table_ok (fs_table s)
     \<and> (\<forall>t g. guard_of (fs_pc s t) = Some g \<longrightarrow> ft_map (fs_table s) (fst g) = Some (snd g))
     \<and> (\<forall>i. finite (holders s i) \<and> ft_guards (fs_table s) i = card (holders s i))"

lemma futex_inv_start: "futex_inv (futex_start W mem)"
  by (simp add: futex_inv_def futex_start_def FutexTable_new_def table_ok_def holders_def)

lemma holders_cong: "fs_pc s' = fs_pc s \<Longrightarrow> holders s' = holders s"
  by (simp add: holders_def fun_eq_iff)

lemma holders_update:
  "fs_pc s' = (fs_pc s)(t := p) \<Longrightarrow> holders s' i =
     (if \<exists>a. guard_of p = Some (a, i) then insert t (holders s i) else holders s i - {t})"
  by (auto simp: holders_def)

lemma not_holder: "guard_of (fs_pc s t) = None \<Longrightarrow> t \<notin> holders s i"
  by (simp add: holders_def)

text \<open>A change of the table that keeps its entries and the guards.\<close>

lemma futex_inv_table:
  assumes "futex_inv s" "fs_pc s' = fs_pc s" "table_ok (fs_table s')"
    and "ft_map (fs_table s) \<subseteq>\<^sub>m ft_map (fs_table s')" "ft_guards (fs_table s') = ft_guards (fs_table s)"
  shows "futex_inv s'"
proof -
  have "ft_map (fs_table s') a = Some i" if "ft_map (fs_table s) a = Some i" for a i
    using assms(4) that by (force simp: map_le_def dom_def)
  with assms(1-3,5) holders_cong [OF assms(2)] show ?thesis by (auto simp: futex_inv_def)
qed

text \<open>Moving a task between points that hold the same guard, or none.\<close>

lemma futex_inv_pc:
  assumes "futex_inv s" "fs_pc s' = (fs_pc s)(t := p)" "guard_of p = guard_of (fs_pc s t)"
    and "table_ok (fs_table s')" "ft_map (fs_table s') = ft_map (fs_table s)"
    and "ft_guards (fs_table s') = ft_guards (fs_table s)"
  shows "futex_inv s'"
proof -
  have "holders s' i = holders s i" for i
    using assms(2,3) by (auto simp: holders_def)
  with assms show ?thesis by (auto simp: futex_inv_def)
qed

lemma futex_inv_enter:
  assumes "futex_inv s" "guard_of (fs_pc s t) = None" "fs_pc s' = (fs_pc s)(t := Holding g)"
    and "table_ok (fs_table s')" "ft_map (fs_table s) \<subseteq>\<^sub>m ft_map (fs_table s')"
    and "ft_map (fs_table s') (fst g) = Some (snd g)"
    and "ft_guards (fs_table s') = (ft_guards (fs_table s))(snd g := Suc (ft_guards (fs_table s) (snd g)))"
  shows "futex_inv s'"
proof -
  have kept: "ft_map (fs_table s') a = Some i" if "ft_map (fs_table s) a = Some i" for a i
    using assms(5) that by (force simp: map_le_def dom_def)
  have "holders s' i = (if i = snd g then insert t (holders s i) else holders s i)" for i
    using holders_update [OF assms(3), of i] not_holder [of s t i] assms(2) by (cases g) auto
  with assms kept not_holder [of s t] show ?thesis by (auto simp: futex_inv_def)
qed

lemma futex_inv_leave:
  assumes "futex_inv s" "guard_of (fs_pc s t) = Some g" "fs_pc s' = (fs_pc s)(t := User)"
    and "fs_table s' = WaitQueueGuard_drop W g (fs_table s)"
  shows "futex_inv s'" "ft_map (fs_table s') = ft_map (fs_table s)"
proof -
  have t: "t \<in> holders s (snd g)" using assms(2) by (cases g) (auto simp: holders_def)
  have fin: "finite (holders s (snd g))" and card: "ft_guards (fs_table s) (snd g) = card (holders s (snd g))"
    using assms(1) by (simp_all add: futex_inv_def)
  have m: "ft_map (fs_table s) (fst g) = Some (snd g)" using assms(1,2) by (simp add: futex_inv_def)
  have "0 < ft_guards (fs_table s) (snd g)" using t fin card by (auto simp: card_gt_0_iff)
  note tbl = WaitQueueGuard_drop_kept [OF m this, of W]
  show "ft_map (fs_table s') = ft_map (fs_table s)" by (simp add: assms(4) tbl)
  have "holders s' i = (if i = snd g then holders s i - {t} else holders s i)" for i
    using holders_update [OF assms(3), of i] assms(2) by (cases g) (auto simp: holders_def)
  with assms(1-3) t fin card show "futex_inv s'"
    by (auto simp: futex_inv_def assms(4) tbl table_ok_def)
qed

context wait_queue
begin

lemma futex_step_inv:
  assumes "futex_step W waiters e s s'" "futex_inv s"
  shows "futex_inv s' \<and> ft_map (fs_table s) \<subseteq>\<^sub>m ft_map (fs_table s')"
  using assms(1)
proof cases
  case (store t a v)
  then show ?thesis using futex_inv_table [OF assms(2), of s'] assms(2) by (simp add: futex_inv_def)
next
  case (wait_check t a v)
  then show ?thesis using futex_inv_pc [OF assms(2), of s' t "Checked a"] assms(2)
    by (simp add: futex_inv_def)
next
  case (wait_enter t a g tbl)
  have ok: "table_ok (fs_table s)" using assms(2) by (simp add: futex_inv_def)
  note at = get_or_insert_at [OF ok wait_enter(4)] and eff = get_or_insert_effect [OF wait_enter(4)]
  have "futex_inv s'"
    using wait_enter at eff by (intro futex_inv_enter [OF assms(2), of t s' g]) simp_all
  then show ?thesis using wait_enter at by simp
next
  case (wait_block t g)
  then show ?thesis using futex_inv_pc [OF assms(2), of s' t "Waiting g"] assms(2)
    by (simp add: futex_inv_def)
next
  case (wake t a v n tbl)
  have ok: "table_ok (fs_table s)" using assms(2) by (simp add: futex_inv_def)
  from futex_wake_at [OF ok, of a v] wake have "ft_map tbl = ft_map (fs_table s)"
    "ft_guards tbl = ft_guards (fs_table s)" "ft_next tbl = ft_next (fs_table s)" by auto
  with ok wake futex_inv_table [OF assms(2), of s'] show ?thesis by (simp add: table_ok_def)
next
  case (requeue t a a2 v v2 n tbl)
  have ok: "table_ok (fs_table s)" using assms(2) by (simp add: futex_inv_def)
  from futex_requeue_at [OF ok requeue(4) refl refl refl, of v v2] requeue
  have "table_ok tbl" "ft_map (fs_table s) \<subseteq>\<^sub>m ft_map tbl" "ft_guards tbl = ft_guards (fs_table s)" by auto
  with requeue futex_inv_table [OF assms(2), of s'] show ?thesis by simp
next
  case (resume t g tbl)
  then show ?thesis using futex_inv_leave [OF assms(2), of t g s' W] by (simp add: futex_wait_return_def)
qed

lemma futex_run_inv:
  "futex_run W waiters es s s' \<Longrightarrow> futex_inv s \<Longrightarrow>
   futex_inv s' \<and> ft_map (fs_table s) \<subseteq>\<^sub>m ft_map (fs_table s')"
proof (induction rule: futex_run.induct)
  case (run_cons e s s' es s'')
  then show ?case using futex_step_inv map_le_trans by blast
qed simp

text \<open>Only a wake or a requeue takes a task out of a queue.\<close>

lemma futex_step_still_waiting:
  assumes "futex_step W waiters e s s'" "\<And>u a v n. e \<noteq> Wake u a v n" "\<And>u a v v2 b n. e \<noteq> Requeue u a v v2 b n"
    and "fs_pc s t = Waiting g" "i < ft_next (fs_table s)" "t \<in> set (waiters (ft_queues (fs_table s) i))"
  shows "fs_pc s' t = Waiting g \<and> i < ft_next (fs_table s') \<and> t \<in> set (waiters (ft_queues (fs_table s') i))"
  using assms(1)
proof cases
  case (wait_enter u a h tbl)
  with assms(4-6) get_or_insert_effect(4,5) [OF wait_enter(4)] show ?thesis
    by (auto split: option.splits)
next
  case (wait_block u h)
  with assms(4-6) show ?thesis by (auto simp: waiters_block)
next
  case (resume u h tbl)
  with assms(4-6) show ?thesis
    by (auto simp: futex_wait_return_def WaitQueueGuard_drop_def Let_def)
qed (use assms in auto)

end

fun takes_out :: "event \<Rightarrow> bool" where
  "takes_out (Wake _ _ _ _) = True"
| "takes_out (Requeue _ _ _ _ _ _) = True"
| "takes_out _ = False"

context wait_queue
begin

lemma futex_run_still_waiting:
  assumes "futex_run W waiters es s s'" "\<not> list_ex takes_out es"
    and "fs_pc s t = Waiting g" "i < ft_next (fs_table s)" "t \<in> set (waiters (ft_queues (fs_table s) i))"
  shows "fs_pc s' t = Waiting g"
  using assms
proof (induction rule: futex_run.induct)
  case (run_cons e s s' es s'')
  have "fs_pc s' t = Waiting g \<and> i < ft_next (fs_table s') \<and> t \<in> set (waiters (ft_queues (fs_table s') i))"
    using run_cons.prems by (intro futex_step_still_waiting [OF run_cons.hyps(1)]) auto
  with run_cons show ?case by simp
qed simp

lemma lost_wakeup_run:
  assumes "mem a = 0"
  shows "\<exists>s. futex_run W waiters [WaitCheck 1 a 0, Store 2 a 1, Wake 2 a 1 0, WaitEnter 1, WaitBlock 1]
      (futex_start W mem) s
    \<and> fs_mem s a = 1 \<and> fs_pc s 1 = Waiting (a, 0) \<and> 0 < ft_next (fs_table s)
    \<and> waiters (ft_queues (fs_table s) 0) = [1] \<and> fs_pc s 2 = User \<and> ft_map (fs_table s) a = Some 0"
proof -
  define s1 where "s1 = (futex_start W mem)\<lparr>fs_pc := (fs_pc (futex_start W mem))(1 := Checked a)\<rparr>"
  define s2 where "s2 = s1\<lparr>fs_mem := (fs_mem s1)(a := 1)\<rparr>"
  define tbl where "tbl = snd (get_or_insert W a (fs_table s2))"
  define s3 where "s3 = s2\<lparr>fs_table := tbl, fs_pc := (fs_pc s2)(1 := Holding (a, 0))\<rparr>"
  define s4 where "s4 = s3\<lparr>fs_table := (fs_table s3)\<lparr>ft_queues := (ft_queues (fs_table s3))
           (snd (a, 0) := wq_block W 1 (ft_queues (fs_table s3) (snd (a, 0))))\<rparr>,
         fs_pc := (fs_pc s3)(1 := Waiting (a, 0))\<rparr>"
  note simps = s1_def s2_def s3_def futex_start_def FutexTable_new_def
  have "futex_step W waiters (WaitCheck 1 a 0) (futex_start W mem) s1"
    unfolding s1_def using assms by (intro wait_check) (simp_all add: futex_start_def)
  moreover have "futex_step W waiters (Store 2 a 1) s1 s2"
    unfolding s2_def by (intro store) (simp add: simps)
  moreover have "futex_step W waiters (Wake 2 a 1 0) s2 s2"
    using wake [of s2 2 W a 1 0 "fs_table s2" waiters]
    by (simp add: simps futex_wake_def FutexTable_get_def)
  moreover have "futex_step W waiters (WaitEnter 1) s2 s3"
    unfolding s3_def
    by (intro wait_enter [of _ _ a]) (simp_all add: simps tbl_def get_or_insert_def new_guard_def Let_def)
  moreover have "futex_step W waiters (WaitBlock 1) s3 s4"
    unfolding s4_def by (intro wait_block) (simp add: s3_def)
  ultimately have "futex_run W waiters [WaitCheck 1 a 0, Store 2 a 1, Wake 2 a 1 0, WaitEnter 1, WaitBlock 1]
      (futex_start W mem) s4"
    by (meson run_cons run_nil)
  moreover have "fs_mem s4 a = 1" "fs_pc s4 1 = Waiting (a, 0)" "fs_pc s4 2 = User"
    by (simp_all add: s4_def simps)
  moreover have "0 < ft_next (fs_table s4)" "waiters (ft_queues (fs_table s4) 0) = [1]"
    "ft_map (fs_table s4) a = Some 0"
    by (simp_all add: s4_def simps tbl_def get_or_insert_def new_guard_def Let_def waiters_block waiters_new)
  ultimately show ?thesis by blast
qed

end

section \<open>Properties\<close>

text \<open>
  C23. Waking and requeueing. \<^verbatim>\<open>FUTEX_WAKE\<close> wakes the tasks that have waited longest at the
  address, as many as asked for or as there are, and returns their number. \<^verbatim>\<open>FUTEX_REQUEUE\<close> does
  the same and, if it could wake as many as asked for, moves up to \<^verbatim>\<open>value2\<close> of the remaining
  ones, in order, behind the tasks waiting at the second address, and returns the sum. No other
  address is affected and all guards are released.
\<close>

theorem futex_wake_requeue_spec:
  assumes "wait_queue W waiters" "table_ok t" "addr \<noteq> addr2"
    and "ws = queue_at waiters t addr" "woken = min (unat value) (length ws)"
    and "moved = (if unat value \<le> length ws then min (unat value2) (length ws - unat value) else 0)"
  shows "(\<exists>t'. futex_wake W addr value t = (Inr (of_nat woken), t')
      \<and> queue_at waiters t' = (queue_at waiters t)(addr := drop woken ws) \<and> ft_guards t' = ft_guards t)
    \<and> (\<exists>t'. futex_requeue W addr value value2 addr2 t = (Inr (of_nat (woken + moved)), t')
      \<and> queue_at waiters t' = (queue_at waiters t)
          (addr := drop (woken + moved) ws, addr2 := queue_at waiters t addr2 @ take moved (drop woken ws))
      \<and> ft_guards t' = ft_guards t)"
proof -
  have "drop (unat value) ws = drop woken ws" using assms(5) by (simp add: min_def)
  then show ?thesis
    using wait_queue.futex_wake_at [OF assms(1,2), of addr "value"]
      wait_queue.futex_requeue_at [OF assms(1,2,3,4,5,6)] assms(4,5)
    by auto
qed

theorem futex_wake_requeue_spec_witness:
  "let t = \<lparr>ft_map = [8 \<mapsto> 0], ft_queues = (\<lambda>i. if i = 0 then [5, 6, 7] else []), ft_next = 1,
       ft_guards = (\<lambda>_. 0)\<rparr>
   in fst (futex_wake list_wq 8 2 t) = Inr 2 \<and> fst (futex_requeue list_wq 8 1 1 16 t) = Inr 2"
proof -
  let ?t = "\<lparr>ft_map = [8 \<mapsto> 0], ft_queues = (\<lambda>i. if i = 0 then [5, 6, 7] else []), ft_next = 1,
       ft_guards = (\<lambda>_. 0)\<rparr> :: task list FutexTable"
  have ok: "table_ok ?t" by (simp add: table_ok_def)
  have ws: "queue_at (\<lambda>q. q) ?t 8 = [5, 6, 7]" by (simp add: queue_at_def)
  note spec = futex_wake_requeue_spec [OF list_queue.wait_queue_axioms ok, of 8 16]
  show ?thesis
    using spec [OF _ ws [symmetric] refl refl, of 2 0] spec [OF _ ws [symmetric] refl refl, of 1 1]
    by (auto simp: Let_def)
qed



text \<open>
  C25. A wake-up can be lost. A task compares the futex word with the expected value; before it
  takes the queue, another task changes the word and calls \<^verbatim>\<open>FUTEX_WAKE\<close>, which returns 0. The
  first task then waits although the word has changed, and stays blocked for as long as nobody
  calls wake or requeue again.
\<close>

theorem futex_lost_wakeup:
  assumes "wait_queue W waiters" "mem a = 0"
  shows "\<exists>s. futex_run W waiters [WaitCheck 1 a 0, Store 2 a 1, Wake 2 a 1 0, WaitEnter 1, WaitBlock 1]
      (futex_start W mem) s
    \<and> fs_mem s a \<noteq> 0
    \<and> (\<forall>es s'. futex_run W waiters es s s' \<longrightarrow> \<not> list_ex takes_out es \<longrightarrow> fs_pc s' 1 = Waiting (a, 0))"
proof -
  obtain s where s: "futex_run W waiters [WaitCheck 1 a 0, Store 2 a 1, Wake 2 a 1 0, WaitEnter 1, WaitBlock 1]
      (futex_start W mem) s" "fs_mem s a = 1" "fs_pc s 1 = Waiting (a, 0)" "0 < ft_next (fs_table s)"
    "waiters (ft_queues (fs_table s) 0) = [1]"
    using wait_queue.lost_wakeup_run [OF assms(1), of mem a] assms(2) by blast
  then show ?thesis
    using wait_queue.futex_run_still_waiting [OF assms(1) _ _ s(3,4)] by (intro exI [of _ s]) auto
qed

theorem futex_lost_wakeup_witness:
  "\<exists>s. futex_run list_wq (\<lambda>q. q) [WaitCheck 1 64 0, Store 2 64 1, Wake 2 64 1 0, WaitEnter 1, WaitBlock 1]
      (futex_start list_wq (\<lambda>_. 0)) s \<and> fs_mem s 64 \<noteq> 0"
  using futex_lost_wakeup [OF list_queue.wait_queue_axioms, of "\<lambda>_. 0" 64] by blast

end
