(* ===== verification/Tasks.thy ===== *)
theory Tasks
  imports Prelude
begin

text \<open>
  Processes and threads: the tables of \<^verbatim>\<open>core/src/task.rs\<close> and the calls of
  \<^verbatim>\<open>api/src/imp/task\<close> that create, end and wait for them (\<^verbatim>\<open>clone.rs\<close>, \<^verbatim>\<open>exit.rs\<close>, \<^verbatim>\<open>wait.rs\<close>,
  \<^verbatim>\<open>thread.rs\<close>). The objects themselves belong to \<^verbatim>\<open>axprocess\<close>, which is not part of the sources:
  what a call reads from them is an argument, and what it does to them is part of its result.
\<close>

type_synonym Pid = u32
type_synonym Signo = u8

section \<open>The tables\<close>

text \<open>
  The four global tables are weak maps: an entry is found as long as the object is alive. A
  thread is given with the process it belongs to, that process's group and the group's session.
\<close>

record thread_view =
  tv_tid :: Pid
  tv_pid :: Pid
  tv_pgid :: Pid
  tv_sid :: Pid

record task_tables =
  THREAD_TABLE :: "Pid \<rightharpoonup> thread_view"
  PROCESS_TABLE :: "Pid \<rightharpoonup> Pid"
  PROCESS_GROUP_TABLE :: "Pid \<rightharpoonup> Pid"
  SESSION_TABLE :: "Pid \<rightharpoonup> Pid"

definition task_tables_new :: task_tables where
  "task_tables_new = \<lparr>THREAD_TABLE = Map.empty, PROCESS_TABLE = Map.empty,
     PROCESS_GROUP_TABLE = Map.empty, SESSION_TABLE = Map.empty\<rparr>"

definition add_thread_to_table :: "thread_view \<Rightarrow> task_tables \<Rightarrow> task_tables" where
  "add_thread_to_table thr T =
     (let T1 = T\<lparr>THREAD_TABLE := (THREAD_TABLE T)(tv_tid thr \<mapsto> thr)\<rparr>
      in if tv_pid thr \<in> dom (PROCESS_TABLE T1) then T1
      else let T2 = T1\<lparr>PROCESS_TABLE := (PROCESS_TABLE T1)(tv_pid thr \<mapsto> tv_pid thr)\<rparr>
      in if tv_pgid thr \<in> dom (PROCESS_GROUP_TABLE T2) then T2
      else let T3 = T2\<lparr>PROCESS_GROUP_TABLE := (PROCESS_GROUP_TABLE T2)(tv_pgid thr \<mapsto> tv_pgid thr)\<rparr>
      in if tv_sid thr \<in> dom (SESSION_TABLE T3) then T3
      else T3\<lparr>SESSION_TABLE := (SESSION_TABLE T3)(tv_sid thr \<mapsto> tv_sid thr)\<rparr>)"

definition get_thread :: "task_tables \<Rightarrow> Pid \<Rightarrow> thread_view LinuxResult" where
  "get_thread T tid = ok_or (THREAD_TABLE T tid) ESRCH"

definition get_process :: "task_tables \<Rightarrow> Pid \<Rightarrow> Pid LinuxResult" where
  "get_process T pid = ok_or (PROCESS_TABLE T pid) ESRCH"

definition get_process_group :: "task_tables \<Rightarrow> Pid \<Rightarrow> Pid LinuxResult" where
  "get_process_group T pgid = ok_or (PROCESS_GROUP_TABLE T pgid) ESRCH"

definition get_session :: "task_tables \<Rightarrow> Pid \<Rightarrow> Pid LinuxResult" where
  "get_session T sid = ok_or (SESSION_TABLE T sid) ESRCH"

section \<open>Waiting for children\<close>

text \<open>The \<^verbatim>\<open>W*\<close> constants of \<^verbatim>\<open>linux_raw_sys\<close> and \<^verbatim>\<open>SIGCHLD\<close> of \<^verbatim>\<open>axsignal\<close>.\<close>

record wait_abi =
  WNOHANG :: u32
  WUNTRACED :: u32
  WEXITED :: u32
  WCONTINUED :: u32
  WNOWAIT :: u32
  WNOTHREAD :: u32
  WALL :: u32
  WCLONE :: u32
  wait_SIGCHLD :: Signo

definition WaitOptions_all :: "wait_abi \<Rightarrow> u32" where
  "WaitOptions_all K = WNOHANG K OR WUNTRACED K OR WEXITED K OR WCONTINUED K OR WNOWAIT K
     OR WNOTHREAD K OR WALL K OR WCLONE K"

datatype WaitPid = WaitAny | WaitPid Pid | WaitPgid Pid

text \<open>
  What the call sees of a child. \<open>c_data\<close> is its \<^verbatim>\<open>ProcessData\<close> as far as it matters here: the exit
  signal, or \<open>None\<close> if the child has no such data.
\<close>

record child =
  c_pid :: Pid
  c_pgid :: Pid
  c_data :: "Signo option option"
  c_zombie :: bool
  c_exit_code :: i32
  c_freed :: bool

definition is_clone_child :: "wait_abi \<Rightarrow> Signo option \<Rightarrow> bool" where
  "is_clone_child K exit_signal \<longleftrightarrow> exit_signal \<noteq> Some (wait_SIGCHLD K)"

definition WaitPid_apply :: "WaitPid \<Rightarrow> child \<Rightarrow> bool" where
  "WaitPid_apply self child =
     (case self of
        WaitAny \<Rightarrow> True
      | WaitPid pid \<Rightarrow> c_pid child = pid
      | WaitPgid pgid \<Rightarrow> c_pgid child = pgid)"

definition wait_target :: "i32 \<Rightarrow> Pid \<Rightarrow> WaitPid" where
  "wait_target pid pgid =
     (if pid = - 1 then WaitAny
      else if pid = 0 then WaitPgid pgid
      else if 0 < sint pid then WaitPid pid
      else WaitPgid (- pid))"

definition wait_eligible :: "wait_abi \<Rightarrow> u32 \<Rightarrow> child \<Rightarrow> bool option" where
  "wait_eligible K options child =
     (if contains options (WALL K) then Some True
      else map_option (\<lambda>exit_signal. contains options (WCLONE K) = is_clone_child K exit_signal)
        (c_data child))"

fun wait_children :: "wait_abi \<Rightarrow> u32 \<Rightarrow> WaitPid \<Rightarrow> child list \<Rightarrow> child list option" where
  "wait_children K options target [] = Some []"
| "wait_children K options target (c # cs) =
     (if WaitPid_apply target c
      then Option.bind (wait_eligible K options c) (\<lambda>b.
             map_option (\<lambda>rest. if b then c # rest else rest) (wait_children K options target cs))
      else wait_children K options target cs)"

definition free_child :: "child \<Rightarrow> child list \<Rightarrow> child list" where
  "free_child child cs = map (\<lambda>c. if c_pid c = c_pid child then c\<lparr>c_freed := True\<rparr> else c) cs"

text \<open>
  The loop. Each element of the schedule is what happens to the selected children while the task
  waits in the queue of its process. The result holds the exit code stored through the pointer.
\<close>

fun waitpid_loop ::
  "wait_abi \<Rightarrow> u32 \<Rightarrow> bool \<Rightarrow> (child list \<Rightarrow> child list) list \<Rightarrow> child list \<Rightarrow>
   (isize LinuxResult \<times> i32 option, child list) call" where
  "waitpid_loop K options exit_code sched cs =
     (case find c_zombie cs of
        Some child \<Rightarrow>
          Done (Inr (ucast (c_pid child)), if exit_code then Some (c_exit_code child) else None)
            (if contains options (WNOWAIT K) then cs else free_child child cs)
      | None \<Rightarrow>
          if contains options (WNOHANG K) then Done (Inr 0, None) cs
          else (case sched of
                  [] \<Rightarrow> Pending cs
                | f # fs \<Rightarrow> waitpid_loop K options exit_code fs (f cs)))"

declare waitpid_loop.simps [simp del]

definition sys_waitpid ::
  "wait_abi \<Rightarrow> i32 \<Rightarrow> bool LinuxResult \<Rightarrow> u32 \<Rightarrow> Pid \<Rightarrow> (child list \<Rightarrow> child list) list \<Rightarrow>
   child list \<Rightarrow> (isize LinuxResult \<times> i32 option, child list) call" where
  "sys_waitpid K pid exit_code_ptr options pgid sched children =
     (let options = from_bits_truncate (WaitOptions_all K) options
      in case wait_children K options (wait_target pid pgid) children of
           None \<Rightarrow> Panic
         | Some [] \<Rightarrow> Done (Inl ECHILD, None) []
         | Some cs \<Rightarrow>
             (case exit_code_ptr of
                Inl e \<Rightarrow> Done (Inl e, None) cs
              | Inr exit_code \<Rightarrow> waitpid_loop K options exit_code sched cs))"

section \<open>Exiting\<close>

text \<open>
  The actions of \<^verbatim>\<open>do_exit\<close> in the order it performs them. Its arguments are what it reads: whether
  the \<^verbatim>\<open>clear_child_tid\<close> pointer is valid, whether a futex queue exists there, whether the thread is
  the last of its process, the parent and the exit signal, whether the group is already
  exiting, and the threads of the process at that point.
\<close>

datatype exit_action =
    ClearTid usize | FutexNotify usize | YieldNow | ThreadExit i32 | ProcessExit
  | SendParent Pid Signo | NotifyParent Pid | ClearFds | GroupExit | SendThread Pid Signo | TaskExit i32

record exit_view =
  ev_clear_tid :: "usize LinuxResult"
  ev_futex :: bool
  ev_last_thread :: bool
  ev_parent :: "Pid option"
  ev_exit_signal :: "Signo option"
  ev_parent_has_data :: bool
  ev_group_exited :: bool
  ev_threads :: "Pid list"

definition do_exit :: "Signo \<Rightarrow> i32 \<Rightarrow> bool \<Rightarrow> exit_view \<Rightarrow> exit_action list" where
  "do_exit SIGKILL exit_code group_exit v =
     (case ev_clear_tid v of
        Inl _ \<Rightarrow> []
      | Inr a \<Rightarrow> [ClearTid a] @ (if ev_futex v then [FutexNotify a] else []) @ [YieldNow]) @
     [ThreadExit exit_code] @
     (if ev_last_thread v then
        [ProcessExit] @
        (case ev_parent v of
           None \<Rightarrow> []
         | Some parent \<Rightarrow>
             (case ev_exit_signal v of None \<Rightarrow> [] | Some signo \<Rightarrow> [SendParent parent signo]) @
             (if ev_parent_has_data v then [NotifyParent parent] else [])) @
        [ProcessExit, ClearFds]
      else []) @
     (if group_exit \<and> \<not> ev_group_exited v
      then GroupExit # map (\<lambda>t. SendThread t SIGKILL) (ev_threads v) else []) @
     [TaskExit exit_code]"

definition sys_exit :: "Signo \<Rightarrow> i32 \<Rightarrow> exit_view \<Rightarrow> exit_action list" where
  "sys_exit SIGKILL exit_code v = do_exit SIGKILL (push_bit 8 exit_code) False v"

definition sys_exit_group :: "Signo \<Rightarrow> i32 \<Rightarrow> exit_view \<Rightarrow> exit_action list" where
  "sys_exit_group SIGKILL exit_code v = do_exit SIGKILL (push_bit 8 exit_code) True v"

section \<open>Cloning\<close>

record clone_abi =
  CLONE_VM :: u32
  CLONE_FS :: u32
  CLONE_FILES :: u32
  CLONE_SIGHAND :: u32
  CLONE_PTRACE :: u32
  CLONE_VFORK :: u32
  CLONE_PARENT :: u32
  CLONE_THREAD :: u32
  CLONE_NEWNS :: u32
  CLONE_SYSVSEM :: u32
  CLONE_SETTLS :: u32
  CLONE_PARENT_SETTID :: u32
  CLONE_CHILD_CLEARTID :: u32
  CLONE_UNTRACED :: u32
  CLONE_CHILD_SETTID :: u32
  CLONE_NEWCGROUP :: u32
  CLONE_NEWUTS :: u32
  CLONE_NEWIPC :: u32
  CLONE_NEWUSER :: u32
  CLONE_NEWPID :: u32
  CLONE_NEWNET :: u32
  CLONE_IO :: u32
  clone_SIGCHLD :: u32
  Signo_from_repr :: "u8 \<Rightarrow> Signo option"

definition CloneFlags_all :: "clone_abi \<Rightarrow> u32" where
  "CloneFlags_all K = CLONE_VM K OR CLONE_FS K OR CLONE_FILES K OR CLONE_SIGHAND K OR CLONE_PTRACE K
     OR CLONE_VFORK K OR CLONE_PARENT K OR CLONE_THREAD K OR CLONE_NEWNS K OR CLONE_SYSVSEM K
     OR CLONE_SETTLS K OR CLONE_PARENT_SETTID K OR CLONE_CHILD_CLEARTID K OR CLONE_UNTRACED K
     OR CLONE_CHILD_SETTID K OR CLONE_NEWCGROUP K OR CLONE_NEWUTS K OR CLONE_NEWIPC K
     OR CLONE_NEWUSER K OR CLONE_NEWPID K OR CLONE_NEWNET K OR CLONE_IO K"

text \<open>
  The extended data of a process. Its namespace, wait queues and futex table start empty and are
  kept by the components they belong to.
\<close>

datatype share = Shared | Copied

datatype actions = ActionsOf Pid | DefaultActions

record ProcessData =
  pd_exe_path :: string
  pd_aspace :: share
  pd_heap_bottom :: usize
  pd_heap_top :: usize
  pd_exit_signal :: "Signo option"
  pd_signal_actions :: actions

definition ProcessData_new :: "usize \<Rightarrow> string \<Rightarrow> share \<Rightarrow> actions \<Rightarrow> Signo option \<Rightarrow> ProcessData" where
  "ProcessData_new USER_HEAP_BASE exe_path aspace signal_actions exit_signal =
     \<lparr>pd_exe_path = exe_path, pd_aspace = aspace, pd_heap_bottom = USER_HEAP_BASE,
      pd_heap_top = USER_HEAP_BASE, pd_exit_signal = exit_signal, pd_signal_actions = signal_actions\<rparr>"

text \<open>
  What the call reads: the caller's process, its executable path and its parent, whether a process
  has process data, the group and session a process is in (a new one is in those of its parent), the
  identifier of the new task, the results of checking the two pointers and of cloning the address
  space, and the address at which the user heap starts.
\<close>

record clone_view =
  cv_pid :: Pid
  cv_exe_path :: string
  cv_parent :: "Pid option"
  cv_has_data :: "Pid \<Rightarrow> bool"
  cv_group :: "Pid \<Rightarrow> Pid \<times> Pid"
  cv_new_tid :: Pid
  cv_child_tid_ptr :: "unit LinuxResult"
  cv_parent_tid_ptr :: "unit LinuxResult"
  cv_clone_aspace :: "unit LinuxResult"
  cv_USER_HEAP_BASE :: usize

text \<open>
  The task that is created: a thread of the caller's process, or the first thread of a new one
  with the resources it shares with the caller or gets a copy of.
\<close>

record new_process =
  np_parent :: Pid
  np_data :: ProcessData
  np_files :: share
  np_fs :: share

record new_task =
  nt_tid :: Pid
  nt_process :: "Pid + new_process"
  nt_sp :: "usize option"
  nt_tls :: "usize option"
  nt_retval :: usize
  nt_set_child_tid :: "usize option"
  nt_clear_child_tid :: usize

definition clone_process ::
  "clone_abi \<Rightarrow> u32 \<Rightarrow> Signo option \<Rightarrow> clone_view \<Rightarrow> (Pid + new_process) LinuxResult" where
  "clone_process K flags exit_signal v =
     (if contains flags (CLONE_THREAD K) then Inr (Inl (cv_pid v))
      else
        try_then (if contains flags (CLONE_PARENT K) then ok_or (cv_parent v) EINVAL else Inr (cv_pid v)) (\<lambda>parent.
        try_then (if contains flags (CLONE_VM K) then Inr Shared
                  else try_then (cv_clone_aspace v) (\<lambda>_. Inr Copied)) (\<lambda>aspace.
        let signal_actions =
              (if contains flags (CLONE_SIGHAND K)
               then (if cv_has_data v parent then ActionsOf parent else DefaultActions)
               else DefaultActions)
        in Inr (Inr \<lparr>np_parent = parent,
             np_data = ProcessData_new (cv_USER_HEAP_BASE v) (cv_exe_path v) aspace signal_actions exit_signal,
             np_files = (if contains flags (CLONE_FILES K) then Shared else Copied),
             np_fs = (if contains flags (CLONE_FS K) then Shared else Copied)\<rparr>))))"

definition new_thread_view :: "clone_view \<Rightarrow> Pid \<Rightarrow> Pid + new_process \<Rightarrow> thread_view" where
  "new_thread_view v tid process =
     (case process of
        Inl pid \<Rightarrow> \<lparr>tv_tid = tid, tv_pid = pid, tv_pgid = fst (cv_group v pid), tv_sid = snd (cv_group v pid)\<rparr>
      | Inr np \<Rightarrow> \<lparr>tv_tid = tid, tv_pid = tid, tv_pgid = fst (cv_group v (np_parent np)),
                   tv_sid = snd (cv_group v (np_parent np))\<rparr>)"

text \<open>
  The effects of the call besides its result: the address at which the new identifier was stored
  for the parent (also when a later step fails), the tables, and the task that is spawned.
\<close>

record clone_effect =
  ce_parent_tid :: "usize option"
  ce_tables :: task_tables
  ce_spawned :: "new_task option"

definition sys_clone ::
  "clone_abi \<Rightarrow> u32 \<Rightarrow> usize \<Rightarrow> usize \<Rightarrow> usize \<Rightarrow> usize \<Rightarrow> clone_view \<Rightarrow> task_tables \<Rightarrow>
     isize LinuxResult \<times> clone_effect" where
  "sys_clone K flags stack parent_tid child_tid tls v T =
     (let FLAG_MASK = 0xff;
          exit_signal = flags AND FLAG_MASK;
          flags = from_bits_truncate (CloneFlags_all K) (flags AND NOT FLAG_MASK);
          fail = (\<lambda>e stored. (Inl e, \<lparr>ce_parent_tid = stored, ce_tables = T, ce_spawned = None\<rparr>))
      in if exit_signal \<noteq> 0 \<and> contains flags (CLONE_THREAD K OR CLONE_PARENT K) then fail EINVAL None
      else if contains flags (CLONE_THREAD K) \<and> \<not> contains flags (CLONE_VM K OR CLONE_SIGHAND K)
      then fail EINVAL None
      else
        let exit_signal = Signo_from_repr K (ucast exit_signal)
        in case (if contains flags (CLONE_CHILD_SETTID K)
                 then try_then (cv_child_tid_ptr v) (\<lambda>_. Inr (Some child_tid)) else Inr None) of
             Inl e \<Rightarrow> fail e None
           | Inr set_child_tid \<Rightarrow>
        (case (if contains flags (CLONE_PARENT_SETTID K)
               then try_then (cv_parent_tid_ptr v) (\<lambda>_. Inr (Some parent_tid)) else Inr None) of
             Inl e \<Rightarrow> fail e None
           | Inr stored \<Rightarrow>
        (case clone_process K flags exit_signal v of
             Inl e \<Rightarrow> fail e stored
           | Inr process \<Rightarrow>
               let new_task =
                     \<lparr>nt_tid = cv_new_tid v, nt_process = process,
                      nt_sp = (if stack \<noteq> 0 then Some stack else None),
                      nt_tls = (if contains flags (CLONE_SETTLS K) then Some tls else None),
                      nt_retval = 0, nt_set_child_tid = set_child_tid,
                      nt_clear_child_tid = (if contains flags (CLONE_CHILD_CLEARTID K) then child_tid else 0)\<rparr>
               in (Inr (ucast (cv_new_tid v)),
                   \<lparr>ce_parent_tid = stored,
                    ce_tables = add_thread_to_table (new_thread_view v (cv_new_tid v) process) T,
                    ce_spawned = Some new_task\<rparr>))))"

definition sys_fork :: "clone_abi \<Rightarrow> clone_view \<Rightarrow> task_tables \<Rightarrow> isize LinuxResult \<times> clone_effect" where
  "sys_fork K v T = sys_clone K (clone_SIGCHLD K) 0 0 0 0 v T"

section \<open>Identifiers\<close>

text \<open>\<^verbatim>\<open>sys_getppid\<close> unwraps the parent; \<open>None\<close> is its panic.\<close>

definition sys_getpid :: "thread_view \<Rightarrow> isize LinuxResult" where
  "sys_getpid thr = Inr (ucast (tv_pid thr))"

definition sys_getppid :: "Pid option \<Rightarrow> isize LinuxResult option" where
  "sys_getppid parent = map_option (\<lambda>p. Inr (ucast p)) parent"

definition sys_gettid :: "u64 \<Rightarrow> isize LinuxResult" where
  "sys_gettid tid = Inr tid"

definition sys_set_tid_address :: "u64 \<Rightarrow> usize \<Rightarrow> isize LinuxResult \<times> usize" where
  "sys_set_tid_address tid clear_child_tid = (Inr tid, clear_child_tid)"

section \<open>Properties\<close>

lemma wait_children_filter:
  assumes "wait_children K options target children = Some cs"
  shows "cs = filter (\<lambda>c. WaitPid_apply target c \<and> wait_eligible K options c = Some True) children"
  using assms
proof (induction children arbitrary: cs)
  case (Cons c children)
  then show ?case by (auto split: if_splits option.splits bind_splits)
qed simp

lemma wait_children_total:
  assumes "\<forall>c \<in> set children. c_data c \<noteq> None"
  shows "\<exists>cs. wait_children K options target children = Some cs"
  using assms by (induction children) (auto simp: wait_eligible_def)

lemma find_zombie: "find c_zombie cs = Some c \<Longrightarrow> c \<in> set cs \<and> c_zombie c"
  by (auto simp: find_Some_iff)

text \<open>The children after the first \<open>k\<close> waits.\<close>

definition after_waits :: "(child list \<Rightarrow> child list) list \<Rightarrow> nat \<Rightarrow> child list \<Rightarrow> child list" where
  "after_waits sched k cs = fold (\<lambda>f. f) (take k sched) cs"

lemma waitpid_loop_returns:
  assumes "k \<le> length sched" "list_ex c_zombie (after_waits sched k cs)"
    and "\<not> contains options (WNOHANG K) \<or> k = 0"
  shows "\<exists>j child. j \<le> k \<and> find c_zombie (after_waits sched j cs) = Some child \<and>
    waitpid_loop K options exit_code sched cs =
      Done (Inr (ucast (c_pid child)), if exit_code then Some (c_exit_code child) else None)
        (if contains options (WNOWAIT K) then after_waits sched j cs
         else free_child child (after_waits sched j cs))"
  using assms
proof (induction sched arbitrary: k cs)
  case Nil
  then have "list_ex c_zombie cs" by (simp add: after_waits_def)
  then obtain child where "find c_zombie cs = Some child"
    by (metis find_None_iff list_ex_iff option.exhaust)
  then show ?case by (intro exI [of _ 0] exI [of _ child]) (simp add: after_waits_def waitpid_loop.simps)
next
  case (Cons f sched)
  show ?case
  proof (cases "find c_zombie cs")
    case (Some child)
    then show ?thesis by (intro exI [of _ 0] exI [of _ child]) (simp add: after_waits_def waitpid_loop.simps)
  next
    case None
    with Cons.prems obtain k' where k: "k = Suc k'"
      by (cases k) (auto simp: after_waits_def find_None_iff list_ex_iff)
    with Cons.prems have "k' \<le> length sched" "list_ex c_zombie (after_waits sched k' (f cs))"
      and hang: "\<not> contains options (WNOHANG K)"
      by (simp_all add: after_waits_def)
    from Cons.IH [OF this(1,2)] hang obtain j child where
      "j \<le> k'" "find c_zombie (after_waits sched j (f cs)) = Some child"
      "waitpid_loop K options exit_code sched (f cs) =
        Done (Inr (ucast (c_pid child)), if exit_code then Some (c_exit_code child) else None)
          (if contains options (WNOWAIT K) then after_waits sched j (f cs)
           else free_child child (after_waits sched j (f cs)))"
      by blast
    with None hang k show ?thesis
      by (intro exI [of _ "Suc j"] exI [of _ child])
        (simp add: after_waits_def waitpid_loop.simps [of _ _ _ "f # sched"])
  qed
qed

text \<open>
  C26. \<^verbatim>\<open>sys_waitpid\<close>. The children considered are those that match the pid argument and the kind
  asked for (clone children with \<^verbatim>\<open>__WCLONE\<close>, the others without, all with \<^verbatim>\<open>__WALL\<close>). If there are
  none the call fails with \<^verbatim>\<open>ECHILD\<close>; if one is a zombie its pid is returned, its exit code stored,
  and it is freed unless \<^verbatim>\<open>WNOWAIT\<close> is given; otherwise the call returns 0 under \<^verbatim>\<open>WNOHANG\<close>, and
  without it returns the first zombie as soon as one of the children has become one.
\<close>

theorem sys_waitpid_spec:
  assumes "\<forall>c \<in> set children. c_data c \<noteq> None"
    and "opts = from_bits_truncate (WaitOptions_all K) options"
    and "sel = filter (\<lambda>c. WaitPid_apply (wait_target pid pgid) c \<and>
      (contains opts (WALL K) \<or> contains opts (WCLONE K) = (c_data c \<noteq> Some (Some (wait_SIGCHLD K))))) children"
    and "run = sys_waitpid K pid (Inr store) options pgid sched children"
  shows "(sel = [] \<longrightarrow> run = Done (Inl ECHILD, None) [])
    \<and> (sel \<noteq> [] \<and> \<not> list_ex c_zombie sel \<and> contains opts (WNOHANG K) \<longrightarrow> run = Done (Inr 0, None) sel)
    \<and> (\<forall>k \<le> length sched. sel \<noteq> [] \<and> (\<not> contains opts (WNOHANG K) \<or> k = 0) \<and>
        list_ex c_zombie (after_waits sched k sel) \<longrightarrow>
        (\<exists>j child. j \<le> k \<and> find c_zombie (after_waits sched j sel) = Some child \<and>
          run = Done (Inr (ucast (c_pid child)), if store then Some (c_exit_code child) else None)
            (if contains opts (WNOWAIT K) then after_waits sched j sel
             else free_child child (after_waits sched j sel))))"
proof -
  obtain cs where cs: "wait_children K opts (wait_target pid pgid) children = Some cs"
    using wait_children_total [OF assms(1)] by blast
  have "wait_eligible K opts c = Some True \<longleftrightarrow>
      contains opts (WALL K) \<or> contains opts (WCLONE K) = (c_data c \<noteq> Some (Some (wait_SIGCHLD K)))"
    if "c \<in> set children" for c
    using assms(1) that by (auto simp: wait_eligible_def is_clone_child_def)
  then have "cs = sel"
    unfolding wait_children_filter [OF cs] assms(3) by (intro filter_cong) auto
  then have run: "run = (case sel of [] \<Rightarrow> Done (Inl ECHILD, None) [] | _ \<Rightarrow> waitpid_loop K opts store sched sel)"
    using cs assms(2,4) by (cases sel) (simp_all add: sys_waitpid_def Let_def)
  have hang: "waitpid_loop K opts store sched sel = Done (Inr 0, None) sel"
    if "\<not> list_ex c_zombie sel" "contains opts (WNOHANG K)"
  proof -
    have "find c_zombie sel = None" using that(1) by (simp add: find_None_iff list_ex_iff)
    with that(2) show ?thesis by (simp add: waitpid_loop.simps)
  qed
  show ?thesis
  proof (cases "sel = []")
    case False
    then have "run = waitpid_loop K opts store sched sel" by (cases sel) (simp_all add: run)
    with False hang waitpid_loop_returns [of _ sched sel opts K store] show ?thesis by blast
  qed (simp add: run)
qed

definition linux_wait :: wait_abi where
  "linux_wait = \<lparr>WNOHANG = 1, WUNTRACED = 2, WEXITED = 4, WCONTINUED = 8, WNOWAIT = 0x1000000,
     WNOTHREAD = 0x20000000, WALL = 0x40000000, WCLONE = 0x80000000, wait_SIGCHLD = 17\<rparr>"

theorem sys_waitpid_spec_witness:
  "let c = \<lparr>c_pid = 7, c_pgid = 1, c_data = Some (Some 17), c_zombie = False, c_exit_code = 0, c_freed = False\<rparr>
   in \<exists>cs. sys_waitpid linux_wait (- 1) (Inr True) 0 1
        [map (\<lambda>c. c\<lparr>c_zombie := True, c_exit_code := 256\<rparr>)] [c] = Done (Inr 7, Some 256) cs"
proof -
  let ?c = "\<lparr>c_pid = 7, c_pgid = 1, c_data = Some (Some 17), c_zombie = False, c_exit_code = 0, c_freed = False\<rparr>"
  let ?sched = "[map (\<lambda>c :: child. c\<lparr>c_zombie := True, c_exit_code := 256\<rparr>)]"
  have sel: "[?c] = filter (\<lambda>c. WaitPid_apply (wait_target (- 1) 1) c \<and>
      (contains 0 (WALL linux_wait) \<or> contains 0 (WCLONE linux_wait) =
        (c_data c \<noteq> Some (Some (wait_SIGCHLD linux_wait))))) [?c]"
    by (simp add: WaitPid_apply_def wait_target_def contains_def linux_wait_def)
  have opts: "0 = from_bits_truncate (WaitOptions_all linux_wait) 0"
    by (simp add: from_bits_truncate_def)
  have hang: "\<not> contains 0 (WNOHANG linux_wait)" by (simp add: contains_def linux_wait_def)
  have "list_ex c_zombie (after_waits ?sched 1 [?c])" by (simp add: after_waits_def)
  with hang sys_waitpid_spec [OF _ opts sel refl, of True ?sched,
      THEN conjunct2, THEN conjunct2, rule_format, of 1]
  obtain j child where jc: "j \<le> 1" "find c_zombie (after_waits ?sched j [?c]) = Some child"
    "sys_waitpid linux_wait (- 1) (Inr True) 0 1 ?sched [?c] =
       Done (Inr (ucast (c_pid child)), Some (c_exit_code child))
         (if contains 0 (WNOWAIT linux_wait) then after_waits ?sched j [?c]
          else free_child child (after_waits ?sched j [?c]))"
    by auto
  from jc(1,2) have "c_pid child = 7" "c_exit_code child = 256"
    by (auto simp: after_waits_def le_Suc_eq)
  with jc(3) show ?thesis by (auto simp: Let_def)
qed

text \<open>What the code relies on: every flag lies above the byte that holds the exit signal.\<close>

definition clone_flags_ok :: "clone_abi \<Rightarrow> bool" where
  "clone_flags_ok K \<longleftrightarrow> CloneFlags_all K AND 0xff = 0"

lemma contains_clone_flags:
  assumes "clone_flags_ok K" "contains (CloneFlags_all K) f"
  shows "contains (from_bits_truncate (CloneFlags_all K) (w AND NOT 0xff)) f \<longleftrightarrow> contains w f"
proof -
  have all: "bit (CloneFlags_all K) n \<Longrightarrow> \<not> bit (0xff :: u32) n" for n
    using assms(1) unfolding clone_flags_ok_def bit_eq_iff by (auto simp: bit_simps)
  have f: "bit f n \<Longrightarrow> bit (CloneFlags_all K) n" for n
    using assms(2) unfolding contains_def by (metis bit_and_iff)
  show ?thesis
    using all f unfolding contains_def from_bits_truncate_def bit_eq_iff
    by (auto simp: bit_simps bit_imp_le_length)
qed

lemma clone_flag_known:
  "contains (CloneFlags_all K) (CLONE_VM K)" "contains (CloneFlags_all K) (CLONE_FS K)"
  "contains (CloneFlags_all K) (CLONE_FILES K)" "contains (CloneFlags_all K) (CLONE_SIGHAND K)"
  "contains (CloneFlags_all K) (CLONE_PARENT K)" "contains (CloneFlags_all K) (CLONE_THREAD K)"
  "contains (CloneFlags_all K) (CLONE_SETTLS K)" "contains (CloneFlags_all K) (CLONE_PARENT_SETTID K)"
  "contains (CloneFlags_all K) (CLONE_CHILD_CLEARTID K)" "contains (CloneFlags_all K) (CLONE_CHILD_SETTID K)"
  unfolding contains_def CloneFlags_all_def bit_eq_iff by (auto simp: bit_simps)

lemma contains_clone_flag_simps:
  assumes "clone_flags_ok K" "f = from_bits_truncate (CloneFlags_all K) (w AND NOT 0xff)"
  shows "contains f (CLONE_VM K) = contains w (CLONE_VM K)" "contains f (CLONE_FS K) = contains w (CLONE_FS K)"
    "contains f (CLONE_FILES K) = contains w (CLONE_FILES K)"
    "contains f (CLONE_SIGHAND K) = contains w (CLONE_SIGHAND K)"
    "contains f (CLONE_PARENT K) = contains w (CLONE_PARENT K)"
    "contains f (CLONE_THREAD K) = contains w (CLONE_THREAD K)"
    "contains f (CLONE_SETTLS K) = contains w (CLONE_SETTLS K)"
    "contains f (CLONE_PARENT_SETTID K) = contains w (CLONE_PARENT_SETTID K)"
    "contains f (CLONE_CHILD_CLEARTID K) = contains w (CLONE_CHILD_CLEARTID K)"
    "contains f (CLONE_CHILD_SETTID K) = contains w (CLONE_CHILD_SETTID K)"
  unfolding assms(2) using contains_clone_flags [OF assms(1)] clone_flag_known [of K] by simp_all

text \<open>What the flags ask of a new process.\<close>

definition process_as_asked :: "clone_abi \<Rightarrow> u32 \<Rightarrow> Signo option \<Rightarrow> clone_view \<Rightarrow> new_process \<Rightarrow> bool" where
  "process_as_asked K w sig v np \<longleftrightarrow>
     (if contains w (CLONE_PARENT K) then cv_parent v = Some (np_parent np) else np_parent np = cv_pid v)
   \<and> (pd_aspace (np_data np) = Shared \<longleftrightarrow> contains w (CLONE_VM K))
   \<and> (np_files np = Shared \<longleftrightarrow> contains w (CLONE_FILES K))
   \<and> (np_fs np = Shared \<longleftrightarrow> contains w (CLONE_FS K))
   \<and> pd_signal_actions (np_data np) =
       (if contains w (CLONE_SIGHAND K) \<and> cv_has_data v (np_parent np) then ActionsOf (np_parent np)
        else DefaultActions)
   \<and> pd_exit_signal (np_data np) = sig
   \<and> pd_heap_top (np_data np) = cv_USER_HEAP_BASE v"

lemma clone_process_success:
  assumes "clone_process K f sig v = Inr p"
  shows "if contains f (CLONE_THREAD K) then p = Inl (cv_pid v)
    else \<exists>np. p = Inr np \<and> process_as_asked K f sig v np"
proof (cases "contains f (CLONE_THREAD K)")
  case False
  note run = assms [unfolded clone_process_def if_not_P [OF False] try_then_Inr Let_def]
  then obtain parent aspace where
    "(if contains f (CLONE_PARENT K) then ok_or (cv_parent v) EINVAL else Inr (cv_pid v)) = Inr parent"
    "(if contains f (CLONE_VM K) then Inr Shared else try_then (cv_clone_aspace v) (\<lambda>_. Inr Copied)) = Inr aspace"
    and p: "p = Inr \<lparr>np_parent = parent,
      np_data = ProcessData_new (cv_USER_HEAP_BASE v) (cv_exe_path v) aspace
        (if contains f (CLONE_SIGHAND K)
         then (if cv_has_data v parent then ActionsOf parent else DefaultActions) else DefaultActions) sig,
      np_files = (if contains f (CLONE_FILES K) then Shared else Copied),
      np_fs = (if contains f (CLONE_FS K) then Shared else Copied)\<rparr>"
    by auto
  then have "if contains f (CLONE_PARENT K) then cv_parent v = Some parent else parent = cv_pid v"
    "aspace = Shared \<longleftrightarrow> contains f (CLONE_VM K)"
    by (auto split: if_split_asm)
  then show ?thesis using False by (simp add: p process_as_asked_def ProcessData_new_def)
qed (use assms in \<open>simp add: clone_process_def\<close>)

lemma add_thread_to_table_get:
  "get_thread (add_thread_to_table thr T) (tv_tid thr) = Inr thr"
  "\<exists>p. get_process (add_thread_to_table thr T) (tv_pid thr) = Inr p"
  by (auto simp: get_thread_def get_process_def add_thread_to_table_def Let_def)

text \<open>
  A successful run of the call: both guards were passed, both pointers were good, and the task
  and its entry in the tables are those the definition builds.
\<close>

lemma sys_clone_success:
  assumes "sys_clone K w stack parent_tid child_tid tls v T = (Inr ret, eff)"
    and f: "f = from_bits_truncate (CloneFlags_all K) (w AND NOT 0xff)"
  obtains p nt where "clone_process K f (Signo_from_repr K (ucast (w AND 0xff))) v = Inr p"
    "contains f (CLONE_THREAD K) \<longrightarrow> contains f (CLONE_VM K) \<and> contains f (CLONE_SIGHAND K)"
    "ret = ucast (cv_new_tid v)"
    "eff = \<lparr>ce_parent_tid = (if contains f (CLONE_PARENT_SETTID K) then Some parent_tid else None),
       ce_tables = add_thread_to_table (new_thread_view v (cv_new_tid v) p) T, ce_spawned = Some nt\<rparr>"
    "nt = \<lparr>nt_tid = cv_new_tid v, nt_process = p, nt_sp = (if stack \<noteq> 0 then Some stack else None),
      nt_tls = (if contains f (CLONE_SETTLS K) then Some tls else None), nt_retval = 0,
      nt_set_child_tid = (if contains f (CLONE_CHILD_SETTID K) then Some child_tid else None),
      nt_clear_child_tid = (if contains f (CLONE_CHILD_CLEARTID K) then child_tid else 0)\<rparr>"
proof -
  note run = assms(1) [unfolded sys_clone_def Let_def f [symmetric]]
  have ok1: "\<not> (w AND 0xff \<noteq> 0 \<and> contains f (CLONE_THREAD K OR CLONE_PARENT K))"
  proof
    assume "w AND 0xff \<noteq> 0 \<and> contains f (CLONE_THREAD K OR CLONE_PARENT K)"
    from run [unfolded if_P [OF this]] show False by simp
  qed
  have ok2: "\<not> (contains f (CLONE_THREAD K) \<and> \<not> contains f (CLONE_VM K OR CLONE_SIGHAND K))"
  proof
    assume "contains f (CLONE_THREAD K) \<and> \<not> contains f (CLONE_VM K OR CLONE_SIGHAND K)"
    from run [unfolded if_not_P [OF ok1] if_P [OF this]] show False by simp
  qed
  note run = run [unfolded if_not_P [OF ok1] if_not_P [OF ok2]]
  obtain set_tid where set_tid:
    "(if contains f (CLONE_CHILD_SETTID K) then try_then (cv_child_tid_ptr v) (\<lambda>_. Inr (Some child_tid))
      else Inr None) = (Inr set_tid :: usize option LinuxResult)"
    using run by (auto split: sum.splits)
  note run = run [unfolded this sum.case]
  obtain stored where stored:
    "(if contains f (CLONE_PARENT_SETTID K) then try_then (cv_parent_tid_ptr v) (\<lambda>_. Inr (Some parent_tid))
      else Inr None) = (Inr stored :: usize option LinuxResult)"
    using run by (auto split: sum.splits)
  note run = run [unfolded this sum.case]
  obtain p where p: "clone_process K f (Signo_from_repr K (ucast (w AND 0xff))) v = Inr p"
    using run by (auto split: sum.splits)
  note run = run [unfolded this sum.case]
  have vals: "set_tid = (if contains f (CLONE_CHILD_SETTID K) then Some child_tid else None)"
    "stored = (if contains f (CLONE_PARENT_SETTID K) then Some parent_tid else None)"
    using set_tid stored by (auto split: if_splits)
  note run = run [unfolded prod.inject sum.inject vals]
  show ?thesis
    by (rule that [OF p _ run [THEN conjunct1, symmetric] run [THEN conjunct2, symmetric] refl])
      (use ok2 in \<open>simp add: contains_or\<close>)
qed

text \<open>
  C27. A successful \<^verbatim>\<open>sys_clone\<close> does what the flag word asks for: with \<^verbatim>\<open>CLONE_THREAD\<close> (only together
  with \<^verbatim>\<open>CLONE_VM\<close> and \<^verbatim>\<open>CLONE_SIGHAND\<close>) the new task joins the caller's process; otherwise a new
  process is made whose parent is the caller or, with \<^verbatim>\<open>CLONE_PARENT\<close>, the caller's parent, and which
  shares the address space, the descriptor table and the working directory exactly if \<^verbatim>\<open>CLONE_VM\<close>,
  \<^verbatim>\<open>CLONE_FILES\<close> and \<^verbatim>\<open>CLONE_FS\<close> say so. Its signal actions are those of its parent with
  \<^verbatim>\<open>CLONE_SIGHAND\<close> and the default ones without, never a copy of the caller's, and its program break
  is at the start of the heap. The child returns 0 from the call, the caller gets the new
  identifier, and the tables find the thread and its process.
\<close>

theorem sys_clone_spec:
  assumes "clone_flags_ok K" "sys_clone K w stack parent_tid child_tid tls v T = (Inr ret, eff)"
  shows "\<exists>nt. ce_spawned eff = Some nt
    \<and> ret = ucast (cv_new_tid v) \<and> nt_tid nt = cv_new_tid v \<and> nt_retval nt = 0
    \<and> nt_sp nt = (if stack \<noteq> 0 then Some stack else None)
    \<and> nt_tls nt = (if contains w (CLONE_SETTLS K) then Some tls else None)
    \<and> nt_clear_child_tid nt = (if contains w (CLONE_CHILD_CLEARTID K) then child_tid else 0)
    \<and> nt_set_child_tid nt = (if contains w (CLONE_CHILD_SETTID K) then Some child_tid else None)
    \<and> ce_parent_tid eff = (if contains w (CLONE_PARENT_SETTID K) then Some parent_tid else None)
    \<and> get_thread (ce_tables eff) (cv_new_tid v) = Inr (new_thread_view v (cv_new_tid v) (nt_process nt))
    \<and> (if contains w (CLONE_THREAD K)
       then contains w (CLONE_VM K) \<and> contains w (CLONE_SIGHAND K) \<and> nt_process nt = Inl (cv_pid v)
       else (\<exists>np. nt_process nt = Inr np
             \<and> process_as_asked K w (Signo_from_repr K (ucast (w AND 0xff))) v np)
         \<and> (\<exists>p. get_process (ce_tables eff) (cv_new_tid v) = Inr p))"
proof -
  define f where "f = from_bits_truncate (CloneFlags_all K) (w AND NOT 0xff)"
  note bits = contains_clone_flag_simps [OF assms(1) f_def]
  obtain p nt where run: "clone_process K f (Signo_from_repr K (ucast (w AND 0xff))) v = Inr p"
    "contains f (CLONE_THREAD K) \<longrightarrow> contains f (CLONE_VM K) \<and> contains f (CLONE_SIGHAND K)"
    and eff: "ret = ucast (cv_new_tid v)"
    "eff = \<lparr>ce_parent_tid = (if contains f (CLONE_PARENT_SETTID K) then Some parent_tid else None),
       ce_tables = add_thread_to_table (new_thread_view v (cv_new_tid v) p) T, ce_spawned = Some nt\<rparr>"
    "nt = \<lparr>nt_tid = cv_new_tid v, nt_process = p, nt_sp = (if stack \<noteq> 0 then Some stack else None),
      nt_tls = (if contains f (CLONE_SETTLS K) then Some tls else None), nt_retval = 0,
      nt_set_child_tid = (if contains f (CLONE_CHILD_SETTID K) then Some child_tid else None),
      nt_clear_child_tid = (if contains f (CLONE_CHILD_CLEARTID K) then child_tid else 0)\<rparr>"
    by (rule sys_clone_success [OF assms(2) f_def]) (rule that)
  let ?thr = "new_thread_view v (cv_new_tid v) p"
  have "tv_tid ?thr = cv_new_tid v" by (simp add: new_thread_view_def split: sum.split)
  with add_thread_to_table_get(1) [of ?thr T]
  have thr: "get_thread (add_thread_to_table ?thr T) (cv_new_tid v) = Inr ?thr" by simp
  show ?thesis
  proof (cases "contains f (CLONE_THREAD K)")
    case True
    with clone_process_success [OF run(1)] run(2) eff thr show ?thesis
      unfolding bits [symmetric] by simp
  next
    case False
    with clone_process_success [OF run(1)] obtain np where np: "p = Inr np"
      "process_as_asked K f (Signo_from_repr K (ucast (w AND 0xff))) v np" by auto
    then have "tv_pid ?thr = cv_new_tid v" by (simp add: new_thread_view_def)
    with add_thread_to_table_get(2) [of ?thr T]
    have "\<exists>q. get_process (add_thread_to_table ?thr T) (cv_new_tid v) = Inr q" by simp
    moreover have "process_as_asked K w (Signo_from_repr K (ucast (w AND 0xff))) v np"
      using np(2) unfolding process_as_asked_def bits .
    ultimately show ?thesis
      using eff thr np(1) unfolding bits [symmetric] if_not_P [OF False] by simp
  qed
qed

definition linux_clone :: clone_abi where
  "linux_clone = \<lparr>CLONE_VM = 0x100, CLONE_FS = 0x200, CLONE_FILES = 0x400, CLONE_SIGHAND = 0x800,
     CLONE_PTRACE = 0x2000, CLONE_VFORK = 0x4000, CLONE_PARENT = 0x8000, CLONE_THREAD = 0x10000,
     CLONE_NEWNS = 0x20000, CLONE_SYSVSEM = 0x40000, CLONE_SETTLS = 0x80000,
     CLONE_PARENT_SETTID = 0x100000, CLONE_CHILD_CLEARTID = 0x200000, CLONE_UNTRACED = 0x800000,
     CLONE_CHILD_SETTID = 0x1000000, CLONE_NEWCGROUP = 0x2000000, CLONE_NEWUTS = 0x4000000,
     CLONE_NEWIPC = 0x8000000, CLONE_NEWUSER = 0x10000000, CLONE_NEWPID = 0x20000000,
     CLONE_NEWNET = 0x40000000, CLONE_IO = 0x80000000, clone_SIGCHLD = 17,
     Signo_from_repr = (\<lambda>n. if n = 0 \<or> 64 < n then None else Some n)\<rparr>"

theorem sys_clone_spec_witness:
  "let v = \<lparr>cv_pid = 5, cv_exe_path = ''sh'', cv_parent = Some 1, cv_has_data = (\<lambda>_. True),
       cv_group = (\<lambda>_. (1, 1)), cv_new_tid = 6, cv_child_tid_ptr = Inr (), cv_parent_tid_ptr = Inr (),
       cv_clone_aspace = Inr (), cv_USER_HEAP_BASE = 0x40000000\<rparr>
   in \<exists>eff nt np. sys_fork linux_clone v task_tables_new = (Inr 6, eff) \<and> ce_spawned eff = Some nt
     \<and> nt_process nt = Inr np \<and> np_files np = Copied
     \<and> pd_signal_actions (np_data np) = DefaultActions \<and> pd_exit_signal (np_data np) = Some 17
     \<and> get_thread (ce_tables eff) 6 = Inr \<lparr>tv_tid = 6, tv_pid = 6, tv_pgid = 1, tv_sid = 1\<rparr>"
proof -
  let ?v = "\<lparr>cv_pid = 5, cv_exe_path = ''sh'', cv_parent = Some 1, cv_has_data = (\<lambda>_. True),
       cv_group = (\<lambda>_. (1, 1)), cv_new_tid = 6, cv_child_tid_ptr = Inr (), cv_parent_tid_ptr = Inr (),
       cv_clone_aspace = Inr (), cv_USER_HEAP_BASE = 0x40000000\<rparr> :: clone_view"
  have ok: "clone_flags_ok linux_clone"
    by (simp add: clone_flags_ok_def CloneFlags_all_def linux_clone_def)
  have bits: "\<not> contains 17 (CLONE_THREAD linux_clone)" "\<not> contains 17 (CLONE_FILES linux_clone)"
    "\<not> contains 17 (CLONE_SIGHAND linux_clone)"
    by (simp_all add: linux_clone_def contains_def)
  obtain ret eff where run: "sys_fork linux_clone ?v task_tables_new = (Inr ret, eff)"
    by (simp add: sys_fork_def sys_clone_def clone_process_def linux_clone_def contains_def
        from_bits_truncate_def CloneFlags_all_def Let_def)
  then have "sys_clone linux_clone 17 0 0 0 0 ?v task_tables_new = (Inr ret, eff)"
    by (simp add: sys_fork_def linux_clone_def)
  from sys_clone_spec [OF ok this] bits obtain nt np where nt:
    "ret = 6" "ce_spawned eff = Some nt" "nt_process nt = Inr np"
    "process_as_asked linux_clone 17 (Some 17) ?v np"
    "get_thread (ce_tables eff) 6 = Inr (new_thread_view ?v 6 (Inr np))"
    by (auto simp: linux_clone_def)
  then have "np_files np \<noteq> Shared" "pd_signal_actions (np_data np) = DefaultActions"
    "pd_exit_signal (np_data np) = Some 17"
    using bits by (auto simp: process_as_asked_def)
  with run nt show ?thesis
    by (cases "np_files np") (auto simp: Let_def new_thread_view_def)
qed

end
