(* ===== verification/Addr_Space.thy ===== *)
theory Addr_Space
  imports Prelude
begin

text \<open>
  The interfaces to memory that the kernel sources call and do not contain: the address
  arithmetic of \<^verbatim>\<open>memory_addr\<close> and the address spaces of \<^verbatim>\<open>axmm\<close>. Each is a record of operations,
  with the documented behaviour the kernel relies on as a locale, and a page-list instance.
\<close>

section \<open>Addresses\<close>

text \<open>
  An address is a \<^verbatim>\<open>usize\<close>. \<^verbatim>\<open>from_start_size\<close> panics when the end of the range overflows, which is
  \<open>None\<close> here. The rounding functions take powers of two only.
\<close>

record addr_ops =
  align_down :: "usize \<Rightarrow> usize \<Rightarrow> usize"
  align_up :: "usize \<Rightarrow> usize \<Rightarrow> usize"
  align_offset :: "usize \<Rightarrow> usize \<Rightarrow> usize"
  from_start_size :: "usize \<Rightarrow> usize \<Rightarrow> (usize \<times> usize) option"

definition PAGE_SIZE_4K :: usize where
  "PAGE_SIZE_4K = 0x1000"

datatype PageSize = Size4K | Size2M | Size1G

fun page_bits :: "PageSize \<Rightarrow> nat" where
  "page_bits Size4K = 12"
| "page_bits Size2M = 21"
| "page_bits Size1G = 30"

definition page_bytes :: "PageSize \<Rightarrow> usize" where
  "page_bytes ps = 2 ^ page_bits ps"

lemma PAGE_SIZE_4K_pow: "PAGE_SIZE_4K = 2 ^ 12"
  by (simp add: PAGE_SIZE_4K_def)

lemma page_bits_less [simp]: "page_bits ps < 64"
  by (cases ps) simp_all

lemma page_bits_ge: "12 \<le> page_bits ps"
  by (cases ps) simp_all

lemma unat_pow2 [simp]: "k < 64 \<Longrightarrow> unat (2 ^ k :: usize) = 2 ^ k"
  using unat_of_nat [of "2 ^ k", where 'a = 64] power_strict_increasing [of k 64 "2 :: nat"] by simp

locale page_addresses =
  fixes A :: addr_ops
  assumes align_down_pow2: "k < 64 \<Longrightarrow> unat (align_down A a (2 ^ k)) = unat a div 2 ^ k * 2 ^ k"
    and align_up_pow2: "k < 64 \<Longrightarrow> unat a + 2 ^ k \<le> 2 ^ 64 \<Longrightarrow>
      unat (align_up A a (2 ^ k)) = (unat a + 2 ^ k - 1) div 2 ^ k * 2 ^ k"
    and align_offset_pow2: "k < 64 \<Longrightarrow> unat (align_offset A a (2 ^ k)) = unat a mod 2 ^ k"
    and from_start_size_iff: "from_start_size A a n = (if unat a + unat n < 2 ^ 64 then Some (a, a + n) else None)"
begin

lemma align_down_le: "k < 64 \<Longrightarrow> unat (align_down A a (2 ^ k)) \<le> unat a"
  by (simp add: align_down_pow2)

lemma align_down_dvd: "k < 64 \<Longrightarrow> 2 ^ k dvd unat (align_down A a (2 ^ k))"
  by (simp add: align_down_pow2)

lemma align_down_close: "k < 64 \<Longrightarrow> unat a < unat (align_down A a (2 ^ k)) + 2 ^ k"
  by (simp add: align_down_pow2 add.commute dividend_less_div_times)

lemma align_up_bounds:
  assumes "k < 64" "unat a + 2 ^ k \<le> 2 ^ 64"
  shows "unat a \<le> unat (align_up A a (2 ^ k))" "unat (align_up A a (2 ^ k)) < unat a + 2 ^ k"
    "2 ^ k dvd unat (align_up A a (2 ^ k))"
proof -
  let ?m = "unat a + 2 ^ k - 1"
  have pos: "0 < (2 ^ k :: nat)" by simp
  have "?m div 2 ^ k * 2 ^ k + ?m mod 2 ^ k = ?m" "?m mod 2 ^ k < 2 ^ k"
    by (simp_all only: div_mult_mod_eq mod_less_divisor [OF pos])
  with pos show "unat a \<le> unat (align_up A a (2 ^ k))" "unat (align_up A a (2 ^ k)) < unat a + 2 ^ k"
    unfolding align_up_pow2 [OF assms] by linarith+
  show "2 ^ k dvd unat (align_up A a (2 ^ k))" by (simp add: align_up_pow2 [OF assms])
qed

text \<open>Rounding both ends of a region outwards gives whole pages that cover it and little more.\<close>

lemma rounded_region:
  assumes "k < 64" "unat a + unat n + 2 ^ k \<le> 2 ^ 64"
    and "s = align_down A a (2 ^ k)" "e = align_up A (a + n) (2 ^ k)"
  shows "unat s \<le> unat a" "unat a + unat n \<le> unat s + unat (e - s)"
    "2 ^ k dvd unat s" "2 ^ k dvd unat (e - s)" "unat s + unat (e - s) = unat e"
    "unat (e - s) < unat n + 2 * 2 ^ k"
proof -
  have sum: "unat (a + n) = unat a + unat n"
  proof (rule unat_add_lem [THEN iffD1])
    have "0 < (2 ^ k :: nat)" by simp
    with assms(2) have "unat a + unat n < 2 ^ 64" by linarith
    then show "unat a + unat n < 2 ^ LENGTH(64)" by simp
  qed
  note up = align_up_bounds [OF assms(1), of "a + n", unfolded sum, OF assms(2), folded assms(4)]
  note down = align_down_le [OF assms(1), of a] align_down_dvd [OF assms(1), of a]
    align_down_close [OF assms(1), of a]
  note down = down [folded assms(3)]
  have "unat s \<le> unat e" using down(1) up(1) by linarith
  then have diff: "unat (e - s) = unat e - unat s" by (simp add: unat_sub word_le_nat_alt)
  show "unat s \<le> unat a" "2 ^ k dvd unat s" using down by simp_all
  show "unat s + unat (e - s) = unat e" using diff \<open>unat s \<le> unat e\<close> by simp
  show "unat a + unat n \<le> unat s + unat (e - s)" "unat (e - s) < unat n + 2 * 2 ^ k"
    using diff down(3) up \<open>unat s \<le> unat e\<close> by linarith+
  show "2 ^ k dvd unat (e - s)"
    unfolding diff using down(2) up(3) by (simp add: dvd_diff_nat)
qed

end

text \<open>The instance that rounds with bit masks.\<close>

definition mask_addr :: addr_ops where
  "mask_addr = \<lparr>align_down = (\<lambda>a n. a AND NOT (n - 1)),
     align_up = (\<lambda>a n. (a + n - 1) AND NOT (n - 1)),
     align_offset = (\<lambda>a n. a AND (n - 1)),
     from_start_size = (\<lambda>a n. if unat a + unat n < 2 ^ 64 then Some (a, a + n) else None)\<rparr>"

lemma and_not_mask_div:
  assumes "k < 64"
  shows "unat (a AND NOT (2 ^ k - 1) :: usize) = unat a div 2 ^ k * 2 ^ k"
proof -
  have "a AND NOT (2 ^ k - 1) = a AND NOT (mask k)" by (simp add: mask_eq_exp_minus_1)
  also have "\<dots> = push_bit k (drop_bit k a)"
    by (simp add: bit_eq_iff bit_simps) (auto simp: bit_simps)
  finally have eq: "a AND NOT (2 ^ k - 1) = push_bit k (drop_bit k a)" .
  have "take_bit 64 (unat a) = unat a"
    using unsigned_less [of a, where 'a = nat] by (intro take_bit_nat_eq_self) simp
  then have "unat (push_bit k (drop_bit k a)) = take_bit 64 (push_bit k (drop_bit k (unat a)))"
    by (simp add: unsigned_push_bit_eq unsigned_drop_bit_eq)
  also have "\<dots> = take_bit 64 (unat a div 2 ^ k * 2 ^ k)"
    by (simp add: push_bit_eq_mult drop_bit_eq_div)
  also have "\<dots> = unat a div 2 ^ k * 2 ^ k"
  proof (rule take_bit_nat_eq_self)
    have "unat a div 2 ^ k * 2 ^ k \<le> unat a" by simp
    also have "unat a < 2 ^ 64" using unsigned_less [of a, where 'a = nat] by simp
    finally show "unat a div 2 ^ k * 2 ^ k < 2 ^ 64" .
  qed
  finally show ?thesis using eq by simp
qed

lemma and_mask_mod:
  assumes "k < 64"
  shows "unat (a AND (2 ^ k - 1) :: usize) = unat a mod 2 ^ k"
proof -
  have "a AND (2 ^ k - 1) = take_bit k a" by (simp add: take_bit_eq_mask mask_eq_exp_minus_1)
  then have "unat (a AND (2 ^ k - 1)) = take_bit k (unat a)" by (simp only: unsigned_take_bit_eq)
  then show ?thesis by (simp only: take_bit_eq_mod)
qed

lemma and_mask_dvd:
  assumes "k < 64"
  shows "a AND (2 ^ k - 1) = 0 \<longleftrightarrow> 2 ^ k dvd unat (a :: usize)"
  using and_mask_mod [OF assms, of a] by (metis dvd_eq_mod_eq_0 unat_eq_zero)

interpretation mask_pages: page_addresses mask_addr
proof
  fix k a
  assume k: "k < (64 :: nat)"
  show "unat (align_down mask_addr a (2 ^ k)) = unat a div 2 ^ k * 2 ^ k"
    using k by (simp add: mask_addr_def and_not_mask_div)
  show "unat (align_offset mask_addr a (2 ^ k)) = unat a mod 2 ^ k"
    using and_mask_mod [OF k] by (simp add: mask_addr_def)
  assume sum: "unat a + 2 ^ k \<le> 2 ^ 64"
  have "unat (a + (2 ^ k - 1)) = unat a + unat (2 ^ k - 1 :: usize)"
  proof (rule unat_add_lem [THEN iffD1])
    have "unat (2 ^ k - 1 :: usize) = 2 ^ k - 1" using k by (simp add: unat_sub word_le_nat_alt)
    then show "unat a + unat (2 ^ k - 1 :: usize) < 2 ^ LENGTH(64)"
      using sum zero_less_power [of "2 :: nat" k] by (simp del: zero_less_power)
  qed
  also have "\<dots> = unat a + 2 ^ k - 1" using k by (simp add: unat_sub word_le_nat_alt)
  finally show "unat (align_up mask_addr a (2 ^ k)) = (unat a + 2 ^ k - 1) div 2 ^ k * 2 ^ k"
    using and_not_mask_div [OF k, of "a + (2 ^ k - 1)"] by (simp add: mask_addr_def add_diff_eq)
qed (simp add: mask_addr_def)

section \<open>Address spaces\<close>

datatype mapping_flag = READ | WRITE | EXECUTE | USER

type_synonym MappingFlags = "mapping_flag set"

text \<open>
  The operations of an address space. Those that change it return the result and the new state.
\<close>

record 's aspace_ops =
  as_base :: "'s \<Rightarrow> usize"
  as_end :: "'s \<Rightarrow> usize"
  check_region_access :: "'s \<Rightarrow> usize \<times> usize \<Rightarrow> MappingFlags \<Rightarrow> bool"
  populate_area :: "usize \<Rightarrow> usize \<Rightarrow> MappingFlags \<Rightarrow> 's \<Rightarrow> unit AxResult \<times> 's"
  find_free_area :: "'s \<Rightarrow> usize \<Rightarrow> usize \<Rightarrow> usize \<times> usize \<Rightarrow> PageSize \<Rightarrow> usize option"
  map_alloc :: "usize \<Rightarrow> usize \<Rightarrow> MappingFlags \<Rightarrow> bool \<Rightarrow> PageSize \<Rightarrow> 's \<Rightarrow> unit AxResult \<times> 's"
  unmap :: "usize \<Rightarrow> usize \<Rightarrow> 's \<Rightarrow> unit AxResult \<times> 's"
  protect :: "usize \<Rightarrow> usize \<Rightarrow> MappingFlags \<Rightarrow> 's \<Rightarrow> unit AxResult \<times> 's"
  as_write :: "usize \<Rightarrow> PageSize \<Rightarrow> u8 list \<Rightarrow> 's \<Rightarrow> unit AxResult \<times> 's"
  as_page_fault :: "usize \<Rightarrow> MappingFlags \<Rightarrow> 's \<Rightarrow> bool \<times> 's"

text \<open>The addresses of a region, as natural numbers.\<close>

definition region :: "usize \<Rightarrow> usize \<Rightarrow> nat set" where
  "region a n = {unat a ..< unat a + unat n}"

lemma region_iff [simp]: "x \<in> region a n \<longleftrightarrow> unat a \<le> x \<and> x < unat a + unat n"
  by (simp add: region_def)

text \<open>
  What the kernel relies on. \<open>perm s x\<close> is the permission of the address \<open>x\<close>, if it is mapped. An
  operation that fails changes no permission, and one that succeeds changes those of its region.
\<close>

locale address_space =
  fixes M :: "'s aspace_ops" and perm :: "'s \<Rightarrow> nat \<Rightarrow> MappingFlags option"
  assumes access_iff: "check_region_access M s (a, b) fl \<longleftrightarrow>
      (\<forall>x \<in> {unat a ..< unat b}. \<exists>p. perm s x = Some p \<and> fl \<subseteq> p)"
    and populate_perm: "perm (snd (populate_area M a n fl s)) = perm s"
    and find_free: "find_free_area M s hint n (lo, hi) ps = Some a \<Longrightarrow>
      unat a + unat n \<le> 2 ^ 64 \<and> 2 ^ page_bits ps dvd unat a \<and> unat lo \<le> unat a \<and> unat a + unat n \<le> unat hi
      \<and> (\<forall>x \<in> region a n. perm s x = None)"
    and map_alloc_ok: "map_alloc M a n fl pop ps s = (Inr u, s') \<Longrightarrow>
      perm s' = (\<lambda>x. if x \<in> region a n then Some fl else perm s x)"
    and map_alloc_err: "map_alloc M a n fl pop ps s = (Inl e, s') \<Longrightarrow> perm s' = perm s"
    and unmap_ok: "unmap M a n s = (Inr u, s') \<Longrightarrow> perm s' = (\<lambda>x. if x \<in> region a n then None else perm s x)"
    and unmap_err: "unmap M a n s = (Inl e, s') \<Longrightarrow> perm s' = perm s"
    and protect_ok: "protect M a n fl s = (Inr u, s') \<Longrightarrow>
      perm s' = (\<lambda>x. if x \<in> region a n then map_option (\<lambda>_. fl) (perm s x) else perm s x)"
    and protect_err: "protect M a n fl s = (Inl e, s') \<Longrightarrow> perm s' = perm s"
    and write_perm: "perm (snd (as_write M a ps bs s)) = perm s"
    and page_fault_perm: "perm (snd (as_page_fault M a fl s)) = perm s"

text \<open>
  The instance: a list of 4 KiB pages with their permissions, in a space that ends at \<open>2 ^ 38\<close>. A
  free area is looked for at the hint, behind every mapped page and at the lower limit.
\<close>

type_synonym page_list = "(nat \<times> MappingFlags) list"

definition page_perm :: "page_list \<Rightarrow> nat \<Rightarrow> MappingFlags option" where
  "page_perm s x = map_of s (x div 4096)"

definition page_aligned :: "usize \<Rightarrow> usize \<Rightarrow> bool" where
  "page_aligned a n \<longleftrightarrow> 4096 dvd unat a \<and> 4096 dvd unat n"

definition pages_of :: "usize \<Rightarrow> usize \<Rightarrow> nat list" where
  "pages_of a n = [unat a div 4096 ..< (unat a + unat n) div 4096]"

definition free_at :: "page_list \<Rightarrow> usize \<Rightarrow> usize \<times> usize \<Rightarrow> PageSize \<Rightarrow> usize \<Rightarrow> bool" where
  "free_at s n limit ps a \<longleftrightarrow> page_aligned a n \<and> unat a mod 2 ^ page_bits ps = 0 \<and> unat (fst limit) \<le> unat a
     \<and> unat a + unat n \<le> unat (snd limit) \<and> list_all (\<lambda>p. map_of s p = None) (pages_of a n)"

definition page_space :: "page_list aspace_ops" where
  "page_space = \<lparr>as_base = (\<lambda>_. 0x1000), as_end = (\<lambda>_. 2 ^ 38),
     check_region_access = (\<lambda>s (a, b) fl. unat b \<le> unat a \<or>
       list_all (\<lambda>p. case map_of s p of None \<Rightarrow> False | Some q \<Rightarrow> fl \<subseteq> q)
         [unat a div 4096 ..< (unat b + 4095) div 4096]),
     populate_area = (\<lambda>a n fl s. (Inr (), s)),
     find_free_area = (\<lambda>s hint n limit ps.
       find (free_at s n limit ps) (hint # map (\<lambda>(p, _). of_nat ((p + 1) * 4096)) s @ [fst limit])),
     map_alloc = (\<lambda>a n fl pop ps s.
       if page_aligned a n \<and> list_all (\<lambda>p. map_of s p = None) (pages_of a n)
       then (Inr (), map (\<lambda>p. (p, fl)) (pages_of a n) @ s) else (Inl InvalidInput, s)),
     unmap = (\<lambda>a n s. if page_aligned a n
       then (Inr (), filter (\<lambda>(p, _). p \<notin> set (pages_of a n)) s) else (Inl InvalidInput, s)),
     protect = (\<lambda>a n fl s. if page_aligned a n
       then (Inr (), map (\<lambda>(p, q). (p, if p \<in> set (pages_of a n) then fl else q)) s) else (Inl InvalidInput, s)),
     as_write = (\<lambda>a ps bs s. (Inr (), s)),
     as_page_fault = (\<lambda>a fl s. (case map_of s (unat a div 4096) of None \<Rightarrow> False | Some q \<Rightarrow> fl \<subseteq> q, s))\<rparr>"

lemma pages_of_iff:
  assumes "page_aligned a n"
  shows "x div 4096 \<in> set (pages_of a n) \<longleftrightarrow> x \<in> region a n"
proof -
  from assms obtain i j where ij: "unat a = 4096 * i" "unat n = 4096 * j"
    unfolding page_aligned_def by (auto elim!: dvdE)
  then have "(unat a + unat n) div 4096 = i + j" by simp
  then show ?thesis unfolding pages_of_def using ij by auto
qed

lemma map_of_pages: "map_of (map (\<lambda>p. (p, fl)) ps) p = (if p \<in> set ps then Some fl else None)"
  by (induction ps) auto

lemma map_of_filter_key: "map_of (filter (\<lambda>(p, _). P p) s) p = (if P p then map_of s p else None)"
  by (induction s) auto

lemma map_of_map_key: "map_of (map (\<lambda>(p, q). (p, f p q)) s) p = map_option (f p) (map_of s p)"
  by (induction s) auto

lemma pages_between:
  assumes "unat a < unat b"
  shows "(\<forall>x \<in> {unat a ..< unat b}. P (x div 4096)) \<longleftrightarrow>
    list_all P [unat a div 4096 ..< (unat b + 4095) div 4096]"
proof
  assume all: "\<forall>x \<in> {unat a ..< unat b}. P (x div 4096)"
  have "P p" if "unat a div 4096 \<le> p" "p < (unat b + 4095) div 4096" for p
  proof -
    have "max (unat a) (p * 4096) div 4096 = p" "unat a \<le> max (unat a) (p * 4096)"
      "max (unat a) (p * 4096) < unat b"
      using that assms by (auto simp: max_def)
    then show ?thesis using all by (metis atLeastLessThan_iff)
  qed
  then show "list_all P [unat a div 4096 ..< (unat b + 4095) div 4096]" by (simp add: list_all_iff)
next
  assume all: "list_all P [unat a div 4096 ..< (unat b + 4095) div 4096]"
  have "x div 4096 < (unat b + 4095) div 4096" if "x < unat b" for x
    using that by linarith
  with all show "\<forall>x \<in> {unat a ..< unat b}. P (x div 4096)"
    by (auto simp: list_all_iff div_le_mono)
qed

interpretation page_lists: address_space page_space page_perm
proof
  fix s :: page_list and a b fl
  let ?P = "\<lambda>p. case map_of s p of None \<Rightarrow> False | Some q \<Rightarrow> fl \<subseteq> q"
  have P: "?P (x div 4096) \<longleftrightarrow> (\<exists>p. page_perm s x = Some p \<and> fl \<subseteq> p)" for x
    by (auto simp: page_perm_def split: option.split)
  show "check_region_access page_space s (a, b) fl \<longleftrightarrow>
      (\<forall>x \<in> {unat a ..< unat b}. \<exists>p. page_perm s x = Some p \<and> fl \<subseteq> p)"
  proof (cases "unat a < unat b")
    case True
    with pages_between [OF True, of ?P] show ?thesis by (simp add: page_space_def P)
  qed (simp add: page_space_def)
next
  fix s hint n lo hi ps a
  assume "find_free_area page_space s hint n (lo, hi) ps = Some a"
  then have free: "free_at s n (lo, hi) ps a" by (auto simp: page_space_def find_Some_iff split: if_split_asm)
  then have al: "page_aligned a n" and hi: "unat a + unat n \<le> unat hi" by (simp_all add: free_at_def)
  have "unat hi < 2 ^ 64" using unsigned_less [of hi, where 'a = nat] by simp
  moreover have "page_perm s x = None" if "x \<in> region a n" for x
    using free that pages_of_iff [OF al, of x] by (simp add: free_at_def list_all_iff page_perm_def)
  ultimately show "unat a + unat n \<le> 2 ^ 64 \<and> 2 ^ page_bits ps dvd unat a \<and> unat lo \<le> unat a
      \<and> unat a + unat n \<le> unat hi \<and> (\<forall>x \<in> region a n. page_perm s x = None)"
    using free hi by (simp add: free_at_def mod_eq_0_iff_dvd)
next
  fix a n fl pop ps s u s'
  assume "map_alloc page_space a n fl pop ps s = (Inr u, s')"
  then have "page_aligned a n" "s' = map (\<lambda>p. (p, fl)) (pages_of a n) @ s"
    by (auto simp: page_space_def split: if_split_asm)
  then show "page_perm s' = (\<lambda>x. if x \<in> region a n then Some fl else page_perm s x)"
    by (auto simp: page_perm_def map_of_pages pages_of_iff map_add_def fun_eq_iff)
next
  fix a n s u s'
  assume "unmap page_space a n s = (Inr u, s')"
  then have "page_aligned a n" "s' = filter (\<lambda>(p, _). p \<notin> set (pages_of a n)) s"
    by (auto simp: page_space_def split: if_split_asm)
  then show "page_perm s' = (\<lambda>x. if x \<in> region a n then None else page_perm s x)"
    by (auto simp: page_perm_def map_of_filter_key pages_of_iff fun_eq_iff)
next
  fix a n fl s u s'
  assume "protect page_space a n fl s = (Inr u, s')"
  then have "page_aligned a n"
    "s' = map (\<lambda>(p, q). (p, if p \<in> set (pages_of a n) then fl else q)) s"
    by (auto simp: page_space_def split: if_split_asm)
  then show "page_perm s' = (\<lambda>x. if x \<in> region a n then map_option (\<lambda>_. fl) (page_perm s x) else page_perm s x)"
    by (auto simp: page_perm_def map_of_map_key pages_of_iff fun_eq_iff map_option_case split: option.split)
qed (auto simp: page_space_def split: if_split_asm)

end
