(* ===== verification/User_Memory.thy ===== *)
theory User_Memory
  imports Addr_Space
begin

text \<open>
  Access to user memory: the checks of \<^verbatim>\<open>api/src/ptr.rs\<close> that turn an address passed by a program
  into a reference, a slice or a string, and the page fault handler of \<^verbatim>\<open>src/mm.rs\<close>. A reference is
  the address, a slice the address and its length; \<open>None\<close> is a panic.
\<close>

section \<open>Regions of known size\<close>

record Layout =
  l_size :: usize
  l_align :: usize

text \<open>\<^verbatim>\<open>Layout::array\<close> fails when the size, rounded up to the alignment, exceeds \<^verbatim>\<open>isize::MAX\<close>.\<close>

definition Layout_array :: "Layout \<Rightarrow> usize \<Rightarrow> Layout option" where
  "Layout_array T len =
     (if unat (l_size T) * unat len \<le> 2 ^ 63 - unat (l_align T)
      then Some \<lparr>l_size = l_size T * len, l_align = l_align T\<rparr> else None)"

definition check_region ::
  "addr_ops \<Rightarrow> 's aspace_ops \<Rightarrow> (AxError \<Rightarrow> LinuxError) \<Rightarrow> usize \<Rightarrow> Layout \<Rightarrow> MappingFlags \<Rightarrow> 's \<Rightarrow>
     (unit LinuxResult \<times> 's) option" where
  "check_region A M into start layout access_flags s =
     (let align = l_align layout
      in if start AND (align - 1) \<noteq> 0 then Some (Inl EFAULT, s)
      else case from_start_size A start (l_size layout) of
        None \<Rightarrow> None
      | Some rng \<Rightarrow>
          if \<not> check_region_access M s rng access_flags then Some (Inl EFAULT, s)
          else
            let page_start = align_down A start PAGE_SIZE_4K;
                page_end = align_up A (start + l_size layout) PAGE_SIZE_4K;
                (r, s') = populate_area M page_start (page_end - page_start) access_flags s
            in Some (map_err into r, s'))"

definition UserPtr_ACCESS_FLAGS :: MappingFlags where
  "UserPtr_ACCESS_FLAGS = {READ, WRITE}"

definition UserConstPtr_ACCESS_FLAGS :: MappingFlags where
  "UserConstPtr_ACCESS_FLAGS = {READ}"

text \<open>The reference or slice a successful check gives.\<close>

definition checked_as :: "'a \<Rightarrow> (unit LinuxResult \<times> 's) option \<Rightarrow> ('a LinuxResult \<times> 's) option" where
  "checked_as x c = map_option (\<lambda>(r, s). (try_then r (\<lambda>_. Inr x), s)) c"

definition get_as_mut ::
  "addr_ops \<Rightarrow> 's aspace_ops \<Rightarrow> (AxError \<Rightarrow> LinuxError) \<Rightarrow> Layout \<Rightarrow> usize \<Rightarrow> 's \<Rightarrow> (usize LinuxResult \<times> 's) option" where
  "get_as_mut A M into T p s = checked_as p (check_region A M into p T UserPtr_ACCESS_FLAGS s)"

definition get_as_mut_slice ::
  "addr_ops \<Rightarrow> 's aspace_ops \<Rightarrow> (AxError \<Rightarrow> LinuxError) \<Rightarrow> Layout \<Rightarrow> usize \<Rightarrow> usize \<Rightarrow> 's \<Rightarrow>
     ((usize \<times> usize) LinuxResult \<times> 's) option" where
  "get_as_mut_slice A M into T p len s =
     (case Layout_array T len of
        None \<Rightarrow> None
      | Some layout \<Rightarrow> checked_as (p, len) (check_region A M into p layout UserPtr_ACCESS_FLAGS s))"

definition get_as_ref ::
  "addr_ops \<Rightarrow> 's aspace_ops \<Rightarrow> (AxError \<Rightarrow> LinuxError) \<Rightarrow> Layout \<Rightarrow> usize \<Rightarrow> 's \<Rightarrow> (usize LinuxResult \<times> 's) option" where
  "get_as_ref A M into T p s = checked_as p (check_region A M into p T UserConstPtr_ACCESS_FLAGS s)"

definition get_as_slice ::
  "addr_ops \<Rightarrow> 's aspace_ops \<Rightarrow> (AxError \<Rightarrow> LinuxError) \<Rightarrow> Layout \<Rightarrow> usize \<Rightarrow> usize \<Rightarrow> 's \<Rightarrow>
     ((usize \<times> usize) LinuxResult \<times> 's) option" where
  "get_as_slice A M into T p len s =
     (case Layout_array T len of
        None \<Rightarrow> None
      | Some layout \<Rightarrow> checked_as (p, len) (check_region A M into p layout UserConstPtr_ACCESS_FLAGS s))"

text \<open>The macro \<^verbatim>\<open>nullable!\<close> around one of the checks.\<close>

definition nullable :: "usize \<Rightarrow> ('s \<Rightarrow> ('a LinuxResult \<times> 's) option) \<Rightarrow> 's \<Rightarrow> ('a option LinuxResult \<times> 's) option" where
  "nullable p get s =
     (if p = 0 then Some (Inr None, s)
      else map_option (\<lambda>(r, s). (try_then r (\<lambda>x. Inr (Some x)), s)) (get s))"

section \<open>Null-terminated data\<close>

text \<open>
  The scan for the terminator. It may panic, fault on an address that cannot be read (the handler
  below then ends the process), or return; \<open>None\<close> is a scan that never ends. Memory is given by
  \<open>read\<close>, where \<open>None\<close> is an address at which the fault cannot be resolved.
\<close>

datatype 'a scan = ScanPanic | ScanFault usize | ScanDone "'a LinuxResult"

partial_function (option) check_pages :: "addr_ops \<Rightarrow> (usize \<times> usize \<Rightarrow> bool) \<Rightarrow> usize \<Rightarrow> usize \<Rightarrow> usize scan option" where
  "check_pages A access ptr page =
     (if page \<le> ptr then
        (case from_start_size A page PAGE_SIZE_4K of
           None \<Rightarrow> Some ScanPanic
         | Some rng \<Rightarrow>
             if \<not> access rng then Some (ScanDone (Inl EFAULT))
             else check_pages A access ptr (page + PAGE_SIZE_4K))
      else Some (ScanDone (Inr page)))"

partial_function (option) null_loop ::
  "addr_ops \<Rightarrow> (usize \<times> usize \<Rightarrow> bool) \<Rightarrow> (usize \<Rightarrow> 'v option) \<Rightarrow> 'v \<Rightarrow> usize \<Rightarrow> usize \<Rightarrow> usize \<Rightarrow> usize \<Rightarrow>
     usize scan option" where
  "null_loop A access read zero sz start len page =
     (let ptr = start + len * sz
      in Option.bind (check_pages A access ptr page) (\<lambda>r.
        case r of
          ScanDone (Inr page') \<Rightarrow>
            (case read ptr of
               None \<Rightarrow> Some (ScanFault ptr)
             | Some v \<Rightarrow>
                 if v = zero then Some (ScanDone (Inr len))
                 else null_loop A access read zero sz start (len + 1) page')
        | other \<Rightarrow> Some other))"

definition check_null_terminated ::
  "addr_ops \<Rightarrow> 's aspace_ops \<Rightarrow> Layout \<Rightarrow> (usize \<Rightarrow> 'v option) \<Rightarrow> 'v \<Rightarrow> usize \<Rightarrow> MappingFlags \<Rightarrow> 's \<Rightarrow>
     usize scan option" where
  "check_null_terminated A M T read zero start access_flags s =
     (let align = l_align T
      in if start AND (align - 1) \<noteq> 0 then Some (ScanDone (Inl EFAULT))
      else null_loop A (\<lambda>rng. check_region_access M s rng access_flags) read zero (l_size T) start 0
             (align_down A start PAGE_SIZE_4K))"

fun map_scan :: "('a \<Rightarrow> 'b LinuxResult) \<Rightarrow> 'a scan \<Rightarrow> 'b scan" where
  "map_scan f ScanPanic = ScanPanic"
| "map_scan f (ScanFault a) = ScanFault a"
| "map_scan f (ScanDone r) = ScanDone (try_then r f)"

definition get_as_mut_null_terminated ::
  "addr_ops \<Rightarrow> 's aspace_ops \<Rightarrow> Layout \<Rightarrow> (usize \<Rightarrow> 'v option) \<Rightarrow> 'v \<Rightarrow> usize \<Rightarrow> 's \<Rightarrow> (usize \<times> usize) scan option" where
  "get_as_mut_null_terminated A M T read zero p s =
     map_option (map_scan (\<lambda>len. Inr (p, len))) (check_null_terminated A M T read zero p UserPtr_ACCESS_FLAGS s)"

definition get_as_null_terminated ::
  "addr_ops \<Rightarrow> 's aspace_ops \<Rightarrow> Layout \<Rightarrow> (usize \<Rightarrow> 'v option) \<Rightarrow> 'v \<Rightarrow> usize \<Rightarrow> 's \<Rightarrow> (usize \<times> usize) scan option" where
  "get_as_null_terminated A M T read zero p s =
     map_option (map_scan (\<lambda>len. Inr (p, len))) (check_null_terminated A M T read zero p UserConstPtr_ACCESS_FLAGS s)"

text \<open>The elements of a slice, and the well-formed byte sequences of UTF-8.\<close>

definition slice_elems :: "(usize \<Rightarrow> 'v option) \<Rightarrow> usize \<Rightarrow> usize \<Rightarrow> nat \<Rightarrow> 'v list" where
  "slice_elems read sz start n = map (\<lambda>i. the (read (start + of_nat i * sz))) [0..<n]"

definition utf8_cont :: "u8 \<Rightarrow> bool" where
  "utf8_cont b \<longleftrightarrow> 0x80 \<le> b \<and> b \<le> 0xBF"

fun utf8_valid :: "u8 list \<Rightarrow> bool" where
  "utf8_valid [] = True"
| "utf8_valid (a # bs) =
     (if a \<le> 0x7F then utf8_valid bs
      else case bs of
        [] \<Rightarrow> False
      | b # cs \<Rightarrow>
          if 0xC2 \<le> a \<and> a \<le> 0xDF then utf8_cont b \<and> utf8_valid cs
          else case cs of
            [] \<Rightarrow> False
          | c # ds \<Rightarrow>
              if 0xE0 \<le> a \<and> a \<le> 0xEF then
                utf8_cont b \<and> (a = 0xE0 \<longrightarrow> 0xA0 \<le> b) \<and> (a = 0xED \<longrightarrow> b \<le> 0x9F) \<and> utf8_cont c \<and> utf8_valid ds
              else case ds of
                [] \<Rightarrow> False
              | d # es \<Rightarrow>
                  0xF0 \<le> a \<and> a \<le> 0xF4 \<and> utf8_cont b \<and> (a = 0xF0 \<longrightarrow> 0x90 \<le> b) \<and> (a = 0xF4 \<longrightarrow> b \<le> 0x8F)
                  \<and> utf8_cont c \<and> utf8_cont d \<and> utf8_valid es)"

definition c_char_layout :: Layout where
  "c_char_layout = \<lparr>l_size = 1, l_align = 1\<rparr>"

definition get_as_str ::
  "addr_ops \<Rightarrow> 's aspace_ops \<Rightarrow> (usize \<Rightarrow> u8 option) \<Rightarrow> usize \<Rightarrow> 's \<Rightarrow> u8 list scan option" where
  "get_as_str A M read p s =
     map_option (map_scan (\<lambda>(p, len).
         let slice = slice_elems read 1 p (unat len)
         in if utf8_valid slice then Inr slice else Inl EILSEQ))
       (get_as_null_terminated A M c_char_layout read 0 p s)"

section \<open>Page faults\<close>

datatype 's fault_outcome = NotHandled | Handled 's | ExitGroup i32 's

definition access_user_memory :: "(bool \<Rightarrow> 'r) \<Rightarrow> 'r \<times> bool" where
  "access_user_memory f = (let ACCESSING_USER_MEM = True; result = f ACCESSING_USER_MEM in (result, False))"

definition handle_page_fault ::
  "'s aspace_ops \<Rightarrow> i32 \<Rightarrow> bool \<Rightarrow> usize \<Rightarrow> MappingFlags \<Rightarrow> bool \<Rightarrow> 's \<Rightarrow> 's fault_outcome" where
  "handle_page_fault M SIGSEGV is_accessing_user_memory vaddr access_flags is_user s =
     (if \<not> is_user \<and> \<not> is_accessing_user_memory then NotHandled
      else case as_page_fault M vaddr access_flags s of
        (handled, s') \<Rightarrow> if \<not> handled then ExitGroup SIGSEGV s' else Handled s')"


section \<open>Properties\<close>

lemma unat_mult_small:
  assumes "unat a * unat b < 2 ^ 64"
  shows "unat (a * b :: usize) = unat a * unat b"
  using assms unat_mult_lem [of a b] by simp

lemma check_region_ok:
  assumes "page_addresses A" "address_space M perm" "l_align L = 2 ^ k" "k < 64"
    and "check_region A M into p L fl s = Some (Inr u, s')"
  shows "2 ^ k dvd unat p" "unat p + unat (l_size L) < 2 ^ 64"
    "\<forall>x \<in> region p (l_size L). \<exists>q. perm s x = Some q \<and> fl \<subseteq> q" "perm s' = perm s"
proof -
  note run = assms(5) [unfolded check_region_def Let_def assms(3)]
  have al: "p AND (2 ^ k - 1) = 0"
  proof (rule ccontr)
    assume "p AND (2 ^ k - 1) \<noteq> 0"
    from run [unfolded if_P [OF this]] show False by simp
  qed
  then show "2 ^ k dvd unat p" by (simp add: and_mask_dvd assms(4))
  note run = run [unfolded al]
  then have sum: "unat p + unat (l_size L) < 2 ^ 64"
    by (auto simp: page_addresses.from_start_size_iff [OF assms(1)] split: if_split_asm)
  then show "unat p + unat (l_size L) < 2 ^ 64" .
  then have end_: "unat (p + l_size L) = unat p + unat (l_size L)"
    using unat_add_lem [of p "l_size L"] by simp
  have acc: "check_region_access M s (p, p + l_size L) fl"
    using run sum by (auto simp: page_addresses.from_start_size_iff [OF assms(1)] split: if_split_asm)
  then show "\<forall>x \<in> region p (l_size L). \<exists>q. perm s x = Some q \<and> fl \<subseteq> q"
    by (simp add: address_space.access_iff [OF assms(2)] end_ region_def)
  let ?pop = "populate_area M (align_down A p PAGE_SIZE_4K)
    (align_up A (p + l_size L) PAGE_SIZE_4K - align_down A p PAGE_SIZE_4K) fl s"
  have "s' = snd ?pop"
    using run sum acc by (simp add: page_addresses.from_start_size_iff [OF assms(1)] split_beta)
  then show "perm s' = perm s" by (simp add: address_space.populate_perm [OF assms(2)])
qed

lemma check_region_fails:
  assumes "page_addresses A" "address_space M perm" "l_align L = 2 ^ k" "k < 64"
  shows "\<not> 2 ^ k dvd unat p \<Longrightarrow> check_region A M into p L fl s = Some (Inl EFAULT, s)"
    and "2 ^ k dvd unat p \<Longrightarrow> 2 ^ 64 \<le> unat p + unat (l_size L) \<Longrightarrow> check_region A M into p L fl s = None"
    and "2 ^ k dvd unat p \<Longrightarrow> unat p + unat (l_size L) < 2 ^ 64 \<Longrightarrow> x \<in> region p (l_size L) \<Longrightarrow>
      \<not> (\<exists>q. perm s x = Some q \<and> fl \<subseteq> q) \<Longrightarrow> check_region A M into p L fl s = Some (Inl EFAULT, s)"
proof -
  show "\<not> 2 ^ k dvd unat p \<Longrightarrow> check_region A M into p L fl s = Some (Inl EFAULT, s)"
    by (simp add: check_region_def assms(3) and_mask_dvd [OF assms(4)])
  show "2 ^ k dvd unat p \<Longrightarrow> 2 ^ 64 \<le> unat p + unat (l_size L) \<Longrightarrow> check_region A M into p L fl s = None"
    by (simp add: check_region_def assms(3) and_mask_dvd [OF assms(4)]
        page_addresses.from_start_size_iff [OF assms(1)])
  assume al: "2 ^ k dvd unat p" and sum: "unat p + unat (l_size L) < 2 ^ 64"
    and x: "x \<in> region p (l_size L)" "\<not> (\<exists>q. perm s x = Some q \<and> fl \<subseteq> q)"
  have "unat (p + l_size L) = unat p + unat (l_size L)"
    using sum unat_add_lem [of p "l_size L"] by simp
  then have "\<not> check_region_access M s (p, p + l_size L) fl"
    unfolding address_space.access_iff [OF assms(2)] using x by (auto simp: region_def)
  then show "check_region A M into p L fl s = Some (Inl EFAULT, s)"
    using al sum by (simp add: check_region_def assms(3) and_mask_dvd [OF assms(4)]
        page_addresses.from_start_size_iff [OF assms(1)])
qed

text \<open>
  C28. \<^verbatim>\<open>UserPtr::get_as_mut_slice\<close>. A slice it returns is the one asked for, aligned, inside the
  address space, every byte of it readable and writable, and no permission has changed. It gives
  \<^verbatim>\<open>EFAULT\<close> for a misaligned address and for a region with an inaccessible byte. It panics for a
  length whose size in bytes exceeds \<^verbatim>\<open>isize::MAX\<close> and for a region that wraps around the end of the
  address space, both of which a program can pass.
\<close>

theorem get_as_mut_slice_spec:
  assumes "page_addresses A" "address_space M perm" "l_align T = 2 ^ k" "k < 12"
    and "n = unat (l_size T) * unat len" "run = get_as_mut_slice A M into T p len s"
  shows "(2 ^ 63 - 2 ^ k < n \<longrightarrow> run = None)
    \<and> (n \<le> 2 ^ 63 - 2 ^ k \<and> \<not> 2 ^ k dvd unat p \<longrightarrow> run = Some (Inl EFAULT, s))
    \<and> (n \<le> 2 ^ 63 - 2 ^ k \<and> 2 ^ k dvd unat p \<and> 2 ^ 64 \<le> unat p + n \<longrightarrow> run = None)
    \<and> (n \<le> 2 ^ 63 - 2 ^ k \<and> 2 ^ k dvd unat p \<and> unat p + n < 2 ^ 64
        \<and> \<not> (\<forall>x \<in> {unat p ..< unat p + n}. \<exists>q. perm s x = Some q \<and> {READ, WRITE} \<subseteq> q)
        \<longrightarrow> run = Some (Inl EFAULT, s))
    \<and> (\<forall>slice s'. run = Some (Inr slice, s') \<longrightarrow> slice = (p, len) \<and> 2 ^ k dvd unat p \<and> unat p + n < 2 ^ 64
        \<and> (\<forall>x \<in> {unat p ..< unat p + n}. \<exists>q. perm s x = Some q \<and> {READ, WRITE} \<subseteq> q) \<and> perm s' = perm s)"
proof (cases "n \<le> 2 ^ 63 - 2 ^ k")
  case False
  then show ?thesis using assms by (simp add: get_as_mut_slice_def Layout_array_def)
next
  case True
  let ?L = "\<lparr>l_size = l_size T * len, l_align = l_align T\<rparr>"
  let ?c = "check_region A M into p ?L UserPtr_ACCESS_FLAGS s"
  have k: "k < 64" using assms(4) by simp
  have size: "unat (l_size T * len) = n" using True assms(5) by (simp add: unat_mult_small)
  have run: "run = checked_as (p, len) ?c"
    using True assms(3-6) k by (simp add: get_as_mut_slice_def Layout_array_def)
  have L: "l_align ?L = 2 ^ k" and L_size: "l_size ?L = l_size T * len" using assms(3) by simp_all
  note fails = check_region_fails [OF assms(1,2) L k, unfolded L_size size]
  note ok = check_region_ok [OF assms(1,2) L k, unfolded L_size size region_def]
  show ?thesis
  proof (intro conjI impI allI)
    show "run = Some (Inl EFAULT, s)" if "n \<le> 2 ^ 63 - 2 ^ k \<and> \<not> 2 ^ k dvd unat p"
      using that fails(1) by (simp add: run checked_as_def)
    show "run = None" if "n \<le> 2 ^ 63 - 2 ^ k \<and> 2 ^ k dvd unat p \<and> 2 ^ 64 \<le> unat p + n"
      using that fails(2) by (simp add: run checked_as_def)
    show "run = Some (Inl EFAULT, s)" if "n \<le> 2 ^ 63 - 2 ^ k \<and> 2 ^ k dvd unat p \<and> unat p + n < 2 ^ 64
        \<and> \<not> (\<forall>x \<in> {unat p ..< unat p + n}. \<exists>q. perm s x = Some q \<and> {READ, WRITE} \<subseteq> q)"
    proof -
      from that obtain x where "x \<in> region p (l_size T * len)" "\<not> (\<exists>q. perm s x = Some q \<and> UserPtr_ACCESS_FLAGS \<subseteq> q)"
        unfolding region_def size UserPtr_ACCESS_FLAGS_def by auto
      with that fails(3) have "?c = Some (Inl EFAULT, s)" by blast
      then show ?thesis by (simp add: run checked_as_def)
    qed
  next
    fix slice s'
    assume "run = Some (Inr slice, s')"
    then have c: "?c = Some (Inr (), s')" "slice = (p, len)"
      by (auto simp: run checked_as_def)
    from c(2) ok [OF c(1)] show "slice = (p, len)" "2 ^ k dvd unat p" "unat p + n < 2 ^ 64"
      "\<forall>x \<in> {unat p ..< unat p + n}. \<exists>q. perm s x = Some q \<and> {READ, WRITE} \<subseteq> q" "perm s' = perm s"
      by (simp_all add: UserPtr_ACCESS_FLAGS_def)
  qed (use True in simp)
qed

theorem get_as_mut_slice_spec_witness:
  "get_as_mut_slice mask_addr page_space (\<lambda>_. EIO) c_char_layout 0x5000 0xFFFFFFFFFFFFFFFF [(5, {READ, WRITE})] = None
   \<and> get_as_mut_slice mask_addr page_space (\<lambda>_. EIO) c_char_layout 0xFFFFFFFFFFFFFFF0 32 [(5, {READ, WRITE})] = None
   \<and> get_as_mut_slice mask_addr page_space (\<lambda>_. EIO) c_char_layout 0x5FFF 2 [(5, {READ, WRITE})]
       = Some (Inl EFAULT, [(5, {READ, WRITE})])"
proof -
  have L: "l_align c_char_layout = 2 ^ 0" "l_size c_char_layout = 1" by (simp_all add: c_char_layout_def)
  note spec = get_as_mut_slice_spec [OF mask_pages.page_addresses_axioms page_lists.address_space_axioms L(1) _ refl refl,
      unfolded L(2)]
  let ?s = "[(5, {READ, WRITE})] :: page_list"
  have gap: "page_perm ?s 0x6000 = None" by (simp add: page_perm_def)
  have "get_as_mut_slice mask_addr page_space (\<lambda>_. EIO) c_char_layout 0x5000 0xFFFFFFFFFFFFFFFF ?s = None"
    by (rule spec [THEN conjunct1, rule_format]) simp_all
  moreover have "get_as_mut_slice mask_addr page_space (\<lambda>_. EIO) c_char_layout 0xFFFFFFFFFFFFFFF0 32 ?s = None"
    by (rule spec [THEN conjunct2, THEN conjunct2, THEN conjunct1, rule_format]) simp_all
  moreover have "get_as_mut_slice mask_addr page_space (\<lambda>_. EIO) c_char_layout 0x5FFF 2 ?s = Some (Inl EFAULT, ?s)"
  proof (rule spec [THEN conjunct2, THEN conjunct2, THEN conjunct2, THEN conjunct1, rule_format])
    have "\<not> (\<exists>q. page_perm ?s 0x6000 = Some q \<and> {READ, WRITE} \<subseteq> q)" using gap by simp
    then show "unat 1 * unat (2 :: usize) \<le> 2 ^ 63 - 2 ^ 0 \<and> 2 ^ 0 dvd unat (0x5FFF :: usize)
        \<and> unat (0x5FFF :: usize) + unat 1 * unat (2 :: usize) < 2 ^ 64
        \<and> \<not> (\<forall>x \<in> {unat (0x5FFF :: usize) ..< unat (0x5FFF :: usize) + unat 1 * unat (2 :: usize)}.
            \<exists>q. page_perm ?s x = Some q \<and> {READ, WRITE} \<subseteq> q)"
      by (simp del: insert_subset) (rule bexI [of _ "0x6000"], simp_all)
  qed simp
  ultimately show ?thesis by simp
qed

subsection \<open>The scan for the terminator\<close>

text \<open>
  Pages are accessible from \<open>lo\<close> up to the page at \<open>hi\<close>, which is not. The scan is described by
  the natural numbers of its addresses.
\<close>

definition accessible_up_to :: "(usize \<times> usize \<Rightarrow> bool) \<Rightarrow> nat \<Rightarrow> nat \<Rightarrow> bool" where
  "accessible_up_to access lo hi \<longleftrightarrow>
     4096 dvd lo \<and> 4096 dvd hi \<and> lo \<le> hi \<and> hi + 4096 < 2 ^ 64
     \<and> (\<forall>q. 4096 dvd q \<longrightarrow> lo \<le> q \<longrightarrow> q < hi \<longrightarrow> access (of_nat q, of_nat (q + 4096)))
     \<and> \<not> access (of_nat hi, of_nat (hi + 4096))"

lemma unat_of_nat_small [simp]: "n < 2 ^ 64 \<Longrightarrow> unat (of_nat n :: usize) = n"
  by (simp add: unsigned_of_nat take_bit_nat_eq_self)

lemma unat_PAGE_SIZE: "unat PAGE_SIZE_4K = 4096"
  by (simp add: PAGE_SIZE_4K_def)

lemma next_page_bound:
  assumes "4096 dvd q" "p < q"
  shows "(p div 4096 + 1) * 4096 \<le> (q :: nat)"
proof -
  from assms(1) obtain j where j: "q = j * 4096" by (auto elim!: dvdE)
  with assms(2) have "p div 4096 < j" by (simp add: less_mult_imp_div_less)
  then have "(p div 4096 + 1) * 4096 \<le> j * 4096" by (intro mult_le_mono1) simp
  then show ?thesis using j by simp
qed

lemma check_pages_eq:
  assumes "page_addresses A" "accessible_up_to access lo hi"
    and "4096 dvd q" "lo \<le> q" "q \<le> hi" "p < 2 ^ 64"
  shows "check_pages A access (of_nat p) (of_nat q) =
    Some (ScanDone (if p < hi then Inr (of_nat (max q ((p div 4096 + 1) * 4096))) else Inl EFAULT))"
  using assms(3-5)
proof (induction "hi - q" arbitrary: q rule: less_induct)
  case less
  have hi: "4096 dvd hi" "hi + 4096 < 2 ^ 64" using assms(2) by (simp_all add: accessible_up_to_def)
  have q: "unat (of_nat q :: usize) = q" "unat (of_nat p :: usize) = p"
    using less.prems hi assms(6) by simp_all
  have le: "(of_nat q :: usize) \<le> of_nat p \<longleftrightarrow> q \<le> p" by (simp add: word_le_nat_alt q)
  have rng: "from_start_size A (of_nat q) PAGE_SIZE_4K = Some (of_nat q, of_nat (q + 4096))"
    using less.prems hi by (simp add: page_addresses.from_start_size_iff [OF assms(1)] q unat_PAGE_SIZE) (simp add: PAGE_SIZE_4K_def)
  show ?case
  proof (cases "q \<le> p")
    case False
    then have "(p div 4096 + 1) * 4096 \<le> q" using less.prems(1) by (intro next_page_bound) simp_all
    with False less.prems show ?thesis by (subst check_pages.simps) (simp add: le max_absorb1)
  next
    case True
    show ?thesis
    proof (cases "q < hi")
      case False
      with less.prems have "q = hi" by simp
      moreover have "\<not> access (of_nat hi, of_nat (hi + 4096))" using assms(2) by (simp add: accessible_up_to_def)
      ultimately show ?thesis using True rng le by (subst check_pages.simps) simp
    next
      case q_top: True
      have nxt: "4096 dvd q + 4096" "lo \<le> q + 4096" "q + 4096 \<le> hi"
        using less.prems hi q_top by (auto elim!: dvdE)
      have "access (of_nat q, of_nat (q + 4096))"
        using assms(2) less.prems q_top by (simp add: accessible_up_to_def)
      then have "check_pages A access (of_nat p) (of_nat q) = check_pages A access (of_nat p) (of_nat (q + 4096))"
        using True rng by (subst check_pages.simps) (simp add: le PAGE_SIZE_4K_def add.commute)
      also have "\<dots> = Some (ScanDone (if p < hi then Inr (of_nat (max (q + 4096) ((p div 4096 + 1) * 4096))) else Inl EFAULT))"
        using less.hyps [of "q + 4096"] nxt q_top by simp
      also have "max (q + 4096) ((p div 4096 + 1) * 4096) = max q ((p div 4096 + 1) * 4096)"
        using True less.prems(1) by (auto elim!: dvdE)
      finally show ?thesis .
    qed
  qed
qed

lemma next_page_le:
  fixes q :: nat
  assumes "4096 dvd hi" "q \<le> hi" "p < hi" "4096 dvd q"
  shows "max q ((p div 4096 + 1) * 4096) \<le> hi" "4096 dvd max q ((p div 4096 + 1) * 4096)"
  using assms next_page_bound [OF assms(1,3)] by (simp_all add: max_def)

lemma null_loop_eq:
  assumes A: "page_addresses A" and acc: "accessible_up_to access lo hi"
    and elems: "length vs = n" "unat start + n * 2 ^ k = hi"
      "\<And>i. i < n \<Longrightarrow> read (of_nat (unat start + i * 2 ^ k)) = Some (vs ! i)"
    and "i \<le> n" "4096 dvd q" "lo \<le> q" "q \<le> hi"
  shows "null_loop A access read zero (2 ^ k) start (of_nat i) (of_nat q) =
    Some (ScanDone (if zero \<in> set (drop i vs)
      then Inr (of_nat (i + length (takeWhile (\<lambda>v. v \<noteq> zero) (drop i vs)))) else Inl EFAULT))"
  using assms(6-)
proof (induction "n - i" arbitrary: i q)
  case 0
  then have "start + of_nat i * 2 ^ k = (of_nat hi :: usize)" using elems(2) by auto
  moreover have "check_pages A access (of_nat hi) (of_nat q) = Some (ScanDone (Inl EFAULT))"
    using check_pages_eq [OF A acc 0(3-5), of hi] acc by (simp add: accessible_up_to_def)
  ultimately show ?case using 0 elems(1) by (subst null_loop.simps) (simp add: Let_def)
next
  case (Suc m)
  then have i: "i < n" by simp
  let ?p = "unat start + i * 2 ^ k"
  let ?q = "max q ((?p div 4096 + 1) * 4096)"
  have hi: "4096 dvd hi" "hi + 4096 < 2 ^ 64" using acc by (simp_all add: accessible_up_to_def)
  have "i * 2 ^ k < n * 2 ^ k" using i by simp
  then have p: "?p < hi" using elems(2) by linarith
  have ptr: "start + of_nat i * 2 ^ k = (of_nat ?p :: usize)" by simp
  have pages: "check_pages A access (of_nat ?p) (of_nat q) = Some (ScanDone (Inr (of_nat ?q)))"
    using check_pages_eq [OF A acc Suc.prems(2-4), of ?p] p hi by simp
  have step: "null_loop A access read zero (2 ^ k) start (of_nat i) (of_nat q) =
    (if vs ! i = zero then Some (ScanDone (Inr (of_nat i)))
     else null_loop A access read zero (2 ^ k) start (of_nat (Suc i)) (of_nat ?q))"
    using elems(3) [OF i] pages
    by (subst null_loop.simps) (simp only: Let_def ptr, simp add: add.commute)
  have vs: "drop i vs = vs ! i # drop (Suc i) vs" using i elems(1) by (simp add: Cons_nth_drop_Suc)
  note q = next_page_le [OF hi(1) Suc.prems(4) p Suc.prems(2)]
  have "lo \<le> ?q" using Suc.prems(3) by simp
  have IH: "null_loop A access read zero (2 ^ k) start (of_nat (Suc i)) (of_nat ?q) =
    Some (ScanDone (if zero \<in> set (drop (Suc i) vs)
      then Inr (of_nat (Suc i + length (takeWhile (\<lambda>v. v \<noteq> zero) (drop (Suc i) vs)))) else Inl EFAULT))"
    by (rule Suc.hyps(1) [OF _ _ q(2) \<open>lo \<le> ?q\<close> q(1)]) (use Suc.hyps(2) i in simp_all)
  show ?case unfolding step IH vs by simp
qed

text \<open>
  C29. The search for a terminator ends. If some page at or after the given address is not
  accessible, the loop of \<^verbatim>\<open>check_null_terminated\<close> stops: it returns the index of the first zero
  element that lies before that page and \<^verbatim>\<open>EFAULT\<close> if there is none, and it reads no address outside
  the pages it has checked.
\<close>

theorem check_null_terminated_stops:
  assumes "page_addresses A" "l_size T = 2 ^ k" "l_align T = 2 ^ k" "k \<le> 12" "2 ^ k dvd unat start"
    and "accessible_up_to (\<lambda>rng. check_region_access M s rng fl) (unat start div 4096 * 4096) hi"
    and "\<And>a. unat start \<le> unat a \<Longrightarrow> unat a < hi \<Longrightarrow> \<exists>v. read a = Some v"
    and "vs = slice_elems read (2 ^ k) start ((hi - unat start) div 2 ^ k)"
  shows "check_null_terminated A M T read zero start fl s =
    Some (ScanDone (if zero \<in> set vs then Inr (of_nat (length (takeWhile (\<lambda>v. v \<noteq> zero) vs))) else Inl EFAULT))"
proof -
  let ?lo = "unat start div 4096 * 4096" and ?n = "(hi - unat start) div 2 ^ k"
  let ?access = "\<lambda>rng. check_region_access M s rng fl"
  have k: "k < 64" using assms(4) by simp
  have acc: "4096 dvd hi" "?lo \<le> hi" "hi + 4096 < 2 ^ 64" using assms(6) by (simp_all add: accessible_up_to_def)
  have page: "align_down A start PAGE_SIZE_4K = of_nat ?lo"
    using page_addresses.align_down_pow2 [OF assms(1), of 12 start]
      acc(2,3)
    unfolding PAGE_SIZE_4K_pow word_unat_eq_iff by (simp del: of_nat_mult)
  have run: "check_null_terminated A M T read zero start fl s =
      null_loop A ?access read zero (2 ^ k) start (of_nat 0) (of_nat ?lo)"
    using assms(2,3,5) k by (simp add: check_null_terminated_def and_mask_dvd page)
  have lo: "4096 dvd ?lo" by simp
  show ?thesis
  proof (cases "unat start < hi")
    case True
    have "(2 ^ k :: nat) dvd 2 ^ 12" using assms(4) by (rule le_imp_power_dvd)
    also have "(2 ^ 12 :: nat) dvd hi" using acc(1) by simp
    finally have "2 ^ k dvd hi - unat start" using assms(5) by (rule dvd_diff_nat)
    then have n: "unat start + ?n * 2 ^ k = hi" using True by simp
    have elems: "read (of_nat (unat start + i * 2 ^ k)) = Some (vs ! i)" if "i < ?n" for i
    proof -
      have "i * 2 ^ k < ?n * 2 ^ k" using that by simp
      then have "unat start + i * 2 ^ k < hi" using n by linarith
      then have "\<exists>v. read (of_nat (unat start + i * 2 ^ k)) = Some v"
        using assms(7) [of "of_nat (unat start + i * 2 ^ k)"] acc(3)
        by (simp del: of_nat_add of_nat_mult)
      then show ?thesis using that by (auto simp: assms(8) slice_elems_def)
    qed
    show ?thesis
      using null_loop_eq [OF assms(1,6) _ n elems, of 0 ?lo zero] acc(2) by (simp add: run assms(8) slice_elems_def)
  next
    case False
    then have "check_pages A ?access start (of_nat ?lo) = Some (ScanDone (Inl EFAULT))"
      using check_pages_eq [OF assms(1,6) lo order_refl acc(2), of "unat start"]
        unsigned_less [of start, where 'a = nat] by simp
    then have "null_loop A ?access read zero (2 ^ k) start (of_nat 0) (of_nat ?lo) = Some (ScanDone (Inl EFAULT))"
      by (subst null_loop.simps) simp
    then show ?thesis using False by (simp add: run assms(8) slice_elems_def)
  qed
qed

theorem check_null_terminated_stops_witness:
  "let read = (\<lambda>a :: usize. if a = 0x5FFD then Some 108 else if a = 0x5FFF then Some 0 else Some (115 :: u8))
   in check_null_terminated mask_addr page_space c_char_layout read 0 0x5FFD {READ} [(5, {READ})]
        = Some (ScanDone (Inr 2))
    \<and> check_null_terminated mask_addr page_space c_char_layout (\<lambda>_. Some (7 :: u8)) 0 0x5FFD {READ} [(5, {READ})]
        = Some (ScanDone (Inl EFAULT))"
proof -
  let ?read = "\<lambda>a :: usize. if a = 0x5FFD then Some 108 else if a = 0x5FFF then Some 0 else Some (115 :: u8)"
  let ?access = "\<lambda>rng. check_region_access page_space [(5, {READ})] rng {READ}"
  have L: "l_size c_char_layout = 2 ^ 0" "l_align c_char_layout = 2 ^ 0" by (simp_all add: c_char_layout_def)
  have lo: "unat (0x5FFD :: usize) div 4096 * 4096 = 0x5000" by simp
  have one: "q = 0x5000" if "4096 dvd q" "0x5000 \<le> q" "q < 0x6000" for q :: nat
    using that by (auto elim!: dvdE)
  have "accessible_up_to ?access 0x5000 0x6000"
    unfolding accessible_up_to_def by (auto dest!: one simp: page_space_def)
  then have acc: "accessible_up_to ?access (unat (0x5FFD :: usize) div 4096 * 4096) 0x6000" by (simp only: lo)
  note stops = check_null_terminated_stops [OF mask_pages.page_addresses_axioms L _ _ acc _ refl]
  have elems: "slice_elems ?read (2 ^ 0) 0x5FFD ((0x6000 - unat (0x5FFD :: usize)) div 2 ^ 0) = [108, 115, 0]"
    "slice_elems (\<lambda>_. Some (7 :: u8)) (2 ^ 0) 0x5FFD ((0x6000 - unat (0x5FFD :: usize)) div 2 ^ 0) = [7, 7, 7]"
    by (simp_all add: slice_elems_def upt_rec)
  have "check_null_terminated mask_addr page_space c_char_layout ?read 0 0x5FFD {READ} [(5, {READ})]
      = Some (ScanDone (Inr 2))"
    using stops [of ?read 0, unfolded elems] by simp
  moreover have "check_null_terminated mask_addr page_space c_char_layout (\<lambda>_. Some (7 :: u8)) 0 0x5FFD {READ} [(5, {READ})]
      = Some (ScanDone (Inl EFAULT))"
    using stops [of "\<lambda>_. Some (7 :: u8)" 0, unfolded elems] by simp
  ultimately show ?thesis by (simp add: Let_def)
qed

end
