(* ===== verification/Mmap.thy ===== *)
theory Mmap
  imports Addr_Space Fd_Table Tasks
begin

text \<open>
  The memory calls of \<^verbatim>\<open>api/src/imp/mm\<close>: \<^verbatim>\<open>mmap\<close>, \<^verbatim>\<open>munmap\<close>, \<^verbatim>\<open>mprotect\<close> and \<^verbatim>\<open>brk\<close>, over the address
  space of \<open>Addr_Space\<close>, the descriptor table and the files of \<^verbatim>\<open>axfs\<close>.
\<close>

section \<open>Definitions\<close>

record mmap_abi =
  PROT_READ :: u32
  PROT_WRITE :: u32
  PROT_EXEC :: u32
  PROT_GROWSDOWN :: u32
  PROT_GROWSUP :: u32
  MAP_SHARED :: u32
  MAP_PRIVATE :: u32
  MAP_FIXED :: u32
  MAP_ANONYMOUS :: u32
  MAP_NORESERVE :: u32
  MAP_STACK :: u32
  MAP_HUGETLB :: u32
  MAP_HUGE_1GB :: u32

definition MmapProt_all :: "mmap_abi \<Rightarrow> u32" where
  "MmapProt_all K = PROT_READ K OR PROT_WRITE K OR PROT_EXEC K OR PROT_GROWSDOWN K OR PROT_GROWSUP K"

definition MmapProt_into :: "mmap_abi \<Rightarrow> u32 \<Rightarrow> MappingFlags" where
  "MmapProt_into K value =
     {USER} \<union> (if contains value (PROT_READ K) then {READ} else {})
            \<union> (if contains value (PROT_WRITE K) then {WRITE} else {})
            \<union> (if contains value (PROT_EXEC K) then {EXECUTE} else {})"

definition MmapFlags_all :: "mmap_abi \<Rightarrow> u32" where
  "MmapFlags_all K = MAP_SHARED K OR MAP_PRIVATE K OR MAP_FIXED K OR MAP_ANONYMOUS K OR MAP_NORESERVE K
     OR MAP_STACK K OR MAP_HUGETLB K OR (MAP_HUGETLB K OR MAP_HUGE_1GB K)"

text \<open>
  What the calls use: the constants of the ABI, addresses, the address space, the conversion of
  errors, the descriptor table, and the files of \<^verbatim>\<open>axfs\<close> by object. \<open>af_read_at f off n\<close> is the buffer of
  \<open>n\<close> zeros after the file's bytes from \<open>off\<close> on were read into it.
\<close>

record ('s, 't) mm_env =
  mm_abi :: mmap_abi
  mm_addr :: addr_ops
  mm_space :: "'s aspace_ops"
  mm_into :: "AxError \<Rightarrow> LinuxError"
  mm_fds :: "'t fd_ops"
  mm_table :: 't
  af_size :: "nat \<Rightarrow> u64 AxResult"
  af_read_at :: "nat \<Rightarrow> u64 \<Rightarrow> nat \<Rightarrow> u8 list AxResult"

definition mmap_page_size :: "mmap_abi \<Rightarrow> u32 \<Rightarrow> PageSize" where
  "mmap_page_size K map_flags =
     (if contains map_flags (MAP_HUGETLB K OR MAP_HUGE_1GB K) then Size1G
      else if contains map_flags (MAP_HUGETLB K) then Size2M
      else Size4K)"

definition mmap_place ::
  "('s, 't) mm_env \<Rightarrow> u32 \<Rightarrow> PageSize \<Rightarrow> usize \<Rightarrow> usize \<Rightarrow> 's \<Rightarrow> usize LinuxResult \<times> 's" where
  "mmap_place E map_flags page_size start aligned_length s =
     (let M = mm_space E
      in if contains map_flags (MAP_FIXED (mm_abi E)) then
           if start = 0 then (Inl EINVAL, s)
           else (case unmap M start aligned_length s of
                   (Inl e, s') \<Rightarrow> (Inl (mm_into E e), s')
                 | (Inr _, s') \<Rightarrow> (Inr start, s'))
         else
           let limit = (as_base M s, as_end M s)
           in (ok_or (case find_free_area M s start aligned_length limit page_size of
                        Some a \<Rightarrow> Some a
                      | None \<Rightarrow> find_free_area M s (as_base M s) aligned_length limit page_size) ENOMEM, s))"

definition mmap_fill ::
  "('s, 't) mm_env \<Rightarrow> usize \<Rightarrow> PageSize \<Rightarrow> usize \<Rightarrow> c_int \<Rightarrow> isize \<Rightarrow> 's \<Rightarrow> unit LinuxResult \<times> 's" where
  "mmap_fill E start_addr page_size len fd offset s =
     (case File_from_fd (mm_fds E) (mm_table E) fd of
        Inl e \<Rightarrow> (Inl e, s)
      | Inr file \<Rightarrow>
     (case af_size E file of
        Inl e \<Rightarrow> (Inl (mm_into E e), s)
      | Inr file_size \<Rightarrow>
          if sint offset < 0 \<or> file_size \<le> offset then (Inl EINVAL, s)
          else
            let len = min len (file_size - offset)
            in (case af_read_at E file offset (unat len) of
                  Inl e \<Rightarrow> (Inl (mm_into E e), s)
                | Inr buf \<Rightarrow>
                    (case as_write (mm_space E) start_addr page_size buf s of
                       (r, s') \<Rightarrow> (map_err (mm_into E) r, s')))))"

definition sys_mmap ::
  "('s, 't) mm_env \<Rightarrow> usize \<Rightarrow> usize \<Rightarrow> u32 \<Rightarrow> u32 \<Rightarrow> c_int \<Rightarrow> isize \<Rightarrow> 's \<Rightarrow> isize LinuxResult \<times> 's" where
  "sys_mmap E addr len prot flags fd offset s =
     (let K = mm_abi E;
          permission_flags = from_bits_truncate (MmapProt_all K) prot;
          map_flags = from_bits_truncate (MmapFlags_all K) flags
      in if contains map_flags (MAP_PRIVATE K OR MAP_SHARED K) then (Inl EINVAL, s)
      else
        let page_size = mmap_page_size K map_flags;
            start = align_down (mm_addr E) addr (page_bytes page_size);
            endp = align_up (mm_addr E) (addr + len) (page_bytes page_size);
            aligned_length = endp - start
        in case mmap_place E map_flags page_size start aligned_length s of
             (Inl e, s1) \<Rightarrow> (Inl e, s1)
           | (Inr start_addr, s1) \<Rightarrow>
               let populate = (if fd = - 1 then False else \<not> contains map_flags (MAP_ANONYMOUS K))
               in case map_alloc (mm_space E) start_addr aligned_length (MmapProt_into K permission_flags)
                         populate page_size s1 of
                    (Inl e, s2) \<Rightarrow> (Inl (mm_into E e), s2)
                  | (Inr _, s2) \<Rightarrow>
                      if populate then
                        (case mmap_fill E start_addr page_size len fd offset s2 of
                           (Inl e, s3) \<Rightarrow> (Inl e, s3)
                         | (Inr _, s3) \<Rightarrow> (Inr start_addr, s3))
                      else (Inr start_addr, s2))"

definition sys_munmap :: "('s, 't) mm_env \<Rightarrow> usize \<Rightarrow> usize \<Rightarrow> 's \<Rightarrow> isize LinuxResult \<times> 's" where
  "sys_munmap E addr len s =
     (let len = align_up (mm_addr E) len PAGE_SIZE_4K
      in case unmap (mm_space E) addr len s of
           (Inl e, s') \<Rightarrow> (Inl (mm_into E e), s')
         | (Inr _, s') \<Rightarrow> (Inr 0, s'))"

definition sys_mprotect :: "('s, 't) mm_env \<Rightarrow> usize \<Rightarrow> usize \<Rightarrow> u32 \<Rightarrow> 's \<Rightarrow> isize LinuxResult \<times> 's" where
  "sys_mprotect E addr len prot s =
     (let K = mm_abi E
      in case from_bits (MmapProt_all K) prot of
           None \<Rightarrow> (Inl EINVAL, s)
         | Some permission_flags \<Rightarrow>
             if contains permission_flags (PROT_GROWSDOWN K OR PROT_GROWSUP K) then (Inl EINVAL, s)
             else
               let len = align_up (mm_addr E) len PAGE_SIZE_4K
               in case protect (mm_space E) addr len (MmapProt_into K permission_flags) s of
                    (Inl e, s') \<Rightarrow> (Inl (mm_into E e), s')
                  | (Inr _, s') \<Rightarrow> (Inr 0, s'))"

text \<open>The program break is kept in the process data.\<close>

definition get_heap_bottom :: "ProcessData \<Rightarrow> usize" where
  "get_heap_bottom pd = pd_heap_bottom pd"

definition get_heap_top :: "ProcessData \<Rightarrow> usize" where
  "get_heap_top pd = pd_heap_top pd"

definition set_heap_bottom :: "usize \<Rightarrow> ProcessData \<Rightarrow> ProcessData" where
  "set_heap_bottom bottom pd = pd\<lparr>pd_heap_bottom := bottom\<rparr>"

definition set_heap_top :: "usize \<Rightarrow> ProcessData \<Rightarrow> ProcessData" where
  "set_heap_top hi pd = pd\<lparr>pd_heap_top := hi\<rparr>"

definition sys_brk :: "usize \<Rightarrow> usize \<Rightarrow> ProcessData \<Rightarrow> isize LinuxResult \<times> ProcessData" where
  "sys_brk USER_HEAP_SIZE addr process_data =
     (let return_val = get_heap_top process_data;
          heap_bottom = get_heap_bottom process_data
      in if addr \<noteq> 0 \<and> heap_bottom \<le> addr \<and> addr \<le> heap_bottom + USER_HEAP_SIZE
         then (Inr addr, set_heap_top addr process_data)
         else (Inr return_val, process_data))"

section \<open>Mappings\<close>

lemma contains_mmap_prot:
  assumes "contains (MmapProt_all K) f"
  shows "contains (from_bits_truncate (MmapProt_all K) w) f \<longleftrightarrow> contains w f"
  using assms by (rule contains_truncate)

lemma MmapProt_into_truncate:
  "MmapProt_into K (from_bits_truncate (MmapProt_all K) w) = MmapProt_into K w"
proof -
  have "contains (MmapProt_all K) (PROT_READ K)" "contains (MmapProt_all K) (PROT_WRITE K)"
    "contains (MmapProt_all K) (PROT_EXEC K)"
    unfolding contains_def MmapProt_all_def bit_eq_iff by (auto simp: bit_simps)
  then show ?thesis by (simp add: MmapProt_into_def contains_truncate)
qed

text \<open>Where \<^verbatim>\<open>sys_mmap\<close> puts the new mapping, and what it has done to the address space by then.\<close>

lemma mmap_place_ok:
  assumes "address_space (mm_space E) perm" "mmap_place E fl ps start n s = (Inr a, s')"
  shows "if contains fl (MAP_FIXED (mm_abi E))
    then a = start \<and> perm s' = (\<lambda>x. if x \<in> region a n then None else perm s x)
    else s' = s \<and> 2 ^ page_bits ps dvd unat a \<and> unat (as_base (mm_space E) s) \<le> unat a
      \<and> unat a + unat n \<le> unat (as_end (mm_space E) s) \<and> (\<forall>x \<in> region a n. perm s x = None)"
proof (cases "contains fl (MAP_FIXED (mm_abi E))")
  case True
  with assms(2) have "unmap (mm_space E) start n s = (Inr (), s')" "a = start"
    by (auto simp: mmap_place_def Let_def split: if_split_asm prod.splits sum.splits)
  with address_space.unmap_ok [OF assms(1)] True show ?thesis by simp
next
  case False
  then obtain hint where "s' = s"
    "find_free_area (mm_space E) s hint n (as_base (mm_space E) s, as_end (mm_space E) s) ps = Some a"
    using assms(2) by (auto simp: mmap_place_def Let_def split: option.splits)
  with address_space.find_free [OF assms(1)] False show ?thesis by auto
qed

lemma mmap_fill_perm:
  assumes "address_space (mm_space E) perm"
  shows "perm (snd (mmap_fill E a ps n fd off s)) = perm s"
  using address_space.write_perm [OF assms]
  by (simp add: mmap_fill_def Let_def split_beta split: sum.split)

text \<open>A run of \<^verbatim>\<open>sys_mmap\<close> up to the mapping: the flags are allowed, the place is found, the area is mapped.\<close>

definition mmap_rounded :: "('s, 't) mm_env \<Rightarrow> u32 \<Rightarrow> usize \<Rightarrow> usize \<Rightarrow> PageSize \<times> usize \<times> usize" where
  "mmap_rounded E flags addr len =
     (let ps = mmap_page_size (mm_abi E) (from_bits_truncate (MmapFlags_all (mm_abi E)) flags);
          start = align_down (mm_addr E) addr (page_bytes ps)
      in (ps, start, align_up (mm_addr E) (addr + len) (page_bytes ps) - start))"

lemma sys_mmap_ok:
  assumes "address_space (mm_space E) perm" "mmap_rounded E flags addr len = (ps, start, n)"
    and "sys_mmap E addr len prot flags fd off s = (Inr a, s')"
  obtains s1 where
    "mmap_place E (from_bits_truncate (MmapFlags_all (mm_abi E)) flags) ps start n s = (Inr a, s1)"
    "perm s' = (\<lambda>x. if x \<in> region a n then Some (MmapProt_into (mm_abi E) prot) else perm s1 x)"
proof -
  let ?K = "mm_abi E" and ?mf = "from_bits_truncate (MmapFlags_all (mm_abi E)) flags"
  let ?pf = "MmapProt_into ?K (from_bits_truncate (MmapProt_all ?K) prot)"
  let ?pop = "if fd = - 1 then False else \<not> contains ?mf (MAP_ANONYMOUS ?K)"
  have ps: "ps = mmap_page_size ?K ?mf" "start = align_down (mm_addr E) addr (page_bytes ps)"
    "n = align_up (mm_addr E) (addr + len) (page_bytes ps) - start"
    using assms(2) by (auto simp: mmap_rounded_def Let_def)
  note run = assms(3) [unfolded sys_mmap_def Let_def ps [symmetric]]
  have "\<not> contains ?mf (MAP_PRIVATE ?K OR MAP_SHARED ?K)"
  proof
    assume "contains ?mf (MAP_PRIVATE ?K OR MAP_SHARED ?K)"
    from run [unfolded if_P [OF this]] show False by simp
  qed
  note run = run [unfolded if_not_P [OF this]]
  obtain b s1 where place: "mmap_place E ?mf ps start n s = (Inr b, s1)"
    using run by (cases "mmap_place E ?mf ps start n s"; cases "fst (mmap_place E ?mf ps start n s)") auto
  note run = run [unfolded place prod.case sum.case]
  obtain s2 where alloc: "map_alloc (mm_space E) b n ?pf ?pop ps s1 = (Inr (), s2)"
    using run by (cases "map_alloc (mm_space E) b n ?pf ?pop ps s1"; cases "fst (map_alloc (mm_space E) b n ?pf ?pop ps s1)")
      auto
  note run = run [unfolded alloc prod.case sum.case]
  have "a = b \<and> perm s' = perm s2"
  proof (cases ?pop)
    case True
    from run [unfolded if_P [OF True]] mmap_fill_perm [OF assms(1), of b ps len fd off s2] show ?thesis
      by (auto split: prod.splits sum.splits)
  next
    case False
    from run [unfolded if_not_P [OF False]] show ?thesis by simp
  qed
  with place address_space.map_alloc_ok [OF assms(1) alloc, unfolded MmapProt_into_truncate] show ?thesis
    by (intro that) simp_all
qed

text \<open>
  C30. A successful \<^verbatim>\<open>sys_mmap\<close> maps whole pages. Unless the rounded region wraps around, the address
  returned and the mapped length are multiples of the page size (4 KiB, or 2 MiB and 1 GiB with the
  huge page flags), the region has at least the requested length and less than two pages more, it
  gets exactly the permissions asked for, and no other address changes. With \<^verbatim>\<open>MAP_FIXED\<close> the region
  starts at the requested address rounded down and covers the requested one; without it the region
  was unmapped before and lies inside the address space.
\<close>

theorem sys_mmap_spec:
  assumes "page_addresses (mm_addr E)" "address_space (mm_space E) perm"
    and "mmap_rounded E flags addr len = (ps, start, n)" "unat addr + unat len + 2 ^ page_bits ps \<le> 2 ^ 64"
    and "sys_mmap E addr len prot flags fd off s = (Inr a, s')"
  shows "2 ^ page_bits ps dvd unat a \<and> 2 ^ page_bits ps dvd unat n
    \<and> unat len \<le> unat n \<and> unat n < unat len + 2 * 2 ^ page_bits ps
    \<and> perm s' = (\<lambda>x. if x \<in> region a n then Some (MmapProt_into (mm_abi E) prot) else perm s x)
    \<and> (if contains (from_bits_truncate (MmapFlags_all (mm_abi E)) flags) (MAP_FIXED (mm_abi E))
       then unat a = unat addr div 2 ^ page_bits ps * 2 ^ page_bits ps \<and> region addr len \<subseteq> region a n
       else (\<forall>x \<in> region a n. perm s x = None) \<and> unat (as_base (mm_space E) s) \<le> unat a
         \<and> unat a + unat n \<le> unat (as_end (mm_space E) s))"
proof -
  let ?mf = "from_bits_truncate (MmapFlags_all (mm_abi E)) flags"
  obtain s1 where place: "mmap_place E ?mf ps start n s = (Inr a, s1)"
    and perm: "perm s' = (\<lambda>x. if x \<in> region a n then Some (MmapProt_into (mm_abi E) prot) else perm s1 x)"
    by (rule sys_mmap_ok [OF assms(2,3,5)])
  have start: "start = align_down (mm_addr E) addr (2 ^ page_bits ps)"
    and n: "n = align_up (mm_addr E) (addr + len) (2 ^ page_bits ps) - start"
    using assms(3) by (auto simp: mmap_rounded_def Let_def page_bytes_def)
  note round = page_addresses.rounded_region [OF assms(1) page_bits_less assms(4) start refl, folded n]
  note down = page_addresses.align_down_pow2 [OF assms(1) page_bits_less [of ps], of addr, folded start]
  have len: "unat len \<le> unat n" using round(1,2) by linarith
  note placed = mmap_place_ok [OF assms(2) place]
  show ?thesis
  proof (cases "contains ?mf (MAP_FIXED (mm_abi E))")
    case True
    with placed have a: "a = start" and "perm s1 = (\<lambda>x. if x \<in> region a n then None else perm s x)" by simp_all
    then have "perm s' = (\<lambda>x. if x \<in> region a n then Some (MmapProt_into (mm_abi E) prot) else perm s x)"
      using perm by (simp add: fun_eq_iff)
    moreover have "region addr len \<subseteq> region a n" using round(1,2) a by auto
    ultimately show ?thesis using True round len down a by simp
  next
    case False
    with placed have "s1 = s" "2 ^ page_bits ps dvd unat a" "\<forall>x \<in> region a n. perm s x = None"
      "unat (as_base (mm_space E) s) \<le> unat a" "unat a + unat n \<le> unat (as_end (mm_space E) s)" by simp_all
    with False round len perm [unfolded \<open>s1 = s\<close>] show ?thesis by simp
  qed
qed

definition linux_mmap :: mmap_abi where
  "linux_mmap = \<lparr>PROT_READ = 1, PROT_WRITE = 2, PROT_EXEC = 4, PROT_GROWSDOWN = 0x01000000,
     PROT_GROWSUP = 0x02000000, MAP_SHARED = 1, MAP_PRIVATE = 2, MAP_FIXED = 0x10, MAP_ANONYMOUS = 0x20,
     MAP_NORESERVE = 0x4000, MAP_STACK = 0x20000, MAP_HUGETLB = 0x40000, MAP_HUGE_1GB = 0x78000000\<rparr>"

text \<open>A process with the standard descriptors and an address space of pages.\<close>

definition plain_mm :: "(page_list, usize \<rightharpoonup> file_like) mm_env" where
  "plain_mm = \<lparr>mm_abi = linux_mmap, mm_addr = mask_addr, mm_space = page_space, mm_into = (\<lambda>_. EIO),
     mm_fds = slot_ops, mm_table = fo_new slot_ops, af_size = (\<lambda>_. Inr 0), af_read_at = (\<lambda>_ _ _. Inr [])\<rparr>"

lemma plain_mm_address_space: "address_space (mm_space plain_mm) page_perm"
  using page_lists.address_space_axioms by (simp add: plain_mm_def)

lemma plain_mm_page_addresses: "page_addresses (mm_addr plain_mm)"
  using mask_pages.page_addresses_axioms by (simp add: plain_mm_def)

lemmas mmap_eval = plain_mm_def linux_mmap_def sys_mmap_def mmap_place_def mmap_page_size_def mmap_rounded_def
  mask_addr_def page_space_def page_bytes_def from_bits_truncate_def contains_def MmapFlags_all_def
  MmapProt_all_def MmapProt_into_def free_at_def page_aligned_def pages_of_def Let_def list_all_iff

theorem sys_mmap_spec_witness:
  "\<exists>s'. sys_mmap plain_mm 0 100 3 0x22 (- 1) 0 [] = (Inr 0x1000, s')
     \<and> page_perm s' 0x1010 = Some {USER, READ, WRITE} \<and> page_perm s' 0x2000 = None"
proof -
  obtain s' where run: "sys_mmap plain_mm 0 100 3 0x22 (- 1) 0 [] = (Inr 0x1000, s')"
    by (simp add: mmap_eval)
  have round: "mmap_rounded plain_mm 0x22 0 100 = (Size4K, 0, 0x1000)"
    by (simp add: mmap_eval)
  have prot: "MmapProt_into (mm_abi plain_mm) 3 = {USER, READ, WRITE}"
    by (auto simp: mmap_eval)
  have "page_perm s' = (\<lambda>x. if x \<in> region 0x1000 0x1000 then Some {USER, READ, WRITE} else page_perm [] x)"
    using sys_mmap_spec [OF plain_mm_page_addresses plain_mm_address_space round _ run, unfolded prot] by simp
  then have "page_perm s' 0x1010 = Some {USER, READ, WRITE}" "page_perm s' 0x2000 = page_perm [] 0x2000" by simp_all
  with run show ?thesis by (auto simp: page_perm_def [of "[]"])
qed



section \<open>The program break\<close>

lemma sys_brk_step:
  assumes "unat (pd_heap_bottom pd) + unat hsz < 2 ^ 64"
    and "pd_heap_bottom pd \<le> pd_heap_top pd" "unat (pd_heap_top pd) \<le> unat (pd_heap_bottom pd) + unat hsz"
    and "sys_brk hsz addr pd = (r, pd')"
  shows "pd_heap_bottom pd' = pd_heap_bottom pd" "pd_heap_bottom pd \<le> pd_heap_top pd'"
    "unat (pd_heap_top pd') \<le> unat (pd_heap_bottom pd) + unat hsz" "r = Inr (pd_heap_top pd')"
    "pd_heap_top pd' = (if addr \<noteq> 0 \<and> unat addr \<in> {unat (pd_heap_bottom pd) .. unat (pd_heap_bottom pd) + unat hsz}
       then addr else pd_heap_top pd)"
proof -
  have sum: "unat (pd_heap_bottom pd + hsz) = unat (pd_heap_bottom pd) + unat hsz"
    using assms(1) unat_add_lem [of "pd_heap_bottom pd" hsz] by simp
  let ?ok = "addr \<noteq> 0 \<and> pd_heap_bottom pd \<le> addr \<and> addr \<le> pd_heap_bottom pd + hsz"
  have ok: "?ok \<longleftrightarrow> addr \<noteq> 0 \<and> unat addr \<in> {unat (pd_heap_bottom pd) .. unat (pd_heap_bottom pd) + unat hsz}"
    by (simp add: word_le_nat_alt sum)
  have r: "r = Inr (pd_heap_top pd')" "pd' = pd\<lparr>pd_heap_top := if ?ok then addr else pd_heap_top pd\<rparr>"
    using assms(4) by (auto simp: sys_brk_def Let_def get_heap_top_def get_heap_bottom_def set_heap_top_def split: if_split_asm)
  then show "r = Inr (pd_heap_top pd')" "pd_heap_bottom pd' = pd_heap_bottom pd"
    "pd_heap_top pd' = (if addr \<noteq> 0 \<and> unat addr \<in> {unat (pd_heap_bottom pd) .. unat (pd_heap_bottom pd) + unat hsz}
       then addr else pd_heap_top pd)"
    by (simp_all add: ok)
  show "pd_heap_bottom pd \<le> pd_heap_top pd'"
    "unat (pd_heap_top pd') \<le> unat (pd_heap_bottom pd) + unat hsz"
    using assms(2,3) sum by (auto simp: r(2) word_le_nat_alt)
qed

text \<open>The calls of a process one after the other: the values returned and the process data at the end.\<close>

fun brk_calls :: "usize \<Rightarrow> usize list \<Rightarrow> ProcessData \<Rightarrow> isize LinuxResult list \<times> ProcessData" where
  "brk_calls hsz [] pd = ([], pd)"
| "brk_calls hsz (addr # addrs) pd =
     (case sys_brk hsz addr pd of (r, pd1) \<Rightarrow> (case brk_calls hsz addrs pd1 of (rs, pd2) \<Rightarrow> (r # rs, pd2)))"

lemma brk_calls_bounds:
  assumes "unat (pd_heap_bottom pd) + unat hsz < 2 ^ 64"
    and "pd_heap_bottom pd \<le> pd_heap_top pd" "unat (pd_heap_top pd) \<le> unat (pd_heap_bottom pd) + unat hsz"
    and "brk_calls hsz addrs pd = (rs, pd')"
  shows "pd_heap_bottom pd' = pd_heap_bottom pd \<and> pd_heap_bottom pd \<le> pd_heap_top pd'
    \<and> unat (pd_heap_top pd') \<le> unat (pd_heap_bottom pd) + unat hsz \<and> length rs = length addrs
    \<and> (\<forall>r \<in> set rs. \<exists>b. r = Inr b \<and> unat b \<in> {unat (pd_heap_bottom pd) .. unat (pd_heap_bottom pd) + unat hsz})
    \<and> last (Inr (pd_heap_top pd) # rs) = Inr (pd_heap_top pd')"
  using assms
proof (induction addrs arbitrary: pd rs)
  case (Cons addr addrs)
  obtain r pd1 where brk: "sys_brk hsz addr pd = (r, pd1)" by (cases "sys_brk hsz addr pd")
  obtain rs1 where rest: "brk_calls hsz addrs pd1 = (rs1, pd')" "rs = r # rs1"
    using Cons.prems(4) brk by (auto split: prod.splits)
  note step = sys_brk_step [OF Cons.prems(1-3) brk]
  have b: "pd_heap_bottom pd1 = pd_heap_bottom pd" by (rule step(1))
  note IH = Cons.IH [OF _ _ _ rest(1), unfolded b, OF Cons.prems(1) step(2,3)]
  have "unat (pd_heap_top pd1) \<in> {unat (pd_heap_bottom pd) .. unat (pd_heap_bottom pd) + unat hsz}"
    using step(2,3) by (simp add: word_le_nat_alt)
  with IH step(4) rest(2) show ?case by auto
qed auto

text \<open>
  The program break stays inside the heap. Starting from new process data, after any sequence
  of \<^verbatim>\<open>sys_brk\<close> calls, whatever addresses they are given, the bottom of the heap has not moved and
  the break lies between it and the end of the heap. Every call succeeds with a break in these
  bounds, and the last value returned is the current break.
\<close>

lemma sys_brk_bounds:
  assumes "unat base + unat hsz < 2 ^ 64"
    and "brk_calls hsz addrs (ProcessData_new base exe aspace acts sig) = (rs, pd)"
  shows "pd_heap_bottom pd = base \<and> unat base \<le> unat (pd_heap_top pd) \<and> unat (pd_heap_top pd) \<le> unat base + unat hsz
    \<and> (\<forall>r \<in> set rs. \<exists>b. r = Inr b \<and> unat base \<le> unat b \<and> unat b \<le> unat base + unat hsz)
    \<and> (rs \<noteq> [] \<longrightarrow> last rs = Inr (pd_heap_top pd))"
proof -
  have "pd_heap_bottom (ProcessData_new base exe aspace acts sig) = base"
    "pd_heap_top (ProcessData_new base exe aspace acts sig) = base" by (simp_all add: ProcessData_new_def)
  with brk_calls_bounds [OF _ _ _ assms(2), of] assms(1) show ?thesis
    by (simp add: word_le_nat_alt split: if_split_asm)
qed

lemma sys_brk_example:
  "brk_calls 0x10000 [0, 0x40000100, 0x50000000] (ProcessData_new 0x40000000 [] Copied DefaultActions None)
     = ([Inr 0x40000000, Inr 0x40000100, Inr 0x40000100],
        (ProcessData_new 0x40000000 [] Copied DefaultActions None)\<lparr>pd_heap_top := 0x40000100\<rparr>)
   \<and> unat (0x40000100 :: usize) \<le> unat (0x40000000 :: usize) + unat (0x10000 :: usize)"
proof -
  have run: "brk_calls 0x10000 [0, 0x40000100, 0x50000000] (ProcessData_new 0x40000000 [] Copied DefaultActions None)
     = ([Inr 0x40000000, Inr 0x40000100, Inr 0x40000100],
        (ProcessData_new 0x40000000 [] Copied DefaultActions None)\<lparr>pd_heap_top := 0x40000100\<rparr>)"
    by (simp add: sys_brk_def ProcessData_new_def get_heap_top_def get_heap_bottom_def set_heap_top_def)
  with sys_brk_bounds [OF _ run] show ?thesis by simp
qed

end
