(* ===== verification/Exec.thy ===== *)
theory Exec
  imports User_Memory Mmap
begin

text \<open>
  Loading programs: \<^verbatim>\<open>map_elf\<close> and \<^verbatim>\<open>load_user_app\<close> of \<^verbatim>\<open>core/src/mm.rs\<close> and the call \<^verbatim>\<open>sys_execve\<close> of
  \<^verbatim>\<open>api/src/imp/task/execve.rs\<close>. Strings are their UTF-8 bytes. Reading files (\<^verbatim>\<open>axfs\<close>), parsing ELF
  (\<^verbatim>\<open>xmas_elf\<close>, \<^verbatim>\<open>kernel_elf_parser\<close>) and the address space are arguments.
\<close>

section \<open>Definitions\<close>

type_synonym bytes = "u8 list"

definition bytes_of :: "string \<Rightarrow> bytes" where
  "bytes_of s = map of_char s"

definition is_ascii_whitespace :: "u8 \<Rightarrow> bool" where
  "is_ascii_whitespace c \<longleftrightarrow> c = 0x20 \<or> c = 0x09 \<or> c = 0x0A \<or> c = 0x0C \<or> c = 0x0D"

definition trim_ascii :: "bytes \<Rightarrow> bytes" where
  "trim_ascii s = rev (dropWhile is_ascii_whitespace (rev (dropWhile is_ascii_whitespace s)))"

text \<open>\<^verbatim>\<open>splitn(2, ...)\<close> at white space, \<^verbatim>\<open>slice::get\<close> with a range, and \<^verbatim>\<open>CStr::from_bytes_with_nul\<close>.\<close>

definition splitn2 :: "bytes \<Rightarrow> bytes list" where
  "splitn2 s =
     (let a = takeWhile (\<lambda>c. \<not> is_ascii_whitespace c) s
      in case dropWhile (\<lambda>c. \<not> is_ascii_whitespace c) s of [] \<Rightarrow> [a] | _ # b \<Rightarrow> [a, b])"

definition slice_get :: "'a list \<Rightarrow> usize \<Rightarrow> usize \<Rightarrow> 'a list option" where
  "slice_get xs i j =
     (if i \<le> j \<and> unat j \<le> length xs then Some (take (unat j - unat i) (drop (unat i) xs)) else None)"

definition from_bytes_with_nul :: "bytes \<Rightarrow> bytes option" where
  "from_bytes_with_nul s =
     (if s \<noteq> [] \<and> last s = 0 \<and> 0 \<notin> set (butlast s) then Some (butlast s) else None)"

record segment =
  seg_vaddr :: usize
  seg_memsz :: u64
  seg_filesz :: u64
  seg_offset :: usize
  seg_flags :: MappingFlags

type_synonym auxv = "(usize \<times> usize) list"

text \<open>
  A parsed ELF file: the data of its interpreter header (\<open>Some None\<close> when the header has data of another
  kind) and what the loader reads from it for a given base address.
\<close>

record elf =
  elf_interp :: "bytes option option"
  elf_parse :: "usize \<Rightarrow> (segment list \<times> usize \<times> auxv) option"

record 's exec_env =
  ex_addr :: addr_ops
  ex_space :: "'s aspace_ops"
  ex_unmap_user_areas :: "'s \<Rightarrow> unit AxResult \<times> 's"
  ex_map_linear :: "usize \<Rightarrow> usize \<Rightarrow> usize \<Rightarrow> MappingFlags \<Rightarrow> PageSize \<Rightarrow> 's \<Rightarrow> unit AxResult \<times> 's"
  ex_trampoline_paddr :: usize
  ex_into :: "AxError \<Rightarrow> LinuxError"
  ex_read :: "bytes \<Rightarrow> bytes AxResult"
  ex_canonicalize :: "bytes \<Rightarrow> bytes AxResult"
  ex_elf :: "bytes \<Rightarrow> elf option"
  app_stack_region :: "bytes list \<Rightarrow> bytes list \<Rightarrow> auxv \<Rightarrow> usize \<Rightarrow> usize \<Rightarrow> bytes"
  USER_STACK_TOP :: usize
  USER_STACK_SIZE :: usize
  USER_HEAP_BASE :: usize
  USER_HEAP_SIZE :: usize
  SIGNAL_TRAMPOLINE :: usize

definition map_trampoline :: "'s exec_env \<Rightarrow> 's \<Rightarrow> unit AxResult \<times> 's" where
  "map_trampoline E s =
     (case ex_map_linear E (SIGNAL_TRAMPOLINE E) (ex_trampoline_paddr E) PAGE_SIZE_4K {READ, EXECUTE, USER} Size4K s of
        (Inl e, s') \<Rightarrow> (Inl e, s')
      | (Inr _, s') \<Rightarrow> (Inr (), s'))"

text \<open>\<open>None\<close> is the failed assertion on the offset of a segment.\<close>

fun map_segments :: "'s exec_env \<Rightarrow> bytes \<Rightarrow> segment list \<Rightarrow> 's \<Rightarrow> (unit AxResult \<times> 's) option" where
  "map_segments E input [] s = Some (Inr (), s)"
| "map_segments E input (seg # segs) s =
     (let seg_pad = align_offset (ex_addr E) (seg_vaddr seg) PAGE_SIZE_4K
      in if seg_pad \<noteq> seg_offset seg mod PAGE_SIZE_4K then None
      else
        let seg_align_size = (seg_memsz seg + seg_pad + PAGE_SIZE_4K - 1) AND NOT (PAGE_SIZE_4K - 1)
        in case map_alloc (ex_space E) (align_down (ex_addr E) (seg_vaddr seg) PAGE_SIZE_4K) seg_align_size
                  (seg_flags seg) True Size4K s of
             (Inl e, s1) \<Rightarrow> Some (Inl e, s1)
           | (Inr _, s1) \<Rightarrow>
               (case slice_get input (seg_offset seg) (seg_offset seg + seg_filesz seg) of
                  None \<Rightarrow> Some (Inl InvalidData, s1)
                | Some seg_data \<Rightarrow>
                    (case as_write (ex_space E) (seg_vaddr seg) Size4K seg_data s1 of
                       (Inl e, s2) \<Rightarrow> Some (Inl e, s2)
                     | (Inr _, s2) \<Rightarrow> map_segments E input segs s2)))"

definition map_elf :: "'s exec_env \<Rightarrow> elf \<Rightarrow> bytes \<Rightarrow> 's \<Rightarrow> ((usize \<times> auxv) AxResult \<times> 's) option" where
  "map_elf E elf input s =
     (case elf_parse elf (as_base (ex_space E) s) of
        None \<Rightarrow> Some (Inl InvalidData, s)
      | Some (segs, entry, auxv) \<Rightarrow>
          (case map_segments E input segs s of
             None \<Rightarrow> None
           | Some (Inl e, s') \<Rightarrow> Some (Inl e, s')
           | Some (Inr _, s') \<Rightarrow> Some (Inr (entry, auxv), s')))"

text \<open>The first part of \<^verbatim>\<open>load_user_app\<close>: an error, a panic, the arguments of a recursive call, or an ELF file.\<close>

datatype exec_plan = PlanErr AxError | PlanPanic | PlanRecurse "bytes list" | PlanElf elf bytes

definition ld_paths :: "bytes list" where
  "ld_paths = map bytes_of [''/lib/ld-linux-riscv64-lp64.so.1'', ''/lib64/ld-linux-loongarch-lp64d.so.1'',
     ''/lib64/ld-linux-x86-64.so.2'', ''/lib/ld-linux-aarch64.so.1'']"

definition exec_plan :: "'s exec_env \<Rightarrow> bytes list \<Rightarrow> exec_plan" where
  "exec_plan E args =
     (case args of
        [] \<Rightarrow> PlanErr InvalidInput
      | arg0 # _ \<Rightarrow>
     (case ex_read E arg0 of
        Inl e \<Rightarrow> PlanErr e
      | Inr file_data \<Rightarrow>
          if take 2 file_data = bytes_of ''#!'' then
            let head = take (min (length file_data) 256 - 2) (drop 2 file_data);
                line = takeWhile (\<lambda>c. c \<noteq> 0x0A) head
            in if \<not> utf8_valid line then PlanErr InvalidData
               else PlanRecurse (map trim_ascii (splitn2 line) @ args)
          else
            (case ex_elf E file_data of
               None \<Rightarrow> PlanErr InvalidData
             | Some elf \<Rightarrow>
                 (case elf_interp elf of
                    None \<Rightarrow> PlanElf elf file_data
                  | Some None \<Rightarrow> PlanPanic
                  | Some (Some interp) \<Rightarrow>
                      (case from_bytes_with_nul interp of
                         None \<Rightarrow> PlanErr InvalidData
                       | Some path \<Rightarrow>
                           if \<not> utf8_valid path then PlanErr InvalidData
                           else (case ex_canonicalize E path of
                                   Inl e \<Rightarrow> PlanErr e
                                 | Inr interp_path \<Rightarrow>
                                     PlanRecurse ((if interp_path \<in> set ld_paths then bytes_of ''/musl/lib/libc.so''
                                                   else interp_path) # args)))))))"

datatype 's load = LoadPanic | LoadDone "(usize \<times> usize) AxResult" 's

definition load_elf :: "'s exec_env \<Rightarrow> elf \<Rightarrow> bytes \<Rightarrow> bytes list \<Rightarrow> bytes list \<Rightarrow> 's \<Rightarrow> 's load" where
  "load_elf E elf input args envs s =
     (case map_elf E elf input s of
        None \<Rightarrow> LoadPanic
      | Some (Inl e, s1) \<Rightarrow> LoadDone (Inl e) s1
      | Some (Inr (entry, auxv), s1) \<Rightarrow>
          let ustack_end = USER_STACK_TOP E;
              ustack_size = USER_STACK_SIZE E;
              ustack_start = ustack_end - ustack_size;
              stack_data = app_stack_region E args envs auxv ustack_start ustack_size
          in (case map_alloc (ex_space E) ustack_start ustack_size {READ, WRITE, USER} True Size4K s1 of
                (Inl e, s2) \<Rightarrow> LoadDone (Inl e) s2
              | (Inr _, s2) \<Rightarrow>
             (case map_alloc (ex_space E) (USER_HEAP_BASE E) (USER_HEAP_SIZE E) {READ, WRITE, USER} True Size4K s2 of
                (Inl e, s3) \<Rightarrow> LoadDone (Inl e) s3
              | (Inr _, s3) \<Rightarrow>
                  let user_sp = ustack_end - of_nat (length stack_data)
                  in (case as_write (ex_space E) user_sp Size4K stack_data s3 of
                        (Inl e, s4) \<Rightarrow> LoadDone (Inl e) s4
                      | (Inr _, s4) \<Rightarrow> LoadDone (Inr (entry, user_sp)) s4))))"

text \<open>\<open>None\<close> is a recursion that never ends.\<close>

partial_function (option) load_user_app ::
  "'s exec_env \<Rightarrow> bytes list \<Rightarrow> bytes list \<Rightarrow> 's \<Rightarrow> 's load option" where
  "load_user_app E args envs s =
     (case exec_plan E args of
        PlanErr e \<Rightarrow> Some (LoadDone (Inl e) s)
      | PlanPanic \<Rightarrow> Some LoadPanic
      | PlanRecurse new_args \<Rightarrow> load_user_app E new_args envs s
      | PlanElf elf input \<Rightarrow> Some (load_elf E elf input args envs s))"

text \<open>
  \<^verbatim>\<open>sys_execve\<close>, given the strings the three pointers were read as and the number of threads of the
  process. On success it sets the name, the executable path, the instruction and the stack pointer.
\<close>

record exec_image =
  im_name :: bytes
  im_exe_path :: bytes
  im_ip :: usize
  im_sp :: usize

datatype 's execve = ExecPanic | ExecDone "isize LinuxResult" "exec_image option" 's

definition after_last_slash :: "bytes \<Rightarrow> bytes" where
  "after_last_slash s = rev (takeWhile (\<lambda>c. c \<noteq> 0x2F) (rev s))"

definition sys_execve ::
  "'s exec_env \<Rightarrow> bytes LinuxResult \<Rightarrow> bytes list LinuxResult \<Rightarrow> bytes list LinuxResult \<Rightarrow> nat \<Rightarrow> 's \<Rightarrow> 's execve option" where
  "sys_execve E path_ptr argv envp threads s =
     (case path_ptr of
        Inl e \<Rightarrow> Some (ExecDone (Inl e) None s)
      | Inr path \<Rightarrow>
     (case argv of
        Inl e \<Rightarrow> Some (ExecDone (Inl e) None s)
      | Inr args \<Rightarrow>
     (case envp of
        Inl e \<Rightarrow> Some (ExecDone (Inl e) None s)
      | Inr envs \<Rightarrow>
          if 1 < threads then Some (ExecDone (Inl EAGAIN) None s)
          else
            (case ex_unmap_user_areas E s of
               (Inl e, s1) \<Rightarrow> Some (ExecDone (Inl (ex_into E e)) None s1)
             | (Inr _, s1) \<Rightarrow>
            (case map_trampoline E s1 of
               (Inl e, s2) \<Rightarrow> Some (ExecDone (Inl (ex_into E e)) None s2)
             | (Inr _, s2) \<Rightarrow>
                 map_option (\<lambda>l. case l of
                     LoadPanic \<Rightarrow> ExecPanic
                   | LoadDone (Inl e) s3 \<Rightarrow> ExecDone (Inl ENOENT) None s3
                   | LoadDone (Inr (entry_point, user_stack_base)) s3 \<Rightarrow>
                       ExecDone (Inr 0) (Some \<lparr>im_name = after_last_slash path, im_exe_path = path,
                         im_ip = entry_point, im_sp = user_stack_base\<rparr>) s3)
                   (load_user_app E args envs s2))))))"

section \<open>Termination\<close>

text \<open>One recursive call of \<^verbatim>\<open>load_user_app\<close> leads from an argument list to the next.\<close>

definition interpreted_by :: "'s exec_env \<Rightarrow> (bytes list \<times> bytes list) set" where
  "interpreted_by E = {(args, new_args). exec_plan E args = PlanRecurse new_args}"

fun is_recursion :: "exec_plan \<Rightarrow> bool" where
  "is_recursion (PlanRecurse _) = True"
| "is_recursion _ = False"

lemma load_user_app_recurse:
  "exec_plan E args = PlanRecurse new_args \<Longrightarrow> load_user_app E args envs s = load_user_app E new_args envs s"
  by (subst load_user_app.simps) simp

lemma load_user_app_chain:
  "(args, args') \<in> (interpreted_by E)\<^sup>* \<Longrightarrow> load_user_app E args envs s = load_user_app E args' envs s"
  by (induction rule: converse_rtrancl_induct) (auto simp: interpreted_by_def load_user_app_recurse)

lemma load_user_app_returned:
  assumes "load_user_app E args envs s = Some r"
  shows "\<exists>args'. (args, args') \<in> (interpreted_by E)\<^sup>* \<and> \<not> is_recursion (exec_plan E args')"
proof (rule load_user_app.raw_induct [OF _ assms,
    where P = "\<lambda>E args envs s r. \<exists>args'. (args, args') \<in> (interpreted_by E)\<^sup>* \<and> \<not> is_recursion (exec_plan E args')"])
  fix rec :: "'b exec_env \<Rightarrow> bytes list \<Rightarrow> bytes list \<Rightarrow> 'b \<Rightarrow> 'b load option" and E args envs s r
  assume IH: "\<And>E args envs s r. rec E args envs s = Some r \<Longrightarrow>
      \<exists>args'. (args, args') \<in> (interpreted_by E)\<^sup>* \<and> \<not> is_recursion (exec_plan E args')"
    and run: "(case exec_plan E args of PlanErr e \<Rightarrow> Some (LoadDone (Inl e) s) | PlanPanic \<Rightarrow> Some LoadPanic
      | PlanRecurse new_args \<Rightarrow> rec E new_args envs s
      | PlanElf elf input \<Rightarrow> Some (load_elf E elf input args envs s)) = Some r"
  show "\<exists>args'. (args, args') \<in> (interpreted_by E)\<^sup>* \<and> \<not> is_recursion (exec_plan E args')"
  proof (cases "exec_plan E args")
    case (PlanRecurse new_args)
    then have "(args, new_args) \<in> interpreted_by E" by (simp add: interpreted_by_def)
    moreover obtain args' where "(new_args, args') \<in> (interpreted_by E)\<^sup>*" "\<not> is_recursion (exec_plan E args')"
      using IH [of E new_args envs s r] run PlanRecurse by auto
    ultimately show ?thesis by (meson converse_rtrancl_into_rtrancl)
  qed (auto intro: exI [of _ args])
qed

text \<open>A script whose interpreter line names the script itself is never loaded.\<close>

definition names_itself :: "'s exec_env \<Rightarrow> bytes \<Rightarrow> bool" where
  "names_itself E p \<longleftrightarrow> (\<exists>rest. ex_read E p = Inr (bytes_of ''#!'' @ p @ 0x0A # rest))
     \<and> p \<noteq> [] \<and> length p < 250 \<and> utf8_valid p \<and> list_all (\<lambda>c. \<not> is_ascii_whitespace c) p"

lemma dropWhile_none: "list_all (\<lambda>c. \<not> P c) s \<Longrightarrow> dropWhile P s = s"
  by (cases s) auto

lemma plan_names_itself:
  assumes "names_itself E p"
  shows "exec_plan E (p # args) = PlanRecurse (p # p # args)"
proof -
  obtain rest where read: "ex_read E p = Inr (bytes_of ''#!'' @ p @ 0x0A # rest)"
    and p: "p \<noteq> []" "length p < 250" "utf8_valid p" "list_all (\<lambda>c. \<not> is_ascii_whitespace c) p"
    using assms by (auto simp: names_itself_def)
  let ?data = "bytes_of ''#!'' @ p @ 0x0A # rest"
  let ?head = "take (min (length ?data) 256 - 2) (drop 2 ?data)"
  have two: "length (bytes_of ''#!'') = 2" by (simp add: bytes_of_def)
  have "?head = p @ take (min (length ?data) 256 - 2 - length p) (0x0A # rest)"
    using p(2) two by simp
  moreover have "0 < min (length ?data) 256 - 2 - length p" using p(2) two by auto
  ultimately obtain k where "?head = p @ 0x0A # take k rest" by (metis gr0_implies_Suc take_Suc_Cons)
  moreover have ws: "\<forall>c \<in> set p. \<not> is_ascii_whitespace c" using p(4) by (simp add: list_all_iff)
  then have "\<forall>c \<in> set p. c \<noteq> 0x0A" by (auto simp: is_ascii_whitespace_def)
  ultimately have line: "takeWhile (\<lambda>c. c \<noteq> 0x0A) ?head = p" by (simp add: takeWhile_append2)
  have "dropWhile (\<lambda>c. \<not> is_ascii_whitespace c) p = []" "takeWhile (\<lambda>c. \<not> is_ascii_whitespace c) p = p"
    using ws by (simp_all add: takeWhile_eq_all_conv)
  then have split: "splitn2 p = [p]" by (simp only: splitn2_def Let_def list.case)
  have trim: "trim_ascii p = p"
    using dropWhile_none [OF p(4)] dropWhile_none [of is_ascii_whitespace "rev p"] p(4)
    by (simp add: trim_ascii_def list_all_iff)
  have "take 2 ?data = bytes_of ''#!''" using two by simp
  then show ?thesis using read line split trim p(3) by (simp add: exec_plan_def Let_def)
qed

lemma names_itself_diverges:
  assumes "names_itself E p"
  shows "load_user_app E (p # args) envs s = None"
proof -
  have "\<exists>ps. args' = p # ps" if "(p # args, args') \<in> (interpreted_by E)\<^sup>*" for args'
    using that plan_names_itself [OF assms] by (induction rule: rtrancl_induct) (auto simp: interpreted_by_def)
  then have "is_recursion (exec_plan E args')" if "(p # args, args') \<in> (interpreted_by E)\<^sup>*" for args'
    using that plan_names_itself [OF assms] by (metis is_recursion.simps(1))
  then show ?thesis using load_user_app_returned [of E "p # args" envs s] by (metis not_None_eq)
qed

text \<open>
  C32. When loading a program returns. \<^verbatim>\<open>load_user_app\<close> calls itself for the interpreter of a script or
  of an ELF file, without a limit. It returns if and only if following the interpreters leads to an
  argument list that needs none. In particular it recurses for ever on a script that names itself
  as its interpreter.
\<close>

theorem load_user_app_returns_iff:
  "((\<exists>r. load_user_app E args envs s = Some r) \<longleftrightarrow>
      (\<exists>args'. (args, args') \<in> (interpreted_by E)\<^sup>* \<and> \<not> is_recursion (exec_plan E args')))
   \<and> (names_itself E p \<longrightarrow> load_user_app E (p # args) envs s = None)"
proof (intro conjI iffI impI)
  assume "\<exists>r. load_user_app E args envs s = Some r"
  then obtain r where "load_user_app E args envs s = Some r" ..
  then show "\<exists>args'. (args, args') \<in> (interpreted_by E)\<^sup>* \<and> \<not> is_recursion (exec_plan E args')"
    by (rule load_user_app_returned)
next
  assume "\<exists>args'. (args, args') \<in> (interpreted_by E)\<^sup>* \<and> \<not> is_recursion (exec_plan E args')"
  then obtain args' where chain: "(args, args') \<in> (interpreted_by E)\<^sup>*" "\<not> is_recursion (exec_plan E args')" by blast
  from chain(2) have "\<exists>r. load_user_app E args' envs s = Some r"
    by (subst load_user_app.simps) (cases "exec_plan E args'"; simp)
  with load_user_app_chain [OF chain(1), of envs s] show "\<exists>r. load_user_app E args envs s = Some r" by simp
qed (rule names_itself_diverges)

text \<open>
  A machine with one script, \<^verbatim>\<open>/a\<close>, that names itself, and one program, \<^verbatim>\<open>/p\<close>, of one segment.
\<close>

definition one_segment :: segment where
  "one_segment = \<lparr>seg_vaddr = 0x10010, seg_memsz = 0x20, seg_filesz = 1, seg_offset = 0x10, seg_flags = {READ, EXECUTE, USER}\<rparr>"

definition plain_exec :: "page_list exec_env" where
  "plain_exec = \<lparr>ex_addr = mask_addr, ex_space = page_space, ex_unmap_user_areas = (\<lambda>_. (Inr (), [])),
     ex_map_linear = (\<lambda>a _ n fl ps. map_alloc page_space a n fl True ps), ex_trampoline_paddr = 0x80000, ex_into = (\<lambda>_. EIO),
     ex_read = (\<lambda>p. if p = bytes_of ''/a'' then Inr (bytes_of ''#!/a'' @ [0x0A])
       else if p = bytes_of ''/p'' then Inr (0x7F # replicate 16 0) else Inl NotFound),
     ex_canonicalize = Inr,
     ex_elf = (\<lambda>_. Some \<lparr>elf_interp = None, elf_parse = (\<lambda>_. Some ([one_segment], 0x10010, []))\<rparr>),
     app_stack_region = (\<lambda>_ _ _ _ _. [0]),
     USER_STACK_TOP = 0x40000, USER_STACK_SIZE = 0x1000, USER_HEAP_BASE = 0x20000, USER_HEAP_SIZE = 0x2000,
     SIGNAL_TRAMPOLINE = 0x4000\<rparr>"

theorem load_user_app_returns_iff_witness:
  "load_user_app plain_exec [bytes_of ''/a''] [] [] = None
   \<and> (\<exists>r. load_user_app plain_exec [bytes_of ''/b''] [] [] = Some r)"
proof -
  have "names_itself plain_exec (bytes_of ''/a'')"
    by (simp add: names_itself_def plain_exec_def bytes_of_def is_ascii_whitespace_def)
  then have "load_user_app plain_exec (bytes_of ''/a'' # []) [] [] = None"
    by (rule load_user_app_returns_iff [THEN conjunct2, rule_format])
  moreover have "\<not> is_recursion (exec_plan plain_exec [bytes_of ''/b''])"
    by (simp add: exec_plan_def plain_exec_def bytes_of_def)
  then have "\<exists>r. load_user_app plain_exec [bytes_of ''/b''] [] [] = Some r"
    by (intro load_user_app_returns_iff [THEN conjunct1, THEN iffD2] exI conjI) (rule rtrancl_refl)
  ultimately show ?thesis by simp
qed

section \<open>What loading maps\<close>

lemma le_rounded_up: "(n :: nat) \<le> (n + 4095) div 4096 * 4096"
  using div_mult_mod_eq [of "n + 4095" 4096] mod_less_divisor [of 4096 "n + 4095"] by linarith

text \<open>What loading relies on, besides the laws of addresses and address spaces.\<close>

locale exec_memory =
  fixes E :: "'s exec_env" and perm :: "'s \<Rightarrow> nat \<Rightarrow> MappingFlags option"
  assumes exec_addr: "page_addresses (ex_addr E)"
    and exec_space: "address_space (ex_space E) perm"
    and unmap_user_areas_ok: "ex_unmap_user_areas E s = (Inr u, s') \<Longrightarrow> perm s' = (\<lambda>_. None)"
    and map_linear_ok: "ex_map_linear E a p n fl ps s = (Inr u, s') \<Longrightarrow>
      perm s' = (\<lambda>x. if x \<in> region a n then Some fl else perm s x)"
begin

lemma map_trampoline_perm:
  "map_trampoline E s = (Inr u, s') \<Longrightarrow>
   perm s' = (\<lambda>x. if x \<in> region (SIGNAL_TRAMPOLINE E) PAGE_SIZE_4K then Some {READ, EXECUTE, USER} else perm s x)"
  using map_linear_ok by (auto simp: map_trampoline_def split: prod.splits sum.splits)

lemma map_alloc_mapped:
  assumes "map_alloc (ex_space E) a n fl pop ps s = (Inr u, s')"
  shows "x \<in> region a n \<Longrightarrow> perm s' x = Some fl" "perm s x \<noteq> None \<Longrightarrow> perm s' x \<noteq> None"
  using address_space.map_alloc_ok [OF exec_space assms] by simp_all

lemma as_write_perm: "as_write (ex_space E) a ps bs s = (r, s') \<Longrightarrow> perm s' = perm s"
  using address_space.write_perm [OF exec_space, of a ps bs s] by simp

text \<open>The size that \<^verbatim>\<open>map_elf\<close> computes for a segment reaches the end of the segment.\<close>

lemma segment_size:
  assumes "unat (seg_vaddr seg) + unat (seg_memsz seg) + 4096 \<le> 2 ^ 64"
    and "start = align_down (ex_addr E) (seg_vaddr seg) PAGE_SIZE_4K"
    and "n = (seg_memsz seg + align_offset (ex_addr E) (seg_vaddr seg) PAGE_SIZE_4K + PAGE_SIZE_4K - 1)
      AND NOT (PAGE_SIZE_4K - 1)"
  shows "region (seg_vaddr seg) (seg_memsz seg) \<subseteq> region start n"
proof -
  define v m where "v = unat (seg_vaddr seg)" and "m = unat (seg_memsz seg)"
  define pad where "pad = align_offset (ex_addr E) (seg_vaddr seg) PAGE_SIZE_4K"
  have pad: "unat pad = v mod 4096"
    using page_addresses.align_offset_pow2 [OF exec_addr, of 12 "seg_vaddr seg"]
    by (simp add: PAGE_SIZE_4K_pow pad_def v_def)
  have st: "unat start = v div 4096 * 4096"
    using page_addresses.align_down_pow2 [OF exec_addr, of 12 "seg_vaddr seg"]
    by (simp add: PAGE_SIZE_4K_pow assms(2) v_def)
  have "v mod 4096 \<le> v" by simp
  then have sum: "m + v mod 4096 + 4095 < 2 ^ 64" using assms(1) unfolding v_def m_def by linarith
  have "unat (seg_memsz seg + pad) = m + v mod 4096"
    using sum unat_add_lem [of "seg_memsz seg" pad] by (simp add: pad m_def)
  then have "unat (seg_memsz seg + pad + 0xFFF) = m + v mod 4096 + 4095"
    using sum unat_add_lem [of "seg_memsz seg + pad" "0xFFF"] by simp
  moreover have "n = (seg_memsz seg + pad + 0xFFF) AND NOT (2 ^ 12 - 1)"
    by (simp add: assms(3) PAGE_SIZE_4K_def pad_def add.commute)
  ultimately have "unat n = (m + v mod 4096 + 4095) div 4096 * 4096"
    using and_not_mask_div [of 12 "seg_memsz seg + pad + 0xFFF"] by simp
  then have "m + v mod 4096 \<le> unat n" using le_rounded_up [of "m + v mod 4096"] by simp
  then have "v + m \<le> unat start + unat n" "unat start \<le> v"
    using st div_mult_mod_eq [of v 4096] by linarith+
  then show ?thesis by (auto simp: v_def m_def)
qed

lemma map_segments_mapped:
  assumes "map_segments E input segs s = Some (Inr u, s')"
  shows "perm s x \<noteq> None \<Longrightarrow> perm s' x \<noteq> None"
    and "seg \<in> set segs \<Longrightarrow> unat (seg_vaddr seg) + unat (seg_memsz seg) + 4096 \<le> 2 ^ 64 \<Longrightarrow>
      x \<in> region (seg_vaddr seg) (seg_memsz seg) \<Longrightarrow> perm s' x \<noteq> None"
proof -
  have "(perm s x \<noteq> None \<longrightarrow> perm s' x \<noteq> None) \<and>
    (\<forall>seg \<in> set segs. unat (seg_vaddr seg) + unat (seg_memsz seg) + 4096 \<le> 2 ^ 64 \<longrightarrow>
      x \<in> region (seg_vaddr seg) (seg_memsz seg) \<longrightarrow> perm s' x \<noteq> None)"
    using assms
  proof (induction segs arbitrary: s)
    case (Cons sg segs)
    let ?a = "align_down (ex_addr E) (seg_vaddr sg) PAGE_SIZE_4K"
    let ?n = "(seg_memsz sg + align_offset (ex_addr E) (seg_vaddr sg) PAGE_SIZE_4K + PAGE_SIZE_4K - 1)
      AND NOT (PAGE_SIZE_4K - 1)"
    obtain s1 s2 bs where alloc: "map_alloc (ex_space E) ?a ?n (seg_flags sg) True Size4K s = (Inr (), s1)"
      and w: "as_write (ex_space E) (seg_vaddr sg) Size4K bs s1 = (Inr (), s2)"
      and rest: "map_segments E input segs s2 = Some (Inr u, s')"
      using Cons.prems by (auto simp: Let_def split: if_split_asm prod.splits sum.splits option.splits)
    note IH = Cons.IH [OF rest]
    note mapped = map_alloc_mapped [OF alloc, of x, folded as_write_perm [OF w]]
    show ?case
    proof (intro conjI impI ballI)
      assume "perm s x \<noteq> None"
      with mapped(2) IH show "perm s' x \<noteq> None" by blast
    next
      fix seg
      assume seg: "seg \<in> set (sg # segs)" "unat (seg_vaddr seg) + unat (seg_memsz seg) + 4096 \<le> 2 ^ 64"
        "x \<in> region (seg_vaddr seg) (seg_memsz seg)"
      show "perm s' x \<noteq> None"
      proof (cases "seg = sg")
        case True
        with segment_size [OF _ refl refl, of sg] seg(2,3) have "x \<in> region ?a ?n" by blast
        with mapped(1) IH show ?thesis by blast
      qed (use IH seg in auto)
    qed
  qed simp
  then show "perm s x \<noteq> None \<Longrightarrow> perm s' x \<noteq> None"
    "seg \<in> set segs \<Longrightarrow> unat (seg_vaddr seg) + unat (seg_memsz seg) + 4096 \<le> 2 ^ 64 \<Longrightarrow>
      x \<in> region (seg_vaddr seg) (seg_memsz seg) \<Longrightarrow> perm s' x \<noteq> None" by blast+
qed

lemma load_elf_mapped:
  assumes "load_elf E elf input args envs s = LoadDone (Inr (entry, sp)) s'"
  obtains segs auxv where "elf_parse elf (as_base (ex_space E) s) = Some (segs, entry, auxv)"
    "sp = USER_STACK_TOP E - of_nat (length (app_stack_region E args envs auxv
        (USER_STACK_TOP E - USER_STACK_SIZE E) (USER_STACK_SIZE E)))"
    "\<And>x. x \<in> region (USER_STACK_TOP E - USER_STACK_SIZE E) (USER_STACK_SIZE E)
        \<union> region (USER_HEAP_BASE E) (USER_HEAP_SIZE E) \<Longrightarrow> perm s' x = Some {READ, WRITE, USER}"
    "\<And>seg x. seg \<in> set segs \<Longrightarrow> unat (seg_vaddr seg) + unat (seg_memsz seg) + 4096 \<le> 2 ^ 64 \<Longrightarrow>
        x \<in> region (seg_vaddr seg) (seg_memsz seg) \<Longrightarrow> perm s' x \<noteq> None"
proof -
  let ?st = "USER_STACK_TOP E - USER_STACK_SIZE E" and ?rw = "{READ, WRITE, USER}"
  obtain auxv s1 where m: "map_elf E elf input s = Some (Inr (entry, auxv), s1)"
    using assms by (auto simp: load_elf_def Let_def split: option.splits prod.splits sum.splits)
  note run = assms [unfolded load_elf_def m option.case prod.case sum.case Let_def]
  obtain s2 where stack: "map_alloc (ex_space E) ?st (USER_STACK_SIZE E) ?rw True Size4K s1 = (Inr (), s2)"
    using run by (auto split: prod.splits sum.splits)
  note run = run [unfolded this prod.case sum.case]
  obtain s3 where heap: "map_alloc (ex_space E) (USER_HEAP_BASE E) (USER_HEAP_SIZE E) ?rw True Size4K s2 = (Inr (), s3)"
    using run by (auto split: prod.splits sum.splits)
  note run = run [unfolded this prod.case sum.case]
  have w: "perm s' = perm s3" and sp: "sp = USER_STACK_TOP E - of_nat (length (app_stack_region E args envs auxv ?st (USER_STACK_SIZE E)))"
    using run by (auto dest: as_write_perm split: prod.splits sum.splits)
  obtain segs where segs: "elf_parse elf (as_base (ex_space E) s) = Some (segs, entry, auxv)"
    "map_segments E input segs s = Some (Inr (), s1)"
    using m by (auto simp: map_elf_def split: option.splits prod.splits sum.splits)
  have rw: "perm s' x = Some ?rw"
    if "x \<in> region ?st (USER_STACK_SIZE E) \<union> region (USER_HEAP_BASE E) (USER_HEAP_SIZE E)" for x
    using that address_space.map_alloc_ok [OF exec_space stack] address_space.map_alloc_ok [OF exec_space heap] w by auto
  have sg: "perm s' x \<noteq> None" if "seg \<in> set segs" "unat (seg_vaddr seg) + unat (seg_memsz seg) + 4096 \<le> 2 ^ 64"
    "x \<in> region (seg_vaddr seg) (seg_memsz seg)" for seg x
    using map_segments_mapped(2) [OF segs(2) that] map_alloc_mapped(2) [OF stack] map_alloc_mapped(2) [OF heap] w by simp
  show ?thesis by (rule that [OF segs(1) sp rw sg])
qed

end

lemma load_user_app_loaded:
  assumes "load_user_app E args envs s = Some (LoadDone (Inr (entry, sp)) s')"
  obtains args' elf input where "(args, args') \<in> (interpreted_by E)\<^sup>*" "exec_plan E args' = PlanElf elf input"
    "load_elf E elf input args' envs s = LoadDone (Inr (entry, sp)) s'"
proof -
  obtain args' where chain: "(args, args') \<in> (interpreted_by E)\<^sup>*" "\<not> is_recursion (exec_plan E args')"
    using load_user_app_returned [OF assms] by blast
  then have "load_user_app E args' envs s = Some (LoadDone (Inr (entry, sp)) s')"
    using assms load_user_app_chain by metis
  with chain show ?thesis
    by (cases "exec_plan E args'") (auto simp: load_user_app.simps [of E args'] intro: that)
qed

lemma plain_exec_memory: "exec_memory plain_exec page_perm"
proof (rule exec_memory.intro)
  show "page_addresses (ex_addr plain_exec)" "address_space (ex_space plain_exec) page_perm"
    using mask_pages.page_addresses_axioms page_lists.address_space_axioms by (simp_all add: plain_exec_def)
next
  fix s u s'
  assume "ex_unmap_user_areas plain_exec s = (Inr u, s')"
  then show "page_perm s' = (\<lambda>_. None)" by (auto simp: plain_exec_def page_perm_def)
next
  fix a p n fl ps s u s'
  assume "ex_map_linear plain_exec a p n fl ps s = (Inr u, s')"
  then have "map_alloc page_space a n fl True ps s = (Inr u, s')" by (simp add: plain_exec_def)
  then show "page_perm s' = (\<lambda>x. if x \<in> region a n then Some fl else page_perm s x)"
    by (rule page_lists.map_alloc_ok)
qed

interpretation exec_pages: exec_memory plain_exec page_perm
  by (rule plain_exec_memory)



end
