(* ===== verification/Signals.thy ===== *)
theory Signals
  imports Tasks Time_Values
begin

text \<open>
  Signals: sending (\<^verbatim>\<open>api/src/signal.rs\<close>) and the calls of \<^verbatim>\<open>api/src/imp/signal.rs\<close>. Queues of pending
  signals, masks and handlers are kept by \<^verbatim>\<open>axsignal\<close>, which is not part of the sources: a call sends a
  signal by adding an entry to a log of deliveries, reads the set of pending signals as an
  argument, and returns the new mask, action or stack.
\<close>

section \<open>Definitions\<close>

record sig_abi =
  SIG_BLOCK :: u32
  SIG_UNBLOCK :: u32
  SIG_SETMASK :: u32
  SI_USER :: i32
  SI_TKILL :: i32
  MINSIGSTKSZ :: usize
  sigset_bytes :: usize
  SIGKILL :: Signo
  SIGSTOP :: Signo
  signo_from_repr :: "u8 \<Rightarrow> Signo option"

record SignalInfo =
  si_signo :: Signo
  si_code :: i32
  si_rest :: nat

definition SignalInfo_new :: "Signo \<Rightarrow> i32 \<Rightarrow> SignalInfo" where
  "SignalInfo_new signo code = \<lparr>si_signo = signo, si_code = code, si_rest = 0\<rparr>"

text \<open>The structures of one type in user memory: whether the kernel may use an address, and the value there.\<close>

record 'v user_mem =
  um_check :: "usize \<Rightarrow> unit LinuxResult"
  um_value :: "usize \<Rightarrow> 'v"

definition user_read :: "'v user_mem \<Rightarrow> usize \<Rightarrow> 'v LinuxResult" where
  "user_read m p = try_then (um_check m p) (\<lambda>_. Inr (um_value m p))"

definition user_store :: "usize \<Rightarrow> 'v \<Rightarrow> 'v user_mem \<Rightarrow> 'v user_mem" where
  "user_store p v m = m\<lparr>um_value := (um_value m)(p := v)\<rparr>"

subsection \<open>Sending\<close>

datatype sig_target = ToThread Pid | ToProcess Pid

type_synonym deliveries = "(sig_target \<times> SignalInfo) list"

text \<open>
  What sending reads: the tables, the process and group of the caller, the processes of a group, all
  processes, and whether a process or thread still has its kernel data.
\<close>

record sig_view =
  sv_tables :: task_tables
  sv_pid :: Pid
  sv_pgid :: Pid
  sv_group :: "Pid \<Rightarrow> Pid list"
  sv_processes :: "Pid list"
  sv_is_init :: "Pid \<Rightarrow> bool"
  sv_process_data :: "Pid \<Rightarrow> bool"
  sv_thread_data :: "Pid \<Rightarrow> bool"

definition send_signal_thread :: "sig_view \<Rightarrow> Pid \<Rightarrow> SignalInfo \<Rightarrow> deliveries \<Rightarrow> unit LinuxResult \<times> deliveries" where
  "send_signal_thread v tid sig ds =
     (if \<not> sv_thread_data v tid then (Inl EPERM, ds) else (Inr (), ds @ [(ToThread tid, sig)]))"

definition send_signal_process :: "sig_view \<Rightarrow> Pid \<Rightarrow> SignalInfo \<Rightarrow> deliveries \<Rightarrow> unit LinuxResult \<times> deliveries" where
  "send_signal_process v pid sig ds =
     (if \<not> sv_process_data v pid then (Inl EPERM, ds) else (Inr (), ds @ [(ToProcess pid, sig)]))"

fun send_each :: "sig_view \<Rightarrow> SignalInfo \<Rightarrow> Pid list \<Rightarrow> usize \<Rightarrow> deliveries \<Rightarrow> usize \<times> deliveries" where
  "send_each v sig [] count ds = (count, ds)"
| "send_each v sig (proc # procs) count ds =
     (case send_signal_process v proc sig ds of
        (Inl _, ds') \<Rightarrow> send_each v sig procs count ds'
      | (Inr _, ds') \<Rightarrow> send_each v sig procs (count + 1) ds')"

definition send_signal_process_group :: "sig_view \<Rightarrow> Pid \<Rightarrow> SignalInfo \<Rightarrow> deliveries \<Rightarrow> usize \<times> deliveries" where
  "send_signal_process_group v pgid sig ds = send_each v sig (sv_group v pgid) 0 ds"

subsection \<open>Calls\<close>

definition check_sigset_size :: "sig_abi \<Rightarrow> usize \<Rightarrow> unit LinuxResult" where
  "check_sigset_size K sz = (if sz \<noteq> sigset_bytes K then Inl EINVAL else Inr ())"

definition parse_signo :: "sig_abi \<Rightarrow> u32 \<Rightarrow> Signo LinuxResult" where
  "parse_signo K signo = ok_or (signo_from_repr K (ucast signo)) EINVAL"

definition sys_rt_sigprocmask ::
  "sig_abi \<Rightarrow> i32 \<Rightarrow> usize \<Rightarrow> usize \<Rightarrow> usize \<Rightarrow> Signo set user_mem \<Rightarrow> Signo set \<Rightarrow>
     isize LinuxResult \<times> Signo set user_mem \<times> Signo set" where
  "sys_rt_sigprocmask K how set_ptr oldset sigsetsize m blocked =
     (case check_sigset_size K sigsetsize of
        Inl e \<Rightarrow> (Inl e, m, blocked)
      | Inr _ \<Rightarrow>
     (case (if oldset = 0 then Inr m else try_then (um_check m oldset) (\<lambda>_. Inr (user_store oldset blocked m))) of
        Inl e \<Rightarrow> (Inl e, m, blocked)
      | Inr m1 \<Rightarrow>
          if set_ptr = 0 then (Inr 0, m1, blocked)
          else
            (case user_read m1 set_ptr of
               Inl e \<Rightarrow> (Inl e, m1, blocked)
             | Inr new_set \<Rightarrow>
                 if how = SIG_BLOCK K then (Inr 0, m1, blocked \<union> new_set)
                 else if how = SIG_UNBLOCK K then (Inr 0, m1, blocked - new_set)
                 else if how = SIG_SETMASK K then (Inr 0, m1, new_set)
                 else (Inl EINVAL, m1, blocked))))"

text \<open>
  \<open>to_ctype\<close> and \<open>try_into\<close> convert between the actions of \<^verbatim>\<open>axsignal\<close> and the structure of the program.
\<close>

definition sys_rt_sigaction ::
  "sig_abi \<Rightarrow> ('a \<Rightarrow> 'k) \<Rightarrow> ('k \<Rightarrow> 'a LinuxResult) \<Rightarrow> u32 \<Rightarrow> usize \<Rightarrow> usize \<Rightarrow> usize \<Rightarrow> 'k user_mem \<Rightarrow> (Signo \<Rightarrow> 'a) \<Rightarrow>
     isize LinuxResult \<times> 'k user_mem \<times> (Signo \<Rightarrow> 'a)" where
  "sys_rt_sigaction K to_ctype try_into signo act oldact sigsetsize m actions =
     (case check_sigset_size K sigsetsize of
        Inl e \<Rightarrow> (Inl e, m, actions)
      | Inr _ \<Rightarrow>
     (case parse_signo K signo of
        Inl e \<Rightarrow> (Inl e, m, actions)
      | Inr signo \<Rightarrow>
          if signo = SIGKILL K \<or> signo = SIGSTOP K then (Inl EINVAL, m, actions)
          else
            (case (if oldact = 0 then Inr m
                   else try_then (um_check m oldact) (\<lambda>_. Inr (user_store oldact (to_ctype (actions signo)) m))) of
               Inl e \<Rightarrow> (Inl e, m, actions)
             | Inr m1 \<Rightarrow>
                 if act = 0 then (Inr 0, m1, actions)
                 else
                   (case try_then (user_read m1 act) try_into of
                      Inl e \<Rightarrow> (Inl e, m1, actions)
                    | Inr new_act \<Rightarrow> (Inr 0, m1, actions(signo := new_act))))))"

definition sys_rt_sigpending ::
  "sig_abi \<Rightarrow> usize \<Rightarrow> usize \<Rightarrow> Signo set \<Rightarrow> Signo set user_mem \<Rightarrow> isize LinuxResult \<times> Signo set user_mem" where
  "sys_rt_sigpending K set_ptr sigsetsize pending m =
     (case check_sigset_size K sigsetsize of
        Inl e \<Rightarrow> (Inl e, m)
      | Inr _ \<Rightarrow>
     (case um_check m set_ptr of
        Inl e \<Rightarrow> (Inl e, m)
      | Inr _ \<Rightarrow> (Inr 0, user_store set_ptr pending m)))"

definition make_siginfo :: "sig_abi \<Rightarrow> u32 \<Rightarrow> i32 \<Rightarrow> SignalInfo option LinuxResult" where
  "make_siginfo K signo code =
     (if signo = 0 then Inr None
      else try_then (parse_signo K signo) (\<lambda>signo. Inr (Some (SignalInfo_new signo code))))"

text \<open>The loop of \<^verbatim>\<open>sys_kill\<close> over all processes.\<close>

fun kill_all :: "sig_view \<Rightarrow> SignalInfo \<Rightarrow> Pid list \<Rightarrow> isize \<Rightarrow> deliveries \<Rightarrow> isize LinuxResult \<times> deliveries" where
  "kill_all v sig [] count ds = (Inr count, ds)"
| "kill_all v sig (proc # procs) count ds =
     (if sv_is_init v proc then kill_all v sig procs count ds
      else case send_signal_process v proc sig ds of
        (Inl e, ds') \<Rightarrow> (Inl e, ds')
      | (Inr _, ds') \<Rightarrow> kill_all v sig procs (count + 1) ds')"

definition sys_kill :: "sig_abi \<Rightarrow> sig_view \<Rightarrow> i32 \<Rightarrow> u32 \<Rightarrow> deliveries \<Rightarrow> isize LinuxResult \<times> deliveries" where
  "sys_kill K v pid signo ds =
     (case make_siginfo K signo (SI_USER K) of
        Inl e \<Rightarrow> (Inl e, ds)
      | Inr None \<Rightarrow> (Inr 0, ds)
      | Inr (Some sig) \<Rightarrow>
          if 1 \<le> sint pid then
            (case get_process (sv_tables v) pid of
               Inl e \<Rightarrow> (Inl e, ds)
             | Inr proc \<Rightarrow>
                 (case send_signal_process v proc sig ds of
                    (Inl e, ds') \<Rightarrow> (Inl e, ds')
                  | (Inr _, ds') \<Rightarrow> (Inr 1, ds')))
          else if pid = 0 then
            (case send_signal_process_group v (sv_pgid v) sig ds of (n, ds') \<Rightarrow> (Inr n, ds'))
          else if pid = - 1 then kill_all v sig (sv_processes v) 0 ds
          else
            (case get_process_group (sv_tables v) (- pid) of
               Inl e \<Rightarrow> (Inl e, ds)
             | Inr pg \<Rightarrow> (case send_signal_process_group v pg sig ds of (n, ds') \<Rightarrow> (Inr n, ds'))))"

definition find_thread_in_group :: "sig_view \<Rightarrow> Pid \<Rightarrow> Pid \<Rightarrow> thread_view LinuxResult" where
  "find_thread_in_group v tgid tid =
     try_then (get_thread (sv_tables v) tid) (\<lambda>thr. if tv_pid thr \<noteq> tgid then Inl ESRCH else Inr thr)"

definition send_found :: "sig_view \<Rightarrow> thread_view LinuxResult \<Rightarrow> SignalInfo \<Rightarrow> deliveries \<Rightarrow> isize LinuxResult \<times> deliveries" where
  "send_found v found sig ds =
     (case found of
        Inl e \<Rightarrow> (Inl e, ds)
      | Inr thr \<Rightarrow>
          (case send_signal_thread v (tv_tid thr) sig ds of
             (Inl e, ds') \<Rightarrow> (Inl e, ds')
           | (Inr _, ds') \<Rightarrow> (Inr 0, ds')))"

definition sys_tkill :: "sig_abi \<Rightarrow> sig_view \<Rightarrow> Pid \<Rightarrow> u32 \<Rightarrow> deliveries \<Rightarrow> isize LinuxResult \<times> deliveries" where
  "sys_tkill K v tid signo ds =
     (case make_siginfo K signo (SI_TKILL K) of
        Inl e \<Rightarrow> (Inl e, ds)
      | Inr None \<Rightarrow> (Inr 0, ds)
      | Inr (Some sig) \<Rightarrow> send_found v (get_thread (sv_tables v) tid) sig ds)"

definition sys_tgkill :: "sig_abi \<Rightarrow> sig_view \<Rightarrow> Pid \<Rightarrow> Pid \<Rightarrow> u32 \<Rightarrow> deliveries \<Rightarrow> isize LinuxResult \<times> deliveries" where
  "sys_tgkill K v tgid tid signo ds =
     (case make_siginfo K signo (SI_TKILL K) of
        Inl e \<Rightarrow> (Inl e, ds)
      | Inr None \<Rightarrow> (Inr 0, ds)
      | Inr (Some sig) \<Rightarrow> send_found v (find_thread_in_group v tgid tid) sig ds)"

definition make_queue_signal_info ::
  "sig_abi \<Rightarrow> sig_view \<Rightarrow> Pid \<Rightarrow> u32 \<Rightarrow> SignalInfo LinuxResult \<Rightarrow> SignalInfo LinuxResult" where
  "make_queue_signal_info K v tgid signo sig_ptr =
     try_then (parse_signo K signo) (\<lambda>signo.
     try_then sig_ptr (\<lambda>sig.
       let sig = sig\<lparr>si_signo := signo\<rparr>
       in if sv_pid v \<noteq> tgid \<and> (0 \<le> sint (si_code sig) \<or> si_code sig = SI_TKILL K) then Inl EPERM
          else Inr sig))"

definition sys_rt_sigqueueinfo ::
  "sig_abi \<Rightarrow> sig_view \<Rightarrow> Pid \<Rightarrow> u32 \<Rightarrow> SignalInfo LinuxResult \<Rightarrow> usize \<Rightarrow> deliveries \<Rightarrow> isize LinuxResult \<times> deliveries" where
  "sys_rt_sigqueueinfo K v tgid signo sig_ptr sigsetsize ds =
     (case try_then (check_sigset_size K sigsetsize) (\<lambda>_.
           try_then (make_queue_signal_info K v tgid signo sig_ptr) (\<lambda>sig.
           try_then (get_process (sv_tables v) tgid) (\<lambda>proc. Inr (sig, proc)))) of
        Inl e \<Rightarrow> (Inl e, ds)
      | Inr (sig, proc) \<Rightarrow>
          (case send_signal_process v proc sig ds of
             (Inl e, ds') \<Rightarrow> (Inl e, ds')
           | (Inr _, ds') \<Rightarrow> (Inr 0, ds')))"

definition sys_rt_tgsigqueueinfo ::
  "sig_abi \<Rightarrow> sig_view \<Rightarrow> Pid \<Rightarrow> Pid \<Rightarrow> u32 \<Rightarrow> SignalInfo LinuxResult \<Rightarrow> usize \<Rightarrow> deliveries \<Rightarrow> isize LinuxResult \<times> deliveries" where
  "sys_rt_tgsigqueueinfo K v tgid tid signo sig_ptr sigsetsize ds =
     (case try_then (check_sigset_size K sigsetsize) (\<lambda>_. make_queue_signal_info K v tgid signo sig_ptr) of
        Inl e \<Rightarrow> (Inl e, ds)
      | Inr sig \<Rightarrow> send_found v (find_thread_in_group v tgid tid) sig ds)"

text \<open>\<open>restore\<close> puts back the trap frame that \<^verbatim>\<open>axsignal\<close> saved, \<open>retval\<close> reads its result register.\<close>

definition sys_rt_sigreturn :: "('f \<Rightarrow> 'f) \<Rightarrow> ('f \<Rightarrow> usize) \<Rightarrow> 'f \<Rightarrow> isize LinuxResult \<times> 'f" where
  "sys_rt_sigreturn restore retval tf = (let tf' = restore tf in (Inr (retval tf'), tf'))"

text \<open>
  \<open>wait\<close> is \<^verbatim>\<open>wait_timeout\<close> of \<^verbatim>\<open>axsignal\<close>: the signal that arrived in time, if any. \<open>None\<close> is the panic of a
  time value that overflows.
\<close>

definition sys_rt_sigtimedwait ::
  "sig_abi \<Rightarrow> Signo set LinuxResult \<Rightarrow> unit option LinuxResult \<Rightarrow> timespec option LinuxResult \<Rightarrow> usize \<Rightarrow>
     (Signo set \<Rightarrow> TimeValue option \<Rightarrow> SignalInfo option) \<Rightarrow> (isize LinuxResult \<times> SignalInfo option) option" where
  "sys_rt_sigtimedwait K set_ptr info timeout sigsetsize wait =
     (case try_then (check_sigset_size K sigsetsize) (\<lambda>_.
           try_then set_ptr (\<lambda>sigs. try_then timeout (\<lambda>timeout. Inr (sigs, timeout)))) of
        Inl e \<Rightarrow> Some (Inl e, None)
      | Inr (sigs, timeout) \<Rightarrow>
          (case (case timeout of None \<Rightarrow> Some None | Some ts \<Rightarrow> map_option Some (timespec_to_time_value ts)) of
             None \<Rightarrow> None
           | Some duration \<Rightarrow>
               (case wait sigs duration of
                  None \<Rightarrow> Some (Inl EAGAIN, None)
                | Some sig \<Rightarrow>
                    (case info of
                       Inl e \<Rightarrow> Some (Inl e, None)
                     | Inr None \<Rightarrow> Some (Inr 0, None)
                     | Inr (Some _) \<Rightarrow> Some (Inr 0, Some sig)))))"

record SignalStack =
  ss_sp :: usize
  ss_flags :: u32
  ss_size :: usize

text \<open>\<open>check_slice\<close> is \<^verbatim>\<open>get_as_slice\<close> on the new stack, which may panic.\<close>

definition sys_sigaltstack ::
  "sig_abi \<Rightarrow> (usize \<Rightarrow> usize \<Rightarrow> unit LinuxResult option) \<Rightarrow> usize \<Rightarrow> usize \<Rightarrow> SignalStack user_mem \<Rightarrow> SignalStack \<Rightarrow>
     (isize LinuxResult \<times> SignalStack user_mem \<times> SignalStack) option" where
  "sys_sigaltstack K check_slice ss old_ss m stack =
     (case (if old_ss = 0 then Inr m else try_then (um_check m old_ss) (\<lambda>_. Inr (user_store old_ss stack m))) of
        Inl e \<Rightarrow> Some (Inl e, m, stack)
      | Inr m1 \<Rightarrow>
          if ss = 0 then Some (Inr 0, m1, stack)
          else
            (case user_read m1 ss of
               Inl e \<Rightarrow> Some (Inl e, m1, stack)
             | Inr new_ss \<Rightarrow>
                 if ss_size new_ss \<le> MINSIGSTKSZ K then Some (Inl ENOMEM, m1, stack)
                 else (case check_slice (ss_sp new_ss) (ss_size new_ss) of
                         None \<Rightarrow> None
                       | Some (Inl e) \<Rightarrow> Some (Inl e, m1, stack)
                       | Some (Inr _) \<Rightarrow> Some (Inr 0, m1, new_ss))))"

subsection \<open>Acting on signals\<close>

datatype SignalOSAction = Terminate | CoreDump | Stop | Continue | Handler

text \<open>
  \<open>checked\<close> is what \<^verbatim>\<open>check_signals\<close> of \<^verbatim>\<open>axsignal\<close> returns: the signal taken from the queue and what the
  kernel is to do. The result says whether there was one, or that the process exits with a code.
\<close>

datatype check_outcome = NoSignal | SignalHandled | ExitWith i32

definition check_signals :: "(SignalInfo \<times> SignalOSAction) option \<Rightarrow> check_outcome" where
  "check_signals checked =
     (case checked of
        None \<Rightarrow> NoSignal
      | Some (sig, os_action) \<Rightarrow>
          let signo = si_signo sig
          in case os_action of
               Terminate \<Rightarrow> ExitWith (128 + ucast signo)
             | CoreDump \<Rightarrow> ExitWith (128 + ucast signo)
             | Stop \<Rightarrow> ExitWith 1
             | Continue \<Rightarrow> SignalHandled
             | Handler \<Rightarrow> SignalHandled)"

definition post_trap_callback :: "bool \<Rightarrow> (SignalInfo \<times> SignalOSAction) option \<Rightarrow> check_outcome" where
  "post_trap_callback from_user checked = (if \<not> from_user then NoSignal else check_signals checked)"

text \<open>
  \<^verbatim>\<open>sys_rt_sigsuspend\<close> against a schedule: what the check finds each time the task looks, a wait in
  between. \<open>Pending\<close> is a task that still waits when the schedule ends.
\<close>

fun sigsuspend_loop :: "(SignalInfo \<times> SignalOSAction) option list \<Rightarrow> (check_outcome, unit) call" where
  "sigsuspend_loop [] = Pending ()"
| "sigsuspend_loop (c # cs) =
     (case check_signals c of
        NoSignal \<Rightarrow> sigsuspend_loop cs
      | SignalHandled \<Rightarrow> Done SignalHandled ()
      | ExitWith code \<Rightarrow> Done (ExitWith code) ())"

definition sigsuspend_mask :: "sig_abi \<Rightarrow> Signo set \<Rightarrow> Signo set" where
  "sigsuspend_mask K sigs = sigs - {SIGKILL K} - {SIGSTOP K}"

text \<open>The result of the call, the return value put into the trap frame, the new mask and the mask to be restored.\<close>

definition sys_rt_sigsuspend ::
  "sig_abi \<Rightarrow> u32 \<Rightarrow> Signo set LinuxResult \<Rightarrow> usize \<Rightarrow> (SignalInfo \<times> SignalOSAction) option list \<Rightarrow> Signo set \<Rightarrow>
     (isize LinuxResult + check_outcome) option \<times> usize option \<times> Signo set \<times> Signo set option" where
  "sys_rt_sigsuspend K EINTR_code set_ptr sigsetsize sched blocked =
     (case try_then (check_sigset_size K sigsetsize) (\<lambda>_. set_ptr) of
        Inl e \<Rightarrow> (Some (Inl (Inl e)), None, blocked, None)
      | Inr sigs \<Rightarrow>
          let mask = sigsuspend_mask K sigs; retval = scast (- EINTR_code)
          in case sigsuspend_loop sched of
               Done (ExitWith code) _ \<Rightarrow> (Some (Inr (ExitWith code)), Some retval, mask, Some blocked)
             | Done _ _ \<Rightarrow> (Some (Inl (Inr 0)), Some retval, mask, Some blocked)
             | _ \<Rightarrow> (None, Some retval, mask, Some blocked))"

section \<open>Properties\<close>

definition deliver_to :: "SignalInfo \<Rightarrow> Pid list \<Rightarrow> deliveries" where
  "deliver_to sig ps = map (\<lambda>p. (ToProcess p, sig)) ps"

lemma send_each_eq:
  "send_each v sig procs c ds =
    (c + of_nat (length (filter (sv_process_data v) procs)), ds @ deliver_to sig (filter (sv_process_data v) procs))"
  by (induction procs arbitrary: c ds) (simp_all add: send_signal_process_def deliver_to_def)

lemma send_group_eq:
  "send_signal_process_group v pg sig ds =
    (of_nat (length (filter (sv_process_data v) (sv_group v pg))),
     ds @ deliver_to sig (filter (sv_process_data v) (sv_group v pg)))"
  by (simp add: send_signal_process_group_def send_each_eq)

lemma kill_all_eq:
  "kill_all v sig procs c ds =
    (let ps = filter (\<lambda>p. \<not> sv_is_init v p) procs
     in (if list_all (sv_process_data v) ps then Inr (c + of_nat (length ps)) else Inl EPERM,
         ds @ deliver_to sig (takeWhile (sv_process_data v) ps)))"
  by (induction procs arbitrary: c ds) (simp_all add: send_signal_process_def deliver_to_def Let_def add.assoc)

text \<open>
  C35. \<^verbatim>\<open>sys_kill\<close>. A positive pid names one process: \<^verbatim>\<open>ESRCH\<close> if the table does not have it, \<^verbatim>\<open>EPERM\<close> if it
  has no data left, otherwise it gets the signal and the call returns 1. Pid 0 and pids below -1
  name a process group: every member that still has its data gets the signal once, in order, and the
  call returns how many did. Pid -1 goes through all processes but init and stops with \<^verbatim>\<open>EPERM\<close> at the
  first without data, after those before it have got the signal. Signal 0 does nothing and checks
  nothing, an unknown signal gives \<^verbatim>\<open>EINVAL\<close>, and only the low byte of the number counts.
\<close>

theorem sys_kill_spec:
  assumes "signo \<noteq> 0" "signo_from_repr K (ucast signo) = Some sg" "sig = SignalInfo_new sg (SI_USER K)"
    and "run = sys_kill K v pid signo ds" "has = sv_process_data v"
  shows "(1 \<le> sint pid \<longrightarrow> run =
      (case get_process (sv_tables v) pid of
         Inl e \<Rightarrow> (Inl e, ds)
       | Inr p \<Rightarrow> if has p then (Inr 1, ds @ deliver_to sig [p]) else (Inl EPERM, ds)))
    \<and> (pid = 0 \<longrightarrow> run = (Inr (of_nat (length (filter has (sv_group v (sv_pgid v))))),
         ds @ deliver_to sig (filter has (sv_group v (sv_pgid v)))))
    \<and> (sint pid < - 1 \<longrightarrow> run =
      (case get_process_group (sv_tables v) (- pid) of
         Inl e \<Rightarrow> (Inl e, ds)
       | Inr pg \<Rightarrow> (Inr (of_nat (length (filter has (sv_group v pg)))), ds @ deliver_to sig (filter has (sv_group v pg)))))
    \<and> (pid = - 1 \<longrightarrow> run =
      (let ps = filter (\<lambda>p. \<not> sv_is_init v p) (sv_processes v)
       in (if list_all has ps then Inr (of_nat (length ps)) else Inl EPERM, ds @ deliver_to sig (takeWhile has ps))))
    \<and> sys_kill K v pid 0 ds = (Inr 0, ds)
    \<and> (\<forall>bad. bad \<noteq> 0 \<and> signo_from_repr K (ucast bad) = None \<longrightarrow> sys_kill K v pid bad ds = (Inl EINVAL, ds))
    \<and> (\<forall>same. same \<noteq> 0 \<and> (ucast same :: u8) = ucast signo \<longrightarrow> sys_kill K v pid same ds = run)"
proof -
  have sig: "make_siginfo K signo (SI_USER K) = Inr (Some sig)"
    using assms(1-3) by (simp add: make_siginfo_def parse_signo_def)
  note run = assms(4) [unfolded sys_kill_def sig sum.case option.case]
  have "run = (case get_process (sv_tables v) pid of Inl e \<Rightarrow> (Inl e, ds)
      | Inr p \<Rightarrow> if has p then (Inr 1, ds @ deliver_to sig [p]) else (Inl EPERM, ds))" if "1 \<le> sint pid"
    using that by (simp add: run assms(5) send_signal_process_def deliver_to_def split: sum.split)
  moreover have "run = (Inr (of_nat (length (filter has (sv_group v (sv_pgid v))))),
      ds @ deliver_to sig (filter has (sv_group v (sv_pgid v))))" if "pid = 0"
    using that by (simp add: run assms(5) send_group_eq)
  moreover have "run = (case get_process_group (sv_tables v) (- pid) of Inl e \<Rightarrow> (Inl e, ds)
      | Inr pg \<Rightarrow> (Inr (of_nat (length (filter has (sv_group v pg)))), ds @ deliver_to sig (filter has (sv_group v pg))))"
    if "sint pid < - 1"
  proof -
    have "\<not> 1 \<le> sint pid" "pid \<noteq> 0" "pid \<noteq> - 1" using that by auto
    then show ?thesis by (simp add: run assms(5) send_group_eq split: sum.split)
  qed
  moreover have "run = (let ps = filter (\<lambda>p. \<not> sv_is_init v p) (sv_processes v)
      in (if list_all has ps then Inr (of_nat (length ps)) else Inl EPERM, ds @ deliver_to sig (takeWhile has ps)))"
    if "pid = - 1"
    using that by (simp add: run assms(5) kill_all_eq Let_def)
  moreover have "sys_kill K v pid 0 ds = (Inr 0, ds)" by (simp add: sys_kill_def make_siginfo_def)
  moreover have "sys_kill K v pid bad ds = (Inl EINVAL, ds)"
    if "bad \<noteq> 0" "signo_from_repr K (ucast bad) = None" for bad
    using that by (simp add: sys_kill_def make_siginfo_def parse_signo_def)
  moreover have "sys_kill K v pid same ds = run" if "same \<noteq> 0" "(ucast same :: u8) = ucast signo" for same
    using that assms(1) unfolding assms(4) sys_kill_def make_siginfo_def parse_signo_def by simp
  ultimately show ?thesis by blast
qed

definition linux_sig :: sig_abi where
  "linux_sig = \<lparr>SIG_BLOCK = 0, SIG_UNBLOCK = 1, SIG_SETMASK = 2, SI_USER = 0, SI_TKILL = - 6, MINSIGSTKSZ = 2048,
     sigset_bytes = 8, SIGKILL = 9, SIGSTOP = 19,
     signo_from_repr = (\<lambda>n. if n = 0 \<or> 64 < n then None else Some n)\<rparr>"

theorem sys_kill_spec_witness:
  "let v = \<lparr>sv_tables = task_tables_new, sv_pid = 3, sv_pgid = 3, sv_group = (\<lambda>_. [3, 4, 5]), sv_processes = [1, 3, 4],
         sv_is_init = (\<lambda>p. p = 1), sv_process_data = (\<lambda>p. p \<noteq> 4), sv_thread_data = (\<lambda>_. True)\<rparr>;
       sig = SignalInfo_new 15 0
   in sys_kill linux_sig v 0 15 [] = (Inr 2, [(ToProcess 3, sig), (ToProcess 5, sig)])
    \<and> sys_kill linux_sig v (- 1) 15 [] = (Inl EPERM, [(ToProcess 3, sig)])
    \<and> sys_kill linux_sig v 9 15 [] = (Inl ESRCH, [])
    \<and> sys_kill linux_sig v 0 271 [] = (Inr 2, [(ToProcess 3, sig), (ToProcess 5, sig)])"
proof -
  let ?v = "\<lparr>sv_tables = task_tables_new, sv_pid = 3, sv_pgid = 3, sv_group = (\<lambda>_. [3, 4, 5]), sv_processes = [1, 3, 4],
         sv_is_init = (\<lambda>p. p = 1), sv_process_data = (\<lambda>p. p \<noteq> 4), sv_thread_data = (\<lambda>_. True)\<rparr> :: sig_view"
  have sg: "signo_from_repr linux_sig (ucast (15 :: u32)) = Some 15" by (simp add: linux_sig_def)
  note spec = sys_kill_spec [OF _ sg refl refl refl, where v = ?v and ds = "[]"]
  have code: "SI_USER linux_sig = 0" by (simp add: linux_sig_def)
  have "sys_kill linux_sig ?v 0 15 [] = (Inr 2, deliver_to (SignalInfo_new 15 0) [3, 5])"
    using spec [of 0] code by simp
  moreover have "sys_kill linux_sig ?v 0 271 [] = sys_kill linux_sig ?v 0 15 []"
    using spec [of 0] by simp
  moreover have "sys_kill linux_sig ?v (- 1) 15 [] = (Inl EPERM, deliver_to (SignalInfo_new 15 0) [3])"
    using spec [of "- 1"] code by (simp add: Let_def)
  moreover have "sys_kill linux_sig ?v 9 15 [] = (Inl ESRCH, [])"
    using spec [of 9] by (simp add: get_process_def task_tables_new_def)
  ultimately show ?thesis by (simp add: Let_def deliver_to_def)
qed

text \<open>
  C36. Saving and restoring the signal mask. With usable, distinct pointers \<^verbatim>\<open>sys_rt_sigprocmask\<close> stores
  the old mask, and the new mask is the old one with the set added, removed, or replaced; no signal
  is filtered out, so that \<^verbatim>\<open>SIGKILL\<close> and \<^verbatim>\<open>SIGSTOP\<close> can be blocked. An unknown operation changes no
  mask. Setting the stored mask again restores the mask the first call found.
\<close>

theorem sigprocmask_save_restore:
  assumes "distinct [SIG_BLOCK K, SIG_UNBLOCK K, SIG_SETMASK K]"
    and "sz = sigset_bytes K" "set_ptr \<noteq> 0" "old_ptr \<noteq> 0" "set_ptr \<noteq> old_ptr"
    and "um_check m set_ptr = Inr ()" "um_check m old_ptr = Inr ()"
    and "sys_rt_sigprocmask K how set_ptr old_ptr sz m blocked = (r, m', blocked')"
  shows "um_value m' old_ptr = blocked
    \<and> blocked' = (if how = SIG_BLOCK K then blocked \<union> um_value m set_ptr
         else if how = SIG_UNBLOCK K then blocked - um_value m set_ptr
         else if how = SIG_SETMASK K then um_value m set_ptr else blocked)
    \<and> r = (if how \<in> {SIG_BLOCK K, SIG_UNBLOCK K, SIG_SETMASK K} then Inr 0 else Inl EINVAL)
    \<and> (SIGKILL K \<in> um_value m set_ptr \<and> how = SIG_BLOCK K \<longrightarrow> SIGKILL K \<in> blocked')
    \<and> sys_rt_sigprocmask K (SIG_SETMASK K) old_ptr 0 sz m' blocked' = (Inr 0, m', blocked)"
proof -
  let ?m1 = "user_store old_ptr blocked m"
  have "user_read ?m1 set_ptr = Inr (um_value m set_ptr)"
    using assms(5,6) by (simp add: user_read_def user_store_def)
  then have r: "m' = ?m1" "(r, blocked') =
      (if how = SIG_BLOCK K then (Inr 0, blocked \<union> um_value m set_ptr)
       else if how = SIG_UNBLOCK K then (Inr 0, blocked - um_value m set_ptr)
       else if how = SIG_SETMASK K then (Inr 0, um_value m set_ptr) else (Inl EINVAL, blocked))"
    using assms(2-4,7,8) by (auto simp: sys_rt_sigprocmask_def check_sigset_size_def split: if_split_asm)
  have "um_value m' old_ptr = blocked" "um_check m' old_ptr = Inr ()"
    using assms(7) by (simp_all add: r(1) user_store_def)
  then show ?thesis
    using r(2) assms(1,2,4)
    by (auto simp: sys_rt_sigprocmask_def check_sigset_size_def user_read_def split: if_split_asm)
qed

theorem sigprocmask_save_restore_witness:
  "let m = \<lparr>um_check = (\<lambda>_. Inr ()), um_value = (\<lambda>p. if p = 0x1000 then {9, 15} else {})\<rparr>
   in \<exists>m'. sys_rt_sigprocmask linux_sig 0 0x1000 0x2000 8 m {2} = (Inr 0, m', {2, 9, 15})
     \<and> sys_rt_sigprocmask linux_sig 2 0x2000 0 8 m' {2, 9, 15} = (Inr 0, m', {2})"
proof -
  let ?m = "\<lparr>um_check = (\<lambda>_. Inr ()), um_value = (\<lambda>p. if p = 0x1000 then {9, 15} else {})\<rparr> :: Signo set user_mem"
  obtain r m' b where run: "sys_rt_sigprocmask linux_sig 0 0x1000 0x2000 8 ?m {2} = (r, m', b)"
    by (cases "sys_rt_sigprocmask linux_sig 0 0x1000 0x2000 8 ?m {2}") auto
  have K: "distinct [SIG_BLOCK linux_sig, SIG_UNBLOCK linux_sig, SIG_SETMASK linux_sig]" "8 = sigset_bytes linux_sig"
    "SIG_BLOCK linux_sig = 0" "SIG_SETMASK linux_sig = 2" by (simp_all add: linux_sig_def)
  note spec = sigprocmask_save_restore [OF K(1,2) _ _ _ _ _ run]
  have b: "b = {2, 9, 15}" using spec by (simp add: K(3,4) insert_commute)
  have "r = Inr 0" using spec by (simp add: K(3,4))
  moreover have "sys_rt_sigprocmask linux_sig (SIG_SETMASK linux_sig) 0x2000 0 8 m' b = (Inr 0, m', {2})"
    by (rule spec [THEN conjunct2, THEN conjunct2, THEN conjunct2, THEN conjunct2]) simp_all
  ultimately have "r = Inr 0" "sys_rt_sigprocmask linux_sig 2 0x2000 0 8 m' b = (Inr 0, m', {2})"
    by (simp_all only: K(4))
  with run b show ?thesis unfolding Let_def by blast
qed

end
