(* ===== verification/Open_Stat.thy ===== *)
theory Open_Stat
  imports Names Pipe
begin

text \<open>
  Opening files and reading their metadata: \<^verbatim>\<open>flags_to_options\<close>, \<^verbatim>\<open>sys_openat\<close> and \<^verbatim>\<open>sys_open\<close>
  (\<^verbatim>\<open>api/src/imp/fs/fd_ops.rs\<close>), \<^verbatim>\<open>Kstat\<close> and its conversions (\<^verbatim>\<open>api/src/file/mod.rs\<close>), the \<^verbatim>\<open>stat\<close> of
  every kind of object, and the calls of \<^verbatim>\<open>api/src/imp/fs/stat.rs\<close>. Files and directories of \<^verbatim>\<open>axfs\<close> are
  objects with a number.
\<close>

section \<open>Metadata\<close>

record Kstat =
  ino :: u64
  nlink :: u32
  uid :: u32
  gid :: u32
  mode :: u32
  ksize :: u64
  blocks :: u64
  blksize :: u32

definition Kstat_default :: Kstat where
  "Kstat_default = \<lparr>ino = 1, nlink = 1, uid = 1, gid = 1, mode = 0, ksize = 0, blocks = 0, blksize = 4096\<rparr>"

text \<open>The fields of the two structures that the kernel fills, with their widths on x86\_64; the others are zero.\<close>

record stat =
  st_ino :: u64
  st_nlink :: u64
  st_mode :: u32
  st_uid :: u32
  st_gid :: u32
  st_size :: u64
  st_blksize :: u64
  st_blocks :: u64

record statx =
  stx_mask :: u32
  stx_blksize :: u32
  stx_attributes :: u64
  stx_nlink :: u32
  stx_uid :: u32
  stx_gid :: u32
  stx_mode :: u16
  stx_ino :: u64
  stx_size :: u64
  stx_blocks :: u64

definition stat_from :: "Kstat \<Rightarrow> stat" where
  "stat_from value = \<lparr>st_ino = ino value, st_nlink = ucast (nlink value), st_mode = mode value,
     st_uid = uid value, st_gid = gid value, st_size = ksize value, st_blksize = ucast (blksize value),
     st_blocks = blocks value\<rparr>"

definition statx_from :: "Kstat \<Rightarrow> statx" where
  "statx_from value = \<lparr>stx_mask = 0, stx_blksize = blksize value, stx_attributes = ucast (mode value),
     stx_nlink = nlink value, stx_uid = uid value, stx_gid = gid value, stx_mode = ucast (mode value),
     stx_ino = ino value, stx_size = ksize value, stx_blocks = blocks value\<rparr>"

record stat_abi =
  S_IFDIR :: u32
  S_IFCHR :: u32
  S_IFIFO :: u32
  S_IFSOCK :: u32
  AT_EMPTY_PATH :: u32

record file_attr =
  fa_type :: u8
  fa_perm :: u32
  fa_size :: u64
  fa_blocks :: u64

definition File_stat :: "file_attr AxResult \<Rightarrow> (AxError \<Rightarrow> LinuxError) \<Rightarrow> Kstat LinuxResult" where
  "File_stat attr into =
     try_then (map_err into attr) (\<lambda>metadata.
       let ty = fa_type metadata; perm = fa_perm metadata
       in Inr (Kstat_default\<lparr>mode := push_bit 12 (ucast ty) OR perm, ksize := fa_size metadata,
            blocks := fa_blocks metadata, blksize := 512\<rparr>))"

definition Directory_stat :: "stat_abi \<Rightarrow> Kstat LinuxResult" where
  "Directory_stat S = Inr (Kstat_default\<lparr>mode := S_IFDIR S OR 0x1ED\<rparr>)"

definition Socket_stat :: "stat_abi \<Rightarrow> Kstat LinuxResult" where
  "Socket_stat S = Inr (Kstat_default\<lparr>mode := S_IFSOCK S OR 0x1FF, blksize := 4096\<rparr>)"

definition Pipe_stat :: "stat_abi \<Rightarrow> Kstat LinuxResult" where
  "Pipe_stat S = Inr (Kstat_default\<lparr>mode := S_IFIFO S OR 0x180\<rparr>)"

definition Stdin_stat :: "stat_abi \<Rightarrow> Kstat LinuxResult" where
  "Stdin_stat S = Inr (Kstat_default\<lparr>mode := S_IFCHR S OR 0x124\<rparr>)"

definition Stdout_stat :: "stat_abi \<Rightarrow> Kstat LinuxResult" where
  "Stdout_stat S = Inr (Kstat_default\<lparr>mode := S_IFCHR S OR 0x90\<rparr>)"

definition FileLike_stat ::
  "stat_abi \<Rightarrow> (nat \<Rightarrow> file_attr AxResult) \<Rightarrow> (AxError \<Rightarrow> LinuxError) \<Rightarrow> file_like \<Rightarrow> Kstat LinuxResult" where
  "FileLike_stat S attr into f =
     (case f of
        FL_File i \<Rightarrow> File_stat (attr i) into
      | FL_Directory i \<Rightarrow> Directory_stat S
      | FL_Socket i \<Rightarrow> Socket_stat S
      | FL_Pipe i r \<Rightarrow> Pipe_stat S
      | FL_Stdin \<Rightarrow> Stdin_stat S
      | FL_Stdout \<Rightarrow> Stdout_stat S)"

section \<open>Opening\<close>

record open_abi =
  O_RDONLY :: u32
  O_WRONLY :: u32
  O_APPEND :: u32
  O_TRUNC :: u32
  O_CREAT :: u32
  O_PATH :: u32
  O_DIRECTORY :: u32

record OpenOptions =
  oo_read :: bool
  oo_write :: bool
  oo_append :: bool
  oo_truncate :: bool
  oo_create :: bool
  oo_execute :: bool
  oo_directory :: bool

definition OpenOptions_new :: OpenOptions where
  "OpenOptions_new = \<lparr>oo_read = False, oo_write = False, oo_append = False, oo_truncate = False,
     oo_create = False, oo_execute = False, oo_directory = False\<rparr>"

definition flags_to_options :: "open_abi \<Rightarrow> c_int \<Rightarrow> OpenOptions" where
  "flags_to_options K flags =
     (let access = flags AND 3
      in OpenOptions_new\<lparr>oo_read := access \<noteq> O_WRONLY K \<or> access = O_RDONLY K,
           oo_write := access \<noteq> O_RDONLY K,
           oo_append := flags AND O_APPEND K \<noteq> 0,
           oo_truncate := flags AND O_TRUNC K \<noteq> 0,
           oo_create := flags AND O_CREAT K \<noteq> 0,
           oo_execute := flags AND O_PATH K \<noteq> 0,
           oo_directory := flags AND O_DIRECTORY K \<noteq> 0\<rparr>)"

text \<open>Opening a file or a directory of \<^verbatim>\<open>axfs\<close>, by a name that may be relative to an open directory.\<close>

record 's open_ops =
  op_file :: "nat option \<Rightarrow> str \<Rightarrow> OpenOptions \<Rightarrow> 's \<Rightarrow> nat AxResult \<times> 's"
  op_dir :: "nat option \<Rightarrow> str \<Rightarrow> OpenOptions \<Rightarrow> 's \<Rightarrow> nat AxResult \<times> 's"
  op_attr :: "'s \<Rightarrow> nat \<Rightarrow> file_attr AxResult"

text \<open>The object that was opened with the name kept for it, and the table it was added to.\<close>

definition add_opened ::
  "('s, 't) fs_env \<Rightarrow> file_like \<Rightarrow> str \<Rightarrow> 't \<Rightarrow> isize LinuxResult \<times> (file_like \<times> str) option \<times> 't" where
  "add_opened E f path t =
     (case add_file_like (env_fds E) t f of
        (Inl e, t') \<Rightarrow> (Inl e, None, t')
      | (Inr fd, t') \<Rightarrow> (Inr (c_int_as_usize fd), Some (f, path), t'))"

definition sys_openat ::
  "open_abi \<Rightarrow> ('s, 't) fs_env \<Rightarrow> 's open_ops \<Rightarrow> c_int \<Rightarrow> str LinuxResult \<Rightarrow> i32 \<Rightarrow> 's names \<Rightarrow>
     (isize LinuxResult \<times> (file_like \<times> str) option \<times> 't, 's names) call" where
  "sys_openat K E P dirfd path_ptr flags st =
     (let t = env_table E; into = ax_into (env_fs E)
      in case path_ptr of
           Inl e \<Rightarrow> Done (Inl e, None, t) st
         | Inr path \<Rightarrow>
      (let opts = flags_to_options K flags
       in case (if starts_with_slash path \<or> dirfd = AT_FDCWD (env_at E) then Inr None
                else try_then (Directory_from_fd (env_fds E) t dirfd) (\<lambda>d. Inr (Some d))) of
            Inl e \<Rightarrow> Done (Inl e, None, t) st
          | Inr dir \<Rightarrow>
      (case handle_file_path E dirfd path (fst st) (snd st) of
         None \<Rightarrow> Panic
       | Some (Inl e) \<Rightarrow> Done (Inl e, None, t) st
       | Some (Inr resolved) \<Rightarrow>
           (let open_directory = (\<lambda>s.
              case op_dir P dir path opts s of
                (Inl e, s') \<Rightarrow> Done (Inl (into e), None, t) (fst st, s')
              | (Inr d, s') \<Rightarrow> Done (add_opened E (FL_Directory d) resolved t) (fst st, s'))
            in if \<not> oo_directory opts then
                 (case op_file P dir path opts (snd st) of
                    (Inl IsADirectory, s1) \<Rightarrow> open_directory s1
                  | (Inl e, s1) \<Rightarrow> Done (Inl (into e), None, t) (fst st, s1)
                  | (Inr f, s1) \<Rightarrow> Done (add_opened E (FL_File f) resolved t) (fst st, s1))
               else open_directory (snd st)))))"

definition sys_open ::
  "open_abi \<Rightarrow> ('s, 't) fs_env \<Rightarrow> 's open_ops \<Rightarrow> str LinuxResult \<Rightarrow> i32 \<Rightarrow> 's names \<Rightarrow>
     (isize LinuxResult \<times> (file_like \<times> str) option \<times> 't, 's names) call" where
  "sys_open K E P path_ptr flags st = sys_openat K E P (AT_FDCWD (env_at E)) path_ptr flags st"

section \<open>The stat calls\<close>

definition stat_at_path ::
  "stat_abi \<Rightarrow> ('s, 't) fs_env \<Rightarrow> 's open_ops \<Rightarrow> str \<Rightarrow> 's \<Rightarrow> Kstat LinuxResult \<times> 's" where
  "stat_at_path S E P path s =
     (let opts = OpenOptions_new\<lparr>oo_read := True\<rparr>; into = ax_into (env_fs E)
      in case op_file P None path opts s of
           (Inr f, s1) \<Rightarrow> (FileLike_stat S (op_attr P s1) into (FL_File f), s1)
         | (Inl IsADirectory, s1) \<Rightarrow>
             (case op_dir P None path opts s1 of
                (Inl e, s2) \<Rightarrow> (Inl (into e), s2)
              | (Inr d, s2) \<Rightarrow> (FileLike_stat S (op_attr P s2) into (FL_Directory d), s2))
         | (Inl e, s1) \<Rightarrow> (Inl (into e), s1))"

text \<open>
  A call computes the structure, then checks the pointer \<open>buf\<close> and stores through it; the value
  stored, if any, is part of the result.
\<close>

definition sys_stat ::
  "stat_abi \<Rightarrow> ('s, 't) fs_env \<Rightarrow> 's open_ops \<Rightarrow> str LinuxResult \<Rightarrow> unit LinuxResult \<Rightarrow> 's names \<Rightarrow>
     (isize LinuxResult \<times> stat option, 's names) call" where
  "sys_stat S E P path_ptr buf st =
     (case path_ptr of
        Inl e \<Rightarrow> Done (Inl e, None) st
      | Inr path \<Rightarrow>
          (case stat_at_path S E P path (snd st) of
             (Inl e, s') \<Rightarrow> Done (Inl e, None) (fst st, s')
           | (Inr k, s') \<Rightarrow>
               (case buf of
                  Inl e \<Rightarrow> Done (Inl e, None) (fst st, s')
                | Inr _ \<Rightarrow> Done (Inr 0, Some (stat_from k)) (fst st, s'))))"

definition sys_fstat ::
  "stat_abi \<Rightarrow> ('s, 't) fs_env \<Rightarrow> 's open_ops \<Rightarrow> i32 \<Rightarrow> unit LinuxResult \<Rightarrow> 's names \<Rightarrow> isize LinuxResult \<times> stat option" where
  "sys_fstat S E P fd buf st =
     (case try_then (get_file_like (env_fds E) (env_table E) fd)
             (FileLike_stat S (op_attr P (snd st)) (ax_into (env_fs E))) of
        Inl e \<Rightarrow> (Inl e, None)
      | Inr k \<Rightarrow> (case buf of Inl e \<Rightarrow> (Inl e, None) | Inr _ \<Rightarrow> (Inr 0, Some (stat_from k))))"

definition sys_lstat ::
  "stat_abi \<Rightarrow> ('s, 't) fs_env \<Rightarrow> 's open_ops \<Rightarrow> str LinuxResult \<Rightarrow> unit LinuxResult \<Rightarrow> 's names \<Rightarrow>
     (isize LinuxResult \<times> stat option, 's names) call" where
  "sys_lstat S E P path_ptr buf st = sys_stat S E P path_ptr buf st"

text \<open>The part that \<^verbatim>\<open>sys_fstatat\<close> and \<^verbatim>\<open>sys_statx\<close> have in common, up to the structure they store.\<close>

definition stat_at ::
  "stat_abi \<Rightarrow> ('s, 't) fs_env \<Rightarrow> 's open_ops \<Rightarrow> (Kstat \<Rightarrow> 'b) \<Rightarrow> c_int \<Rightarrow> str option LinuxResult \<Rightarrow> unit LinuxResult \<Rightarrow>
     u32 \<Rightarrow> 's names \<Rightarrow> (isize LinuxResult \<times> 'b option, 's names) call" where
  "stat_at S E P conv dirfd path_ptr buf flags st =
     (let store = (\<lambda>r s. case r of
            Inl e \<Rightarrow> Done (Inl e, None) (fst st, s)
          | Inr k \<Rightarrow> (case buf of Inl e \<Rightarrow> Done (Inl e, None) (fst st, s)
                               | Inr _ \<Rightarrow> Done (Inr 0, Some (conv k)) (fst st, s)))
      in case path_ptr of
           Inl e \<Rightarrow> Done (Inl e, None) st
         | Inr path \<Rightarrow>
             if path = None \<or> path = Some [] then
               if flags AND AT_EMPTY_PATH S = 0 then Done (Inl ENOENT, None) st
               else store (try_then (get_file_like (env_fds E) (env_table E) dirfd)
                      (FileLike_stat S (op_attr P (snd st)) (ax_into (env_fs E)))) (snd st)
             else
               (case handle_file_path E dirfd (the path) (fst st) (snd st) of
                  None \<Rightarrow> Panic
                | Some (Inl e) \<Rightarrow> Done (Inl e, None) st
                | Some (Inr p) \<Rightarrow> (case stat_at_path S E P p (snd st) of (r, s') \<Rightarrow> store r s')))"

definition sys_fstatat ::
  "stat_abi \<Rightarrow> ('s, 't) fs_env \<Rightarrow> 's open_ops \<Rightarrow> c_int \<Rightarrow> str option LinuxResult \<Rightarrow> unit LinuxResult \<Rightarrow>
     u32 \<Rightarrow> 's names \<Rightarrow> (isize LinuxResult \<times> stat option, 's names) call" where
  "sys_fstatat S E P dirfd path_ptr buf flags st = stat_at S E P stat_from dirfd path_ptr buf flags st"

definition sys_statx ::
  "stat_abi \<Rightarrow> ('s, 't) fs_env \<Rightarrow> 's open_ops \<Rightarrow> c_int \<Rightarrow> str option LinuxResult \<Rightarrow> u32 \<Rightarrow> u32 \<Rightarrow> unit LinuxResult \<Rightarrow>
     's names \<Rightarrow> (isize LinuxResult \<times> statx option, 's names) call" where
  "sys_statx S E P dirfd path_ptr flags stx_want buf st = stat_at S E P statx_from dirfd path_ptr buf flags st"

section \<open>Link names\<close>

text \<open>
  \<^verbatim>\<open>sys_openat\<close> resolves the name through the link table but opens the name as it was given; the resolved
  name is only kept for later. \<^verbatim>\<open>sys_fstatat\<close> looks at the resolved name.
\<close>

lemma sys_openat_opens_given_name:
  assumes "starts_with_slash path" "\<not> oo_directory (flags_to_options K flags)"
    and "handle_file_path E dirfd path (fst st) (snd st) = Some (Inr p)"
    and "op_file P None path (flags_to_options K flags) (snd st) = (Inl e, s')" "e \<noteq> IsADirectory"
  shows "sys_openat K E P dirfd (Inr path) flags st = Done (Inl (ax_into (env_fs E) e), None, env_table E) (fst st, s')"
  using assms by (cases e) (simp_all add: sys_openat_def)

lemma sys_fstatat_uses_resolved_name:
  assumes "path \<noteq> []" "handle_file_path E dirfd path (fst st) (snd st) = Some (Inr p)"
    and "stat_at_path S E P p (snd st) = (Inr k, s')"
  shows "sys_fstatat S E P dirfd (Inr (Some path)) (Inr ()) flags st = Done (Inr 0, Some (stat_from k)) (fst st, s')"
  using assms by (simp add: sys_fstatat_def stat_at_def)

lemma sys_stat_uses_given_name:
  assumes "stat_at_path S E P path (snd st) = (Inl e, s')"
  shows "sys_stat S E P (Inr path) buf st = Done (Inl e, None) (fst st, s')"
  using assms by (simp add: sys_stat_def)

end
