(* ===== verification/File_IO.thy ===== *)
theory File_IO
  imports Fd_Table Pipe
begin

text \<open>
  Reading and writing through descriptors: the calls of \<^verbatim>\<open>api/src/imp/fs/io.rs\<close>, the objects behind a
  descriptor (\<^verbatim>\<open>api/src/file/fs.rs\<close>), the console (\<^verbatim>\<open>api/src/file/stdio.rs\<close>), sockets
  (\<^verbatim>\<open>api/src/file/net.rs\<close>) and the pipes of theory \<open>Pipe\<close>. Files, sockets and console devices belong to
  other crates and are arguments.

  A call may have to wait. It runs on a state \<open>(es, w)\<close>: the world and what the other tasks do to it
  each time the call yields. A call takes from \<open>es\<close> as many entries as it yields, and the calls after
  it go on with the rest.
\<close>

section \<open>Objects\<close>

type_synonym 'w sched = "('w \<Rightarrow> 'w) list \<times> 'w"

datatype SeekFrom = SeekStart u64 | SeekCurrent u64 | SeekEnd u64

datatype socket_kind = Udp | Tcp

text \<open>
  The operations on objects with a number. A read of \<open>n\<close> bytes gives the bytes put into the buffer.
  \<open>io_pipe\<close> and \<open>io_put_pipe\<close> reach the buffer of a pipe. \<open>io_slice\<close>, \<open>io_mut_slice\<close> and \<open>io_iovs\<close> are
  the checks of user pointers (\<open>None\<close> is their panic) with the bytes and pairs found there, \<open>io_store\<close>
  writes to checked user memory.
\<close>

record 'w io_ops =
  io_into :: "AxError \<Rightarrow> LinuxError"
  io_file_read :: "nat \<Rightarrow> nat \<Rightarrow> 'w \<Rightarrow> u8 list AxResult \<times> 'w"
  io_file_write :: "nat \<Rightarrow> u8 list \<Rightarrow> 'w \<Rightarrow> usize AxResult \<times> 'w"
  io_file_seek :: "nat \<Rightarrow> SeekFrom \<Rightarrow> 'w \<Rightarrow> u64 AxResult \<times> 'w"
  io_sock_kind :: "nat \<Rightarrow> socket_kind"
  io_udp_recv_from :: "nat \<Rightarrow> nat \<Rightarrow> 'w \<Rightarrow> (u8 list \<times> nat) AxResult \<times> 'w"
  io_tcp_recv :: "nat \<Rightarrow> nat \<Rightarrow> 'w \<Rightarrow> u8 list AxResult \<times> 'w"
  io_udp_send_to :: "nat \<Rightarrow> u8 list \<Rightarrow> nat \<Rightarrow> 'w \<Rightarrow> usize AxResult \<times> 'w"
  io_tcp_listen :: "nat \<Rightarrow> 'w \<Rightarrow> unit AxResult \<times> 'w"
  io_tcp_accept :: "nat \<Rightarrow> 'w \<Rightarrow> nat AxResult \<times> 'w"
  io_send :: "socket_kind \<Rightarrow> nat \<Rightarrow> u8 list \<Rightarrow> 'w \<Rightarrow> usize AxResult \<times> 'w"
  io_poll :: "socket_kind \<Rightarrow> nat \<Rightarrow> 'w \<Rightarrow> PollState AxResult \<times> 'w"
  io_local_addr :: "socket_kind \<Rightarrow> nat \<Rightarrow> 'w \<Rightarrow> nat AxResult \<times> 'w"
  io_peer_addr :: "socket_kind \<Rightarrow> nat \<Rightarrow> 'w \<Rightarrow> nat AxResult \<times> 'w"
  io_bind :: "socket_kind \<Rightarrow> nat \<Rightarrow> nat \<Rightarrow> 'w \<Rightarrow> unit AxResult \<times> 'w"
  io_connect :: "socket_kind \<Rightarrow> nat \<Rightarrow> nat \<Rightarrow> 'w \<Rightarrow> unit AxResult \<times> 'w"
  io_shutdown :: "socket_kind \<Rightarrow> nat \<Rightarrow> 'w \<Rightarrow> unit AxResult \<times> 'w"
  io_pipe :: "nat \<Rightarrow> 'w \<Rightarrow> pipe_buf"
  io_put_pipe :: "nat \<Rightarrow> pipe_buf \<Rightarrow> 'w \<Rightarrow> 'w"
  io_con_read :: "nat \<Rightarrow> 'w \<Rightarrow> u8 list \<times> 'w"
  io_con_write :: "u8 list \<Rightarrow> 'w \<Rightarrow> 'w"
  io_buf_read :: "nat \<Rightarrow> 'w \<Rightarrow> u8 list AxResult \<times> 'w"
  io_slice :: "usize \<Rightarrow> usize \<Rightarrow> 'w \<Rightarrow> (u8 list LinuxResult \<times> 'w) option"
  io_mut_slice :: "usize \<Rightarrow> usize \<Rightarrow> 'w \<Rightarrow> (unit LinuxResult \<times> 'w) option"
  io_iovs :: "usize \<Rightarrow> usize \<Rightarrow> 'w \<Rightarrow> ((usize \<times> usize) list LinuxResult \<times> 'w) option"
  io_store :: "usize \<Rightarrow> u8 list \<Rightarrow> 'w \<Rightarrow> 'w"

text \<open>An operation that does not wait, with its error converted by \<^verbatim>\<open>?\<close>.\<close>

definition ax_done :: "'w io_ops \<Rightarrow> ('w \<Rightarrow> 'a AxResult \<times> 'w) \<Rightarrow> 'w sched \<Rightarrow> ('a LinuxResult, 'w sched) call" where
  "ax_done P f st = (case f (snd st) of (r, w) \<Rightarrow> Done (map_err (io_into P) r) (fst st, w))"

text \<open>A loop that polls, and yields between two turns.\<close>

fun poll_loop ::
  "('l \<Rightarrow> 'w \<Rightarrow> (('r, 'l) turn \<times> 'w) option) \<Rightarrow> 'l \<Rightarrow> ('w \<Rightarrow> 'w) list \<Rightarrow> 'w \<Rightarrow> ('r, 'w sched) call" where
  "poll_loop f l es w =
     (case f l w of
        None \<Rightarrow> Panic
      | Some (Leave r, w') \<Rightarrow> Done r (es, w')
      | Some (Again l', w') \<Rightarrow>
          (case es of [] \<Rightarrow> Pending ([], w') | ev # es' \<Rightarrow> poll_loop f l' es' (ev w')))"

declare poll_loop.simps [simp del]

subsection \<open>The console\<close>

definition cr_to_nl :: "u8 \<Rightarrow> u8" where
  "cr_to_nl c = (if c = 0x0D then 0x0A else c)"

definition console_read_bytes :: "'w io_ops \<Rightarrow> nat \<Rightarrow> 'w \<Rightarrow> u8 list \<times> 'w" where
  "console_read_bytes P n w = (case io_con_read P n w of (bs, w') \<Rightarrow> (map cr_to_nl bs, w'))"

definition console_write_bytes :: "'w io_ops \<Rightarrow> u8 list \<Rightarrow> 'w \<Rightarrow> usize AxResult \<times> 'w" where
  "console_write_bytes P buf w = (Inr (of_nat (length buf)), io_con_write P buf w)"

text \<open>\<^verbatim>\<open>StdinRaw::read\<close>: \<open>acc\<close> is the part of the buffer already filled.\<close>

function StdinRaw_read :: "'w io_ops \<Rightarrow> nat \<Rightarrow> u8 list \<Rightarrow> 'w \<Rightarrow> u8 list \<times> 'w" where
  "StdinRaw_read P n acc w =
     (if length acc < n then
        (case console_read_bytes P (n - length acc) w of
           (bs, w') \<Rightarrow> if bs = [] then (acc, w') else StdinRaw_read P n (acc @ bs) w')
      else (acc, w))"
  by pat_completeness auto
termination
  by (relation "measure (\<lambda>(P, n, acc, w). n - length acc)") (auto simp: neq_Nil_conv)

declare StdinRaw_read.simps [simp del]

text \<open>\<^verbatim>\<open>Stdin::read_blocked\<close>; the buffered reader around \<^verbatim>\<open>StdinRaw\<close> is \<open>io_buf_read\<close>.\<close>

definition stdin_turn :: "'w io_ops \<Rightarrow> nat \<Rightarrow> 'w \<Rightarrow> ((u8 list AxResult, unit) turn \<times> 'w) option" where
  "stdin_turn P n w =
     (case io_buf_read P n w of
        (Inl e, w') \<Rightarrow> Some (Leave (Inl e), w')
      | (Inr bs, w') \<Rightarrow> Some (if 0 < length bs then Leave (Inr bs) else Again (), w'))"

definition read_blocked :: "'w io_ops \<Rightarrow> nat \<Rightarrow> 'w sched \<Rightarrow> (u8 list AxResult, 'w sched) call" where
  "read_blocked P n st =
     (case io_buf_read P n (snd st) of
        (Inl e, w) \<Rightarrow> Done (Inl e) (fst st, w)
      | (Inr bs, w) \<Rightarrow>
          if n = 0 \<or> 0 < length bs then Done (Inr bs) (fst st, w)
          else poll_loop (\<lambda>_. stdin_turn P n) () (fst st) w)"

subsection \<open>Sockets\<close>

definition Socket_recv :: "'w io_ops \<Rightarrow> nat \<Rightarrow> nat \<Rightarrow> 'w sched \<Rightarrow> (u8 list LinuxResult, 'w sched) call" where
  "Socket_recv P i n =
     (case io_sock_kind P i of
        Udp \<Rightarrow> ax_done P (\<lambda>w. apfst (\<lambda>r. try_then r (\<lambda>(bs, _). Inr bs)) (io_udp_recv_from P i n w))
      | Tcp \<Rightarrow> ax_done P (io_tcp_recv P i n))"

definition Socket_sendto :: "'w io_ops \<Rightarrow> nat \<Rightarrow> u8 list \<Rightarrow> nat \<Rightarrow> 'w sched \<Rightarrow> (usize LinuxResult, 'w sched) call" where
  "Socket_sendto P i buf addr =
     (case io_sock_kind P i of
        Udp \<Rightarrow> ax_done P (io_udp_send_to P i buf addr)
      | Tcp \<Rightarrow> Done (Inl EISCONN))"

definition Socket_recvfrom ::
  "'w io_ops \<Rightarrow> nat \<Rightarrow> nat \<Rightarrow> 'w sched \<Rightarrow> ((u8 list \<times> nat option) LinuxResult, 'w sched) call" where
  "Socket_recvfrom P i n =
     (case io_sock_kind P i of
        Udp \<Rightarrow> ax_done P (\<lambda>w. apfst (\<lambda>r. try_then r (\<lambda>(bs, addr). Inr (bs, Some addr))) (io_udp_recv_from P i n w))
      | Tcp \<Rightarrow> ax_done P (\<lambda>w. apfst (\<lambda>r. try_then r (\<lambda>bs. Inr (bs, None))) (io_tcp_recv P i n w)))"

definition Socket_listen :: "'w io_ops \<Rightarrow> nat \<Rightarrow> 'w sched \<Rightarrow> (unit LinuxResult, 'w sched) call" where
  "Socket_listen P i =
     (case io_sock_kind P i of Udp \<Rightarrow> Done (Inl EOPNOTSUPP) | Tcp \<Rightarrow> ax_done P (io_tcp_listen P i))"

definition Socket_accept :: "'w io_ops \<Rightarrow> nat \<Rightarrow> 'w sched \<Rightarrow> (nat LinuxResult, 'w sched) call" where
  "Socket_accept P i =
     (case io_sock_kind P i of Udp \<Rightarrow> Done (Inl EOPNOTSUPP) | Tcp \<Rightarrow> ax_done P (io_tcp_accept P i))"

text \<open>The macro \<^verbatim>\<open>impl_socket!\<close>: the method of the same name of either kind of socket.\<close>

definition impl_socket ::
  "'w io_ops \<Rightarrow> (socket_kind \<Rightarrow> nat \<Rightarrow> 'w \<Rightarrow> 'a AxResult \<times> 'w) \<Rightarrow> nat \<Rightarrow> 'w sched \<Rightarrow> ('a LinuxResult, 'w sched) call" where
  "impl_socket P method i = ax_done P (method (io_sock_kind P i) i)"

definition Socket_send :: "'w io_ops \<Rightarrow> nat \<Rightarrow> u8 list \<Rightarrow> 'w sched \<Rightarrow> (usize LinuxResult, 'w sched) call" where
  "Socket_send P i buf = impl_socket P (\<lambda>k i. io_send P k i buf) i"

definition Socket_poll :: "'w io_ops \<Rightarrow> nat \<Rightarrow> 'w sched \<Rightarrow> (PollState LinuxResult, 'w sched) call" where
  "Socket_poll P i = impl_socket P (io_poll P) i"

definition Socket_local_addr :: "'w io_ops \<Rightarrow> nat \<Rightarrow> 'w sched \<Rightarrow> (nat LinuxResult, 'w sched) call" where
  "Socket_local_addr P i = impl_socket P (io_local_addr P) i"

definition Socket_peer_addr :: "'w io_ops \<Rightarrow> nat \<Rightarrow> 'w sched \<Rightarrow> (nat LinuxResult, 'w sched) call" where
  "Socket_peer_addr P i = impl_socket P (io_peer_addr P) i"

definition Socket_bind :: "'w io_ops \<Rightarrow> nat \<Rightarrow> nat \<Rightarrow> 'w sched \<Rightarrow> (unit LinuxResult, 'w sched) call" where
  "Socket_bind P i addr = impl_socket P (\<lambda>k i. io_bind P k i addr) i"

definition Socket_connect :: "'w io_ops \<Rightarrow> nat \<Rightarrow> nat \<Rightarrow> 'w sched \<Rightarrow> (unit LinuxResult, 'w sched) call" where
  "Socket_connect P i addr = impl_socket P (\<lambda>k i. io_connect P k i addr) i"

definition Socket_shutdown :: "'w io_ops \<Rightarrow> nat \<Rightarrow> 'w sched \<Rightarrow> (unit LinuxResult, 'w sched) call" where
  "Socket_shutdown P i = impl_socket P (io_shutdown P) i"

subsection \<open>Pipes\<close>

text \<open>\<^verbatim>\<open>Pipe::read\<close> and \<^verbatim>\<open>Pipe::write\<close> on a pipe of the world, with the turns of theory \<open>Pipe\<close>.\<close>

definition Pipe_read :: "'w io_ops \<Rightarrow> nat \<Rightarrow> pipe_end \<Rightarrow> nat \<Rightarrow> 'w sched \<Rightarrow> (u8 list LinuxResult, 'w sched) call" where
  "Pipe_read P i p n st =
     (if \<not> readable p then Done (Inl EPERM) st
      else if n = 0 then Done (Inr []) st
      else map_call Inr id (poll_loop
        (\<lambda>_ w. map_option (apsnd (\<lambda>s. io_put_pipe P i s w)) (pipe_read_turn (io_pipe P i w) n)) () (fst st) (snd st)))"

definition Pipe_write :: "'w io_ops \<Rightarrow> nat \<Rightarrow> pipe_end \<Rightarrow> u8 list \<Rightarrow> 'w sched \<Rightarrow> (usize LinuxResult, 'w sched) call" where
  "Pipe_write P i p buf st =
     (if \<not> writable p then Done (Inl EPERM) st
      else if closed (io_pipe P i (snd st)) then Done (Inl EPIPE) st
      else if buf = [] then Done (Inr 0) st
      else map_call (\<lambda>n. Inr (of_nat n)) id (poll_loop
        (\<lambda>ws w. map_option (apsnd (\<lambda>s. io_put_pipe P i s w)) (pipe_write_turn (io_pipe P i w) buf ws)) 0 (fst st) (snd st)))"

subsection \<open>The trait\<close>

text \<open>The implementations of \<^verbatim>\<open>FileLike\<close>, one method after the other, and the calls through the trait.\<close>

definition File_read :: "'w io_ops \<Rightarrow> nat \<Rightarrow> nat \<Rightarrow> 'w sched \<Rightarrow> (u8 list LinuxResult, 'w sched) call" where
  "File_read P i n = ax_done P (io_file_read P i n)"

definition Directory_read :: "nat \<Rightarrow> 'w sched \<Rightarrow> (u8 list LinuxResult, 'w sched) call" where
  "Directory_read n st = Done (Inl EBADF) st"

definition Socket_read :: "'w io_ops \<Rightarrow> nat \<Rightarrow> nat \<Rightarrow> 'w sched \<Rightarrow> (u8 list LinuxResult, 'w sched) call" where
  "Socket_read P i n = Socket_recv P i n"

definition Stdin_read :: "'w io_ops \<Rightarrow> nat \<Rightarrow> 'w sched \<Rightarrow> (u8 list LinuxResult, 'w sched) call" where
  "Stdin_read P n st = map_call (map_err (io_into P)) id (read_blocked P n st)"

definition Stdout_read :: "nat \<Rightarrow> 'w sched \<Rightarrow> (u8 list LinuxResult, 'w sched) call" where
  "Stdout_read n st = Done (Inl EPERM) st"

definition FileLike_read :: "'w io_ops \<Rightarrow> file_like \<Rightarrow> nat \<Rightarrow> 'w sched \<Rightarrow> (u8 list LinuxResult, 'w sched) call" where
  "FileLike_read P f n =
     (case f of
        FL_File i \<Rightarrow> File_read P i n
      | FL_Directory i \<Rightarrow> Directory_read n
      | FL_Socket i \<Rightarrow> Socket_read P i n
      | FL_Pipe i r \<Rightarrow> Pipe_read P i \<lparr>readable = r\<rparr> n
      | FL_Stdin \<Rightarrow> Stdin_read P n
      | FL_Stdout \<Rightarrow> Stdout_read n)"

definition File_write :: "'w io_ops \<Rightarrow> nat \<Rightarrow> u8 list \<Rightarrow> 'w sched \<Rightarrow> (usize LinuxResult, 'w sched) call" where
  "File_write P i buf = ax_done P (io_file_write P i buf)"

definition Directory_write :: "u8 list \<Rightarrow> 'w sched \<Rightarrow> (usize LinuxResult, 'w sched) call" where
  "Directory_write buf st = Done (Inl EBADF) st"

definition Socket_write :: "'w io_ops \<Rightarrow> nat \<Rightarrow> u8 list \<Rightarrow> 'w sched \<Rightarrow> (usize LinuxResult, 'w sched) call" where
  "Socket_write P i buf = Socket_send P i buf"

definition Stdin_write :: "u8 list \<Rightarrow> 'w sched \<Rightarrow> (usize LinuxResult, 'w sched) call" where
  "Stdin_write buf st = Done (Inl EPERM) st"

definition Stdout_write :: "'w io_ops \<Rightarrow> u8 list \<Rightarrow> 'w sched \<Rightarrow> (usize LinuxResult, 'w sched) call" where
  "Stdout_write P buf = ax_done P (console_write_bytes P buf)"

definition FileLike_write :: "'w io_ops \<Rightarrow> file_like \<Rightarrow> u8 list \<Rightarrow> 'w sched \<Rightarrow> (usize LinuxResult, 'w sched) call" where
  "FileLike_write P f buf =
     (case f of
        FL_File i \<Rightarrow> File_write P i buf
      | FL_Directory i \<Rightarrow> Directory_write buf
      | FL_Socket i \<Rightarrow> Socket_write P i buf
      | FL_Pipe i r \<Rightarrow> Pipe_write P i \<lparr>readable = r\<rparr> buf
      | FL_Stdin \<Rightarrow> Stdin_write buf
      | FL_Stdout \<Rightarrow> Stdout_write P buf)"

definition File_poll :: "PollState LinuxResult" where
  "File_poll = Inr \<lparr>poll_readable = True, poll_writable = True\<rparr>"

definition Directory_poll :: "PollState LinuxResult" where
  "Directory_poll = Inr \<lparr>poll_readable = True, poll_writable = False\<rparr>"

definition Stdin_poll :: "PollState LinuxResult" where
  "Stdin_poll = Inr \<lparr>poll_readable = True, poll_writable = True\<rparr>"

definition Stdout_poll :: "PollState LinuxResult" where
  "Stdout_poll = Inr \<lparr>poll_readable = True, poll_writable = True\<rparr>"

definition FileLike_poll :: "'w io_ops \<Rightarrow> file_like \<Rightarrow> 'w sched \<Rightarrow> (PollState LinuxResult, 'w sched) call" where
  "FileLike_poll P f st =
     (case f of
        FL_File i \<Rightarrow> Done File_poll st
      | FL_Directory i \<Rightarrow> Done Directory_poll st
      | FL_Socket i \<Rightarrow> Socket_poll P i st
      | FL_Pipe i r \<Rightarrow> Done (pipe_poll \<lparr>readable = r\<rparr> (io_pipe P i (snd st))) st
      | FL_Stdin \<Rightarrow> Done Stdin_poll st
      | FL_Stdout \<Rightarrow> Done Stdout_poll st)"

section \<open>The calls\<close>

text \<open>The \<^verbatim>\<open>?\<close> operator on a call that may wait.\<close>

fun try_call :: "('a LinuxResult, 's) call \<Rightarrow> ('a \<Rightarrow> 's \<Rightarrow> ('b LinuxResult, 's) call) \<Rightarrow> ('b LinuxResult, 's) call" where
  "try_call Panic k = Panic"
| "try_call (Pending s) k = Pending s"
| "try_call (Done (Inl e) s) k = Done (Inl e) s"
| "try_call (Done (Inr x) s) k = k x s"

text \<open>A check of a user pointer as such a call.\<close>

definition checked :: "('w \<Rightarrow> ('a LinuxResult \<times> 'w) option) \<Rightarrow> 'w sched \<Rightarrow> ('a LinuxResult, 'w sched) call" where
  "checked f st = (case f (snd st) of None \<Rightarrow> Panic | Some (r, w) \<Rightarrow> Done r (fst st, w))"

definition sys_read ::
  "'w io_ops \<Rightarrow> 't fd_ops \<Rightarrow> 't \<Rightarrow> i32 \<Rightarrow> usize \<Rightarrow> usize \<Rightarrow> 'w sched \<Rightarrow> (isize LinuxResult, 'w sched) call" where
  "sys_read P ops t fd buf len st =
     try_call (checked (io_mut_slice P buf len) st) (\<lambda>_ st.
     try_call (Done (get_file_like ops t fd) st) (\<lambda>f st.
     try_call (FileLike_read P f (unat len) st) (\<lambda>bs st.
       Done (Inr (of_nat (length bs))) (apsnd (io_store P buf bs) st))))"

definition sys_write ::
  "'w io_ops \<Rightarrow> 't fd_ops \<Rightarrow> 't \<Rightarrow> i32 \<Rightarrow> usize \<Rightarrow> usize \<Rightarrow> 'w sched \<Rightarrow> (isize LinuxResult, 'w sched) call" where
  "sys_write P ops t fd buf len st =
     try_call (checked (io_slice P buf len) st) (\<lambda>bs st.
     try_call (Done (get_file_like ops t fd) st) (\<lambda>f st.
       FileLike_write P f bs st))"

fun readv_loop ::
  "'w io_ops \<Rightarrow> 't fd_ops \<Rightarrow> 't \<Rightarrow> i32 \<Rightarrow> (usize \<times> usize) list \<Rightarrow> isize \<Rightarrow> 'w sched \<Rightarrow> (isize LinuxResult, 'w sched) call" where
  "readv_loop P ops t fd [] ret st = Done (Inr ret) st"
| "readv_loop P ops t fd ((base, len) # iovs) ret st =
     (if len = 0 then readv_loop P ops t fd iovs ret st
      else
        try_call (checked (io_mut_slice P base len) st) (\<lambda>_ st.
        try_call (Done (get_file_like ops t fd) st) (\<lambda>f st.
        try_call (FileLike_read P f (unat len) st) (\<lambda>bs st.
          let st = apsnd (io_store P base bs) st; ret = ret + of_nat (length bs)
          in if length bs < unat len then Done (Inr ret) st
             else readv_loop P ops t fd iovs ret st))))"

definition sys_readv ::
  "'w io_ops \<Rightarrow> 't fd_ops \<Rightarrow> 't \<Rightarrow> i32 \<Rightarrow> usize \<Rightarrow> usize \<Rightarrow> 'w sched \<Rightarrow> (isize LinuxResult, 'w sched) call" where
  "sys_readv P ops t fd iov iocnt st =
     (if 1024 < iocnt then Done (Inl EINVAL) st
      else try_call (checked (io_iovs P iov iocnt) st) (\<lambda>iovs st. readv_loop P ops t fd iovs 0 st))"

fun writev_loop ::
  "'w io_ops \<Rightarrow> 't fd_ops \<Rightarrow> 't \<Rightarrow> i32 \<Rightarrow> (usize \<times> usize) list \<Rightarrow> isize \<Rightarrow> 'w sched \<Rightarrow> (isize LinuxResult, 'w sched) call" where
  "writev_loop P ops t fd [] ret st = Done (Inr ret) st"
| "writev_loop P ops t fd ((base, len) # iovs) ret st =
     (if len = 0 then writev_loop P ops t fd iovs ret st
      else
        try_call (checked (io_slice P base len) st) (\<lambda>buf st.
        try_call (Done (get_file_like ops t fd) st) (\<lambda>f st.
        try_call (FileLike_write P f buf st) (\<lambda>written st.
          if written < of_nat (length buf) then Done (Inr (ret + written)) st
          else writev_loop P ops t fd iovs (ret + written) st))))"

definition sys_writev ::
  "'w io_ops \<Rightarrow> 't fd_ops \<Rightarrow> 't \<Rightarrow> i32 \<Rightarrow> usize \<Rightarrow> usize \<Rightarrow> 'w sched \<Rightarrow> (isize LinuxResult, 'w sched) call" where
  "sys_writev P ops t fd iov iocnt st =
     (if 1024 < iocnt then Done (Inl EINVAL) st
      else try_call (checked (io_iovs P iov iocnt) st) (\<lambda>iovs st. writev_loop P ops t fd iovs 0 st))"

text \<open>
  Closing a descriptor of the only process that has the pipe: the end is dropped with the last
  descriptor that refers to it, and with it one reference to the shared buffer.
\<close>

definition end_open :: "'t fd_ops \<Rightarrow> 't \<Rightarrow> file_like \<Rightarrow> bool" where
  "end_open ops t f = list_ex (\<lambda>id. fo_get ops t id = Some f) (fo_ids ops t)"

definition drop_file_like :: "'w io_ops \<Rightarrow> 't fd_ops \<Rightarrow> 't \<Rightarrow> file_like \<Rightarrow> 'w \<Rightarrow> 'w" where
  "drop_file_like P ops t f w =
     (case f of
        FL_Pipe i r \<Rightarrow>
          if end_open ops t f then w
          else io_put_pipe P i ((io_pipe P i w)\<lparr>pb_count := pb_count (io_pipe P i w) - 1\<rparr>) w
      | _ \<Rightarrow> w)"

definition close_and_drop :: "'w io_ops \<Rightarrow> 't fd_ops \<Rightarrow> c_int \<Rightarrow> 't \<times> 'w \<Rightarrow> isize LinuxResult \<times> 't \<times> 'w" where
  "close_and_drop P ops fd tw =
     (case sys_close ops fd (fst tw) of
        (Inl e, t') \<Rightarrow> (Inl e, t', snd tw)
      | (Inr r, t') \<Rightarrow>
          (Inr r, t', (case get_file_like ops (fst tw) fd of
                         Inl _ \<Rightarrow> snd tw
                       | Inr f \<Rightarrow> drop_file_like P ops t' f (snd tw))))"

definition sys_lseek ::
  "'w io_ops \<Rightarrow> 't fd_ops \<Rightarrow> 't \<Rightarrow> c_int \<Rightarrow> u64 \<Rightarrow> c_int \<Rightarrow> 'w sched \<Rightarrow> (isize LinuxResult, 'w sched) call" where
  "sys_lseek P ops t fd offset whence st =
     (case (if whence = 0 then Some (SeekStart offset)
            else if whence = 1 then Some (SeekCurrent offset)
            else if whence = 2 then Some (SeekEnd offset)
            else None) of
        None \<Rightarrow> Done (Inl EINVAL) st
      | Some pos \<Rightarrow> try_call (Done (File_from_fd ops t fd) st) (\<lambda>f st. ax_done P (io_file_seek P f pos) st))"

section \<open>The console\<close>

text \<open>A read of the console fills at most the buffer and hands out no carriage return.\<close>

lemma StdinRaw_read_bytes:
  assumes "\<And>n w. length (fst (io_con_read P n w)) \<le> n" "length acc \<le> n" "0x0D \<notin> set acc"
  shows "length (fst (StdinRaw_read P n acc w)) \<le> n \<and> 0x0D \<notin> set (fst (StdinRaw_read P n acc w))"
  using assms
proof (induction P n acc w rule: StdinRaw_read.induct)
  case (1 P n acc w)
  obtain bs w' where r: "console_read_bytes P (n - length acc) w = (bs, w')" by fastforce
  have "length bs \<le> n - length acc" "0x0D \<notin> set bs"
    using r "1.prems"(1) [of "n - length acc" w] by (auto simp: console_read_bytes_def cr_to_nl_def split: prod.splits if_splits)
  then show ?case
    using 1 r by (subst (1 2) StdinRaw_read.simps) (auto simp: Let_def)
qed

section \<open>Gathering writes\<close>

text \<open>
  An object that takes bytes in sequence and does not fail: writing two pieces is writing the
  first and, if all of it was taken, the second.
\<close>

locale sequential_sink =
  fixes P :: "'w io_ops" and f :: file_like
  assumes sink_takes: "length bs < 2 ^ 63 \<Longrightarrow> \<exists>n st'. FileLike_write P f bs st = Done (Inr n) st' \<and> unat n \<le> length bs"
    and sink_empty: "FileLike_write P f [] st = Done (Inr 0) st"
    and sink_full: "length (xs @ ys) < 2 ^ 63 \<Longrightarrow> FileLike_write P f xs st = Done (Inr n) st1 \<Longrightarrow> unat n = length xs \<Longrightarrow>
      FileLike_write P f ys st1 = Done (Inr m) st2 \<Longrightarrow> FileLike_write P f (xs @ ys) st = Done (Inr (n + m)) st2"
    and sink_short: "length (xs @ ys) < 2 ^ 63 \<Longrightarrow> FileLike_write P f xs st = Done (Inr n) st1 \<Longrightarrow> unat n < length xs \<Longrightarrow>
      FileLike_write P f (xs @ ys) st = Done (Inr n) st1"
begin

lemma writev_loop_eq:
  assumes fd: "get_file_like ops t fd = Inr f"
    and data: "\<And>base len w. (base, len) \<in> set iovs \<Longrightarrow>
      io_slice P base len w = Some (Inr (data (base, len)), w) \<and> length (data (base, len)) = unat len"
    and "length (concat (map data iovs)) < 2 ^ 63"
    and "FileLike_write P f (concat (map data iovs)) st = Done (Inr n) st'"
  shows "writev_loop P ops t fd iovs ret st = Done (Inr (ret + n)) st'"
  using assms(2-)
proof (induction iovs arbitrary: ret st n)
  case Nil
  then show ?case using sink_empty by simp
next
  case (Cons iov iovs)
  obtain base len where iov: "iov = (base, len)" by (cases iov)
  let ?bs = "data (base, len)" and ?rest = "concat (map data iovs)"
  have "io_slice P base len (snd st) = Some (Inr ?bs, snd st)" and bs: "length ?bs = unat len"
    using Cons.prems(1) [of base len "snd st"] iov by simp_all
  then have slice: "checked (io_slice P base len) st = Done (Inr ?bs) st" by (simp add: checked_def)
  have small: "length ?rest < 2 ^ 63" "length ?bs < 2 ^ 63" "length (?bs @ ?rest) < 2 ^ 63"
    using Cons.prems(2) iov by simp_all
  have whole: "FileLike_write P f (?bs @ ?rest) st = Done (Inr n) st'" using Cons.prems(3) iov by simp
  note IH = Cons.IH [OF Cons.prems(1) small(1)]
  show ?case
  proof (cases "len = 0")
    case True
    then have "?bs = []" using bs by simp
    with whole IH [of st n ret] True iov show ?thesis by simp
  next
    case False
    obtain m st1 where m: "FileLike_write P f ?bs st = Done (Inr m) st1" "unat m \<le> length ?bs"
      using sink_takes [OF small(2)] by blast
    have "unat (of_nat (length ?bs) :: usize) = length ?bs"
      using small(2) by (simp add: unsigned_of_nat take_bit_nat_eq_self)
    then have less: "m < of_nat (length ?bs) \<longleftrightarrow> unat m < length ?bs" by (simp add: word_less_nat_alt)
    show ?thesis
    proof (cases "unat m < length ?bs")
      case True
      with sink_short [OF small(3) m(1)] whole have "n = m" "st' = st1" by simp_all
      with True less m(1) slice fd False iov show ?thesis by simp
    next
      case full: False
      obtain k st2 where k: "FileLike_write P f ?rest st1 = Done (Inr k) st2"
        using sink_takes [OF small(1)] by blast
      with sink_full [OF small(3) m(1)] full m(2) whole have "n = m + k" "st' = st2" by simp_all
      with IH [of st1 k "ret + m"] k full less m(1) slice fd False iov show ?thesis
        by (simp add: add.assoc)
    qed
  qed
qed

end

text \<open>The console takes all bytes; a device that appends what it is given makes standard output such an object.\<close>

lemma stdout_write:
  "FileLike_write P FL_Stdout bs st = Done (Inr (of_nat (length bs))) (fst st, io_con_write P bs (snd st))"
  by (simp add: FileLike_write_def Stdout_write_def console_write_bytes_def ax_done_def)

lemma stdout_sink:
  assumes "\<And>xs ys w. io_con_write P (xs @ ys) w = io_con_write P ys (io_con_write P xs w)"
    and "\<And>w. io_con_write P [] w = w"
  shows "sequential_sink P FL_Stdout"
  by unfold_locales (auto simp: stdout_write assms unsigned_of_nat take_bit_nat_eq_self)

text \<open>A machine whose world is one pipe and the console's output; the bytes of user memory are their addresses.\<close>

type_synonym small_world = "pipe_buf \<times> u8 list"

definition small_ops :: "small_world io_ops" where
  "small_ops = \<lparr>io_into = (\<lambda>_. EIO), io_file_read = (\<lambda>_ _ w. (Inr [], w)), io_file_write = (\<lambda>_ _ w. (Inr 0, w)),
     io_file_seek = (\<lambda>_ _ w. (Inr 0, w)), io_sock_kind = (\<lambda>_. Udp), io_udp_recv_from = (\<lambda>_ _ w. (Inl InvalidInput, w)),
     io_tcp_recv = (\<lambda>_ _ w. (Inl InvalidInput, w)), io_udp_send_to = (\<lambda>_ _ _ w. (Inl InvalidInput, w)),
     io_tcp_listen = (\<lambda>_ w. (Inl InvalidInput, w)), io_tcp_accept = (\<lambda>_ w. (Inl InvalidInput, w)),
     io_send = (\<lambda>_ _ _ w. (Inl InvalidInput, w)), io_poll = (\<lambda>_ _ w. (Inl InvalidInput, w)),
     io_local_addr = (\<lambda>_ _ w. (Inl InvalidInput, w)), io_peer_addr = (\<lambda>_ _ w. (Inl InvalidInput, w)),
     io_bind = (\<lambda>_ _ _ w. (Inl InvalidInput, w)), io_connect = (\<lambda>_ _ _ w. (Inl InvalidInput, w)),
     io_shutdown = (\<lambda>_ _ w. (Inl InvalidInput, w)),
     io_pipe = (\<lambda>_ w. fst w), io_put_pipe = (\<lambda>_ s w. (s, snd w)),
     io_con_read = (\<lambda>_ w. ([], w)), io_con_write = (\<lambda>bs w. (fst w, snd w @ bs)), io_buf_read = (\<lambda>_ w. (Inr [], w)),
     io_slice = (\<lambda>p n w. Some (Inr (map (\<lambda>i. of_nat (unat p + i)) [0..<unat n]), w)),
     io_mut_slice = (\<lambda>_ _ w. Some (Inr (), w)),
     io_iovs = (\<lambda>p n w. Some (Inr [(16, 2), (18, 3)], w)), io_store = (\<lambda>_ bs w. (fst w, bs))\<rparr>"

interpretation console: sequential_sink small_ops FL_Stdout
  by (rule stdout_sink) (simp_all add: small_ops_def)

text \<open>
  C37. Writing several buffers is writing them as one. For an object that takes bytes in sequence,
  such as the console, \<^verbatim>\<open>sys_writev\<close> of readable buffers gives the same result and the same effect as
  one \<^verbatim>\<open>sys_write\<close> of the concatenated bytes, empty buffers and short writes included.
\<close>

theorem sys_writev_gathers:
  assumes "sequential_sink P f" "get_file_like ops t fd = Inr f"
    and "iocnt \<le> 1024" "io_iovs P iov iocnt (snd st) = Some (Inr iovs, snd st)"
    and "\<And>base n w. (base, n) \<in> set iovs \<Longrightarrow>
      io_slice P base n w = Some (Inr (data (base, n)), w) \<and> length (data (base, n)) = unat n"
    and "length (concat (map data iovs)) < 2 ^ 63"
    and "io_slice P buf len (snd st) = Some (Inr (concat (map data iovs)), snd st)"
  shows "sys_writev P ops t fd iov iocnt st = sys_write P ops t fd buf len st"
proof -
  obtain n st' where whole: "FileLike_write P f (concat (map data iovs)) st = Done (Inr n) st'"
    using sequential_sink.sink_takes [OF assms(1,6)] by blast
  have "writev_loop P ops t fd iovs 0 st = Done (Inr (0 + n)) st'"
    by (rule sequential_sink.writev_loop_eq [OF assms(1,2,5,6) whole])
  then show ?thesis
    using assms(2-4,7) whole by (simp add: sys_writev_def sys_write_def checked_def)
qed

lemma get_stdout: "get_file_like slot_ops [1 \<mapsto> FL_Stdout] 1 = Inr FL_Stdout"
  by (simp add: get_file_like_def slot_ops_def c_int_as_usize_def)

theorem sys_writev_gathers_witness:
  "let t = [1 \<mapsto> FL_Stdout]; st = ([], (snd (snd Pipe_new), []))
   in sys_writev small_ops slot_ops t 1 0x100 2 st = sys_write small_ops slot_ops t 1 16 5 st
    \<and> sys_write small_ops slot_ops t 1 16 5 st = Done (Inr 5) ([], (snd (snd Pipe_new), [16, 17, 18, 19, 20]))"
proof -
  let ?t = "[1 \<mapsto> FL_Stdout] :: usize \<rightharpoonup> file_like" and ?st = "([], (snd (snd Pipe_new), []))"
  let ?data = "\<lambda>(p :: usize, n :: usize). map (\<lambda>i. of_nat (unat p + i) :: u8) [0..<unat n]"
  have range: "[0..<2] = [0, 1 :: nat]" "[0..<3] = [0, 1, 2 :: nat]" "[0..<5] = [0, 1, 2, 3, 4 :: nat]"
    by (simp_all add: upt_rec)
  have all: "concat (map ?data [(16, 2), (18, 3)]) = [16, 17, 18, 19, 20]" by (simp add: range)
  have "sys_writev small_ops slot_ops ?t 1 0x100 2 ?st = sys_write small_ops slot_ops ?t 1 16 5 ?st"
  proof (rule sys_writev_gathers [OF console.sequential_sink_axioms get_stdout, where data = ?data and iovs = "[(16, 2), (18, 3)]"])
    show "io_slice small_ops 16 5 (snd ?st) = Some (Inr (concat (map ?data [(16, 2), (18, 3)])), snd ?st)"
      unfolding all by (simp add: small_ops_def range)
    show "length (concat (map ?data [(16, 2), (18, 3)])) < 2 ^ 63" unfolding all by simp
  qed (simp_all add: small_ops_def)
  moreover have "sys_write small_ops slot_ops ?t 1 16 5 ?st = Done (Inr 5) ([], (snd (snd Pipe_new), [16, 17, 18, 19, 20]))"
    by (simp add: sys_write_def get_stdout stdout_write checked_def) (simp add: small_ops_def range)
  ultimately show ?thesis by (simp add: Let_def)
qed

section \<open>Pipes through descriptors\<close>

text \<open>
  What the world must be like for its pipes: a buffer that was put is found again, and storing to user
  memory does not change a pipe.
\<close>

locale pipe_world =
  fixes P :: "'w io_ops"
  assumes get_put: "io_pipe P i (io_put_pipe P i s w) = s"
    and get_store: "io_pipe P i (io_store P a bs w) = io_pipe P i w"
begin

text \<open>On one pipe, the calls of the world are the calls of theory \<open>Pipe\<close>.\<close>

abbreviation see_pipe :: "nat \<Rightarrow> ('r, 'w sched) call \<Rightarrow> ('r, pipe_buf) call" where
  "see_pipe i \<equiv> map_call id (\<lambda>st. io_pipe P i (snd st))"

lemma poll_read_refines:
  "\<exists>es'. length es' = length es \<and> see_pipe i (map_call Inr id (poll_loop
      (\<lambda>_ w. map_option (apsnd (\<lambda>s. io_put_pipe P i s w)) (pipe_read_turn (io_pipe P i w) n)) () es w))
    = pipe_read_loop n es' (io_pipe P i w)"
proof (induction es arbitrary: w)
  case Nil
  show ?case
    by (simp add: poll_loop.simps get_put split: option.split turn.split prod.split)
next
  case (Cons ev es)
  obtain es' where "length es' = length es" and
    IH: "see_pipe i (map_call Inr id (poll_loop
      (\<lambda>_ w. map_option (apsnd (\<lambda>s. io_put_pipe P i s w)) (pipe_read_turn (io_pipe P i w) n)) () es
        (ev (io_put_pipe P i (snd (the (pipe_read_turn (io_pipe P i w) n))) w))))
    = pipe_read_loop n es' (io_pipe P i (ev (io_put_pipe P i (snd (the (pipe_read_turn (io_pipe P i w) n))) w)))"
    using Cons by blast
  then show ?case
    by (intro exI [of _ "(\<lambda>_. io_pipe P i (ev (io_put_pipe P i (snd (the (pipe_read_turn (io_pipe P i w) n))) w))) # es'"])
      (auto simp: poll_loop.simps [where es = "ev # es"] get_put id_def split: option.split turn.split)
qed

lemma Pipe_read_refines:
  "\<exists>es'. see_pipe i (Pipe_read P i p n st) = pipe_read p n es' (io_pipe P i (snd st))"
  using poll_read_refines [of "fst st" i n "snd st"]
  by (cases st) (auto simp: Pipe_read_def pipe_read_def)

lemma Pipe_write_now:
  assumes "pb_inv s" "\<not> closed s" "bs \<noteq> []" "length (pb_bytes s) + length bs < RING_BUFFER_SIZE" "io_pipe P i w = s"
  obtains s' where "Pipe_write P i \<lparr>readable = False\<rparr> bs (es, w) = Done (Inr (of_nat (length bs))) (es, io_put_pipe P i s' w)"
    "pb_inv s'" "pb_count s' = pb_count s" "pb_bytes s' = pb_bytes s @ bs"
proof -
  obtain rb where "pipe_write_turn s bs 0 = Some (Leave (length bs), s\<lparr>pb_ring := rb\<rparr>)" "rb_inv rb"
    "rb_contents rb = pb_bytes s @ bs"
  proof -
    have room: "length bs < RING_BUFFER_SIZE - length (pb_bytes s)" "length (pb_bytes s) < RING_BUFFER_SIZE"
      using assms(4) by linarith+
    obtain rb where "pipe_write_turn s bs 0 = Some (if length bs - 0 < RING_BUFFER_SIZE - length (pb_bytes s)
        then Leave (length bs) else Again (0 + (RING_BUFFER_SIZE - length (pb_bytes s))), s\<lparr>pb_ring := rb\<rparr>)"
      "rb_inv rb" "rb_contents rb = pb_bytes s @ take (RING_BUFFER_SIZE - length (pb_bytes s)) (drop 0 bs)"
      using pipe_write_turn_room [OF assms(1) room(2), of 0 bs] by blast
    then show ?thesis using room(1) by (intro that) simp_all
  qed
  with assms show ?thesis
    by (intro that [of "s\<lparr>pb_ring := rb\<rparr>"]) (simp_all add: Pipe_write_def writable_def poll_loop.simps)
qed

lemma Pipe_read_now:
  assumes "pb_inv s" "pb_bytes s \<noteq> []" "0 < n" "io_pipe P i w = s"
  obtains s' where "Pipe_read P i \<lparr>readable = True\<rparr> n (es, w) = Done (Inr (take n (pb_bytes s))) (es, io_put_pipe P i s' w)"
    "pb_inv s'" "pb_count s' = pb_count s" "pb_bytes s' = drop n (pb_bytes s)"
proof -
  obtain rb where "pipe_read_turn s n = Some (Leave (take n (pb_bytes s)), s\<lparr>pb_ring := rb\<rparr>)" "rb_inv rb"
    "rb_contents rb = drop n (pb_bytes s)"
    using pipe_read_turn_some [OF assms(1-3)] by blast
  with assms show ?thesis
    by (intro that [of "s\<lparr>pb_ring := rb\<rparr>"]) (simp_all add: Pipe_read_def poll_loop.simps)
qed

lemma Pipe_read_eof:
  assumes "pb_inv s" "pb_bytes s = []" "closed s" "0 < n" "io_pipe P i w = s"
  shows "Pipe_read P i \<lparr>readable = True\<rparr> n (es, w) = Done (Inr []) (es, io_put_pipe P i s w)"
  using pipe_read_turn_empty [OF assms(1,2), of n] assms by (simp add: Pipe_read_def poll_loop.simps)

end

interpretation small_pipes: pipe_world small_ops
  by unfold_locales (simp_all add: small_ops_def)

context fd_table
begin

lemma end_open_iff:
  assumes "ok t"
  shows "end_open ops t f \<longleftrightarrow> (\<exists>fd. get_file_like ops t fd = Inr f)"
proof
  assume "end_open ops t f"
  then obtain id where id: "fo_get ops t id = Some f" by (auto simp: end_open_def list_ex_iff)
  then have "c_int_as_usize (usize_as_c_int id) = id"
    using get_bound [OF assms] c_int_as_usize_small by (simp add: AX_FILE_LIMIT_def)
  with id show "\<exists>fd. get_file_like ops t fd = Inr f"
    by (intro exI [of _ "usize_as_c_int id"]) (simp add: get_file_like_def)
next
  assume "\<exists>fd. get_file_like ops t fd = Inr f"
  then obtain id where "fo_get ops t id = Some f" by (auto simp: get_file_like_def)
  then show "end_open ops t f" using ids [OF assms] by (auto simp: end_open_def list_ex_iff domI)
qed

lemma close_last_end:
  assumes "ok t" "get_file_like ops t fd = Inr (FL_Pipe i r)"
    and "\<And>fd'. get_file_like ops t fd' = Inr (FL_Pipe i r) \<Longrightarrow> fd' = fd"
  obtains t' where "close_and_drop P ops fd (t, w)
      = (Inr 0, t', io_put_pipe P i ((io_pipe P i w)\<lparr>pb_count := pb_count (io_pipe P i w) - 1\<rparr>) w)"
    "get_file_like ops t' = (get_file_like ops t)(fd := Inl EBADF)"
proof -
  obtain t' where t': "close_file_like ops t fd = (Inr (), t')" "ok t'"
    "get_file_like ops t' = (get_file_like ops t)(fd := Inl EBADF)"
    using close_file_like_some [OF assms(1,2)] by blast
  have "\<not> end_open ops t' (FL_Pipe i r)"
    unfolding end_open_iff [OF t'(2)] using assms(3) by (auto simp: t'(3))
  with t' assms(2) show ?thesis
    by (intro that [of t']) (simp_all add: close_and_drop_def sys_close_def drop_file_like_def)
qed

end

text \<open>
  C6. A session over a pipe. After a successful \<^verbatim>\<open>pipe2\<close>, writing fewer bytes than the ring has room
  for to the second descriptor returns their number without waiting. When the writer then closes its
  descriptor, reading from the first one stores these bytes, in order and as many as were asked for,
  at the reader's buffer, and once all are read the next read returns 0, the end of the file, and does
  not wait. Reading the write end and writing the read end fail with \<open>EPERM\<close>.
\<close>

theorem pipe_session:
  assumes "fd_table ops ok" "ok t" "pipe_world P"
    and fresh: "\<And>fd. get_file_like ops t fd \<noteq> Inr (FL_Pipe i False)"
    and pipe2: "sys_pipe2 ops (Inr ()) i t = Done (Inr 0, Some (rfd, wfd)) t'"
    and new: "io_pipe P i w = snd (snd Pipe_new)"
    and src: "io_slice P src len w = Some (Inr bs, w)"
    and size: "0 < length bs" "length bs < RING_BUFFER_SIZE" "0 < n"
    and dst: "\<And>w. io_mut_slice P dst n w = Some (Inr (), w)"
  shows "\<exists>w1 t2 w2 w3 w4. sys_write P ops t' wfd src len (es, w) = Done (Inr (of_nat (length bs))) (es, w1)
    \<and> close_and_drop P ops wfd (t', w1) = (Inr 0, t2, w2)
    \<and> sys_read P ops t2 rfd dst n (es, w2)
        = Done (Inr (of_nat (min (length bs) (unat n)))) (es, io_store P dst (take (unat n) bs) w3)
    \<and> (length bs \<le> unat n \<longrightarrow>
        sys_read P ops t2 rfd dst n (es, io_store P dst (take (unat n) bs) w3) = Done (Inr 0) (es, io_store P dst [] w4))
    \<and> sys_write P ops t' rfd src len (es, w) = Done (Inl EPERM) (es, w)
    \<and> sys_read P ops t' wfd dst n (es, w) = Done (Inl EPERM) (es, w)"
proof -
  note lens = pipe_world.get_put [OF assms(3)] pipe_world.get_store [OF assms(3)]
  have tab: "ok t'" "rfd \<noteq> wfd"
    "get_file_like ops t' = (get_file_like ops t)(rfd := Inr (FL_Pipe i True), wfd := Inr (FL_Pipe i False))"
    using fd_table.sys_pipe2_cases [OF assms(1,2), of i] pipe2 by (auto split: if_splits)
  have "pb_inv (io_pipe P i w)" "\<not> closed (io_pipe P i w)" "pb_bytes (io_pipe P i w) = []"
    unfolding new by (simp_all add: Pipe_new_def closed_def)
  then obtain s1 where wr: "Pipe_write P i \<lparr>readable = False\<rparr> bs (es, w) = Done (Inr (of_nat (length bs))) (es, io_put_pipe P i s1 w)"
    and s1: "pb_inv s1" "pb_bytes s1 = bs" "pb_count s1 = 2"
    using pipe_world.Pipe_write_now [OF assms(3), of "io_pipe P i w" bs i w es] size new by (auto simp: Pipe_new_def)
  let ?w1 = "io_put_pipe P i s1 w"
  have at: "get_file_like ops t' wfd = Inr (FL_Pipe i False)" using tab by simp
  have only: "fd = wfd" if "get_file_like ops t' fd = Inr (FL_Pipe i False)" for fd
    using that fresh [of fd] by (simp add: tab split: if_splits)
  obtain t2 where "close_and_drop P ops wfd (t', ?w1)
      = (Inr 0, t2, io_put_pipe P i ((io_pipe P i ?w1)\<lparr>pb_count := pb_count (io_pipe P i ?w1) - 1\<rparr>) ?w1)"
    and t2: "get_file_like ops t2 = (get_file_like ops t')(wfd := Inl EBADF)"
    by (rule fd_table.close_last_end [OF assms(1) tab(1) at only])
  then have cl: "close_and_drop P ops wfd (t', ?w1) = (Inr 0, t2, io_put_pipe P i (s1\<lparr>pb_count := 1\<rparr>) ?w1)"
    by (simp add: lens s1(3))
  let ?w2 = "io_put_pipe P i (s1\<lparr>pb_count := 1\<rparr>) ?w1"
  have n: "0 < unat n" using size(3) by (simp add: unat_gt_0)
  obtain s2 where rd: "Pipe_read P i \<lparr>readable = True\<rparr> (unat n) (es, ?w2)
      = Done (Inr (take (unat n) bs)) (es, io_put_pipe P i s2 ?w2)"
    and s2: "pb_inv s2" "pb_bytes s2 = drop (unat n) bs" "pb_count s2 = 1"
    using pipe_world.Pipe_read_now [OF assms(3) _ _ n lens(1), of "s1\<lparr>pb_count := 1\<rparr>" i es ?w1] s1 size(1) by auto
  let ?w3 = "io_store P dst (take (unat n) bs) (io_put_pipe P i s2 ?w2)"
  have rfd: "get_file_like ops t2 rfd = Inr (FL_Pipe i True)" using t2 tab by simp
  have "sys_write P ops t' wfd src len (es, w) = Done (Inr (of_nat (length bs))) (es, ?w1)"
    using src wr tab by (simp add: sys_write_def checked_def FileLike_write_def)
  moreover have "sys_read P ops t2 rfd dst n (es, ?w2) = Done (Inr (of_nat (min (length bs) (unat n)))) (es, ?w3)"
    using dst rd rfd by (simp add: sys_read_def checked_def FileLike_read_def)
  moreover have "sys_read P ops t2 rfd dst n (es, ?w3) = Done (Inr 0) (es, io_store P dst [] (io_put_pipe P i s2 ?w3))"
    if "length bs \<le> unat n"
    using pipe_world.Pipe_read_eof [OF assms(3) s2(1) _ _ n, of i ?w3 es] that s2 dst rfd
    by (simp add: sys_read_def checked_def FileLike_read_def closed_def lens)
  moreover have "sys_write P ops t' rfd src len (es, w) = Done (Inl EPERM) (es, w)"
    using src tab by (simp add: sys_write_def checked_def FileLike_write_def Pipe_write_def writable_def)
  moreover have "sys_read P ops t' wfd dst n (es, w) = Done (Inl EPERM) (es, w)"
    using dst tab by (simp add: sys_read_def checked_def FileLike_read_def Pipe_read_def)
  ultimately show ?thesis using cl by blast
qed

theorem pipe_session_witness:
  "\<exists>r w t' st1 t2 w2 st3 st4. sys_pipe2 slot_ops (Inr ()) 3 [0 \<mapsto> FL_Stdin] = Done (Inr 0, Some (r, w)) t'
     \<and> sys_write small_ops slot_ops t' w 16 5 ([], (snd (snd Pipe_new), [])) = Done (Inr 5) ([], st1)
     \<and> close_and_drop small_ops slot_ops w (t', st1) = (Inr 0, t2, w2)
     \<and> sys_read small_ops slot_ops t2 r 0x100 8 ([], w2) = Done (Inr 5) st3 \<and> snd (snd st3) = [16, 17, 18, 19, 20]
     \<and> sys_read small_ops slot_ops t2 r 0x100 8 st3 = Done (Inr 0) st4"
proof -
  let ?w = "(snd (snd Pipe_new), []) :: small_world" and ?bs = "[16, 17, 18, 19, 20] :: u8 list"
  have "\<exists>i j. i \<noteq> j \<and> unat i < AX_FILE_LIMIT \<and> unat j < AX_FILE_LIMIT \<and>
      fo_get slot_ops [0 \<mapsto> FL_Stdin] i = None \<and> fo_get slot_ops [0 \<mapsto> FL_Stdin] j = None"
    by (rule exI [of _ 1], rule exI [of _ 2]) (simp add: slot_example(3) AX_FILE_LIMIT_def)
  then obtain r w t' where pipe2: "sys_pipe2 slot_ops (Inr ()) 3 [0 \<mapsto> FL_Stdin] = Done (Inr 0, Some (r, w)) t'"
    using slot_fds.sys_pipe2_cases [OF slot_example(1), of 3] by (simp only: if_True) blast
  have fresh: "get_file_like slot_ops [0 \<mapsto> FL_Stdin] fd \<noteq> Inr (FL_Pipe 3 False)" for fd
    by (simp add: get_file_like_def slot_example(3))
  have new: "io_pipe small_ops 3 ?w = snd (snd Pipe_new)" by (simp add: small_ops_def)
  have src: "io_slice small_ops 16 5 ?w = Some (Inr ?bs, ?w)" by (simp add: small_ops_def upt_rec)
  have size: "0 < length ?bs" "length ?bs < RING_BUFFER_SIZE" "0 < (8 :: usize)" by (simp_all add: RING_BUFFER_SIZE_def)
  have dst: "io_mut_slice small_ops 0x100 8 w = Some (Inr (), w)" for w by (simp add: small_ops_def)
  have five: "of_nat (length ?bs) = (5 :: isize)" "of_nat (min (length ?bs) (unat (8 :: usize))) = (5 :: isize)"
    "length ?bs \<le> unat (8 :: usize)" "take (unat (8 :: usize)) ?bs = ?bs"
    by simp_all
  note run = pipe_session [OF slot_fds.fd_table_axioms slot_example(1) small_pipes.pipe_world_axioms fresh
      pipe2 new src size dst, of "[]", unfolded five]
  have stored: "snd (snd ([], io_store small_ops 0x100 bs w)) = bs" for bs w by (simp add: small_ops_def)
  show ?thesis
    using run
  proof (elim exE conjE, goal_cases)
    case (1 w1 t2 w2 w3 w4)
    show ?case
      by (intro exI conjI) (rule pipe2, rule 1(1), rule 1(2), rule 1(3), rule stored, rule 1(4) [rule_format, OF five(3)])
  qed
qed

end
