(* ===== verification/Dispatch.thy ===== *)
theory Dispatch
  imports Prelude Time_Stat
begin

text \<open>
  The system call entry of \<^verbatim>\<open>src/syscall.rs\<close>: the match on the call number, the conversions of the
  argument registers to the parameter types of the \<^verbatim>\<open>sys_*\<close> functions, the encoding of their result
  in the return register, and the time accounting around them; with it the calls of
  \<^verbatim>\<open>api/src/imp/sys.rs\<close> and \<^verbatim>\<open>sys_arch_prctl\<close>.

  The bodies of the \<^verbatim>\<open>sys_*\<close> functions are a parameter here (the other theories model them), and so
  is the naming of call numbers by the \<^verbatim>\<open>syscalls\<close> crate.
\<close>

section \<open>Identity and system information\<close>

definition sys_getuid :: "isize LinuxResult" where
  "sys_getuid = Inr 0"

definition sys_geteuid :: "isize LinuxResult" where
  "sys_geteuid = Inr 1"

definition sys_getgid :: "isize LinuxResult" where
  "sys_getgid = Inr 0"

definition sys_getegid :: "isize LinuxResult" where
  "sys_getegid = Inr 1"

text \<open>
  \<^verbatim>\<open>pad_str\<close> copies without a bound check; \<open>None\<close> is a copy past the end of the array.
\<close>

definition pad_str :: "string \<Rightarrow> string option" where
  "pad_str info =
     (if length info \<le> 65 then Some (info @ replicate (65 - length info) (CHR 0x00)) else None)"

record new_utsname =
  u_sysname :: "string option"
  u_nodename :: "string option"
  u_release :: "string option"
  u_version :: "string option"
  u_machine :: "string option"
  u_domainname :: "string option"

definition UTSNAME :: new_utsname where
  "UTSNAME = \<lparr>u_sysname = pad_str ''Starry'', u_nodename = pad_str ''Starry - machine[0]'',
     u_release = pad_str ''10.0.0'', u_version = pad_str ''10.0.0'', u_machine = pad_str ''10.0.0'',
     u_domainname = pad_str ''https://github.com/oscomp/starry-next''\<rparr>"

text \<open>\<open>name\<close> is what \<^verbatim>\<open>name.get_as_mut()\<close> gives; the structure stored through it is in the result.\<close>

definition sys_uname :: "unit LinuxResult \<Rightarrow> isize LinuxResult \<times> new_utsname option" where
  "sys_uname name = (case name of Inl e \<Rightarrow> (Inl e, None) | Inr _ \<Rightarrow> (Inr 0, Some UTSNAME))"

lemma pad_str_terminated:
  assumes "length info < 65" "CHR 0x00 \<notin> set info"
  shows "\<exists>d. pad_str info = Some d \<and> length d = 65 \<and> takeWhile (\<lambda>c. c \<noteq> CHR 0x00) d = info"
proof -
  have "takeWhile (\<lambda>c. c \<noteq> CHR 0x00) (info @ replicate (65 - length info) (CHR 0x00)) = info"
    using assms by (subst takeWhile_append2) (auto simp: takeWhile_replicate)
  then show ?thesis using assms(1) by (simp add: pad_str_def)
qed

lemma uname_sysname:
  "\<exists>d. u_sysname UTSNAME = Some d \<and> length d = 65 \<and> takeWhile (\<lambda>c. c \<noteq> CHR 0x00) d = ''Starry''"
  unfolding UTSNAME_def by (simp add: pad_str_terminated)

section \<open>Thread-local storage on x86\<close>

datatype ArchPrctlCode = SetGs | SetFs | GetFs | GetGs | GetCpuid | SetCpuid

definition ArchPrctlCode_try_from :: "i32 \<Rightarrow> ArchPrctlCode option" where
  "ArchPrctlCode_try_from code =
     map_of [(0x1001, SetGs), (0x1002, SetFs), (0x1003, GetFs), (0x1004, GetGs), (0x1011, GetCpuid),
             (0x1012, SetCpuid)] code"

record segment_bases =
  sb_tls :: usize
  sb_kernel_gsbase :: usize

text \<open>
  \<open>get\<close> is what \<^verbatim>\<open>UserPtr::from(addr).get_as_mut()\<close> gives; the word stored at \<open>addr\<close> is the last
  component of the result.
\<close>

definition sys_arch_prctl ::
  "(usize \<Rightarrow> unit LinuxResult) \<Rightarrow> i32 \<Rightarrow> usize \<Rightarrow> segment_bases \<Rightarrow>
     isize LinuxResult \<times> segment_bases \<times> (usize \<times> usize) option" where
  "sys_arch_prctl get code addr b =
     (case ArchPrctlCode_try_from code of
        None \<Rightarrow> (Inl EINVAL, b, None)
      | Some GetFs \<Rightarrow>
          (case get addr of Inl e \<Rightarrow> (Inl e, b, None) | Inr _ \<Rightarrow> (Inr 0, b, Some (addr, sb_tls b)))
      | Some SetFs \<Rightarrow> (Inr 0, b\<lparr>sb_tls := addr\<rparr>, None)
      | Some GetGs \<Rightarrow>
          (case get addr of Inl e \<Rightarrow> (Inl e, b, None) | Inr _ \<Rightarrow> (Inr 0, b, Some (addr, sb_kernel_gsbase b)))
      | Some SetGs \<Rightarrow> (Inr 0, b\<lparr>sb_kernel_gsbase := addr\<rparr>, None)
      | Some GetCpuid \<Rightarrow> (Inr 0, b, None)
      | Some SetCpuid \<Rightarrow> (Inl ENODEV, b, None))"

lemma arch_prctl_set_get:
  assumes "get p = Inr ()"
  shows "sys_arch_prctl get 0x1003 p (fst (snd (sys_arch_prctl get 0x1002 v b))) = (Inr 0, b\<lparr>sb_tls := v\<rparr>, Some (p, v))"
    and "sys_arch_prctl get 0x1004 p (fst (snd (sys_arch_prctl get 0x1001 v b)))
         = (Inr 0, b\<lparr>sb_kernel_gsbase := v\<rparr>, Some (p, v))"
  using assms by (simp_all add: sys_arch_prctl_def ArchPrctlCode_try_from_def)

section \<open>The match on the call number\<close>

datatype arch = X86_64 | Riscv64 | Aarch64 | Loongarch64

text \<open>The \<^verbatim>\<open>#[cfg]\<close> attribute of an arm or a function.\<close>

datatype cfg = Always | X86Only | NotX86

fun enabled :: "arch \<Rightarrow> cfg \<Rightarrow> bool" where
  "enabled a Always = True"
| "enabled a X86Only = (a = X86_64)"
| "enabled a NotX86 = (a \<noteq> X86_64)"

text \<open>
  How an arm writes an argument: \<^verbatim>\<open>tf.argN() as _\<close>, \<^verbatim>\<open>tf.argN().into()\<close>, \<^verbatim>\<open>tf.argN()\<close>, the
  literal 0, or the trap frame itself.
\<close>

datatype arg_expr = As nat | Into nat | Plain nat | Zero | Frame

definition syscall_arms :: "(cfg \<times> string \<times> string \<times> arg_expr list) list" where
  "syscall_arms = [
    (Always, ''ioctl'', ''sys_ioctl'', [As 0, As 1, Into 2]),
    (Always, ''chdir'', ''sys_chdir'', [Into 0]),
    (Always, ''mkdirat'', ''sys_mkdirat'', [As 0, Into 1, As 2]),
    (Always, ''getdents64'', ''sys_getdents64'', [As 0, Into 1, As 2]),
    (Always, ''linkat'', ''sys_linkat'', [As 0, Into 1, As 2, Into 3, As 4]),
    (X86Only, ''link'', ''sys_link'', [Into 0, Into 1]),
    (Always, ''unlinkat'', ''sys_unlinkat'', [As 0, Into 1, As 2]),
    (X86Only, ''unlink'', ''sys_unlink'', [Into 0]),
    (Always, ''getcwd'', ''sys_getcwd'', [Into 0, As 1]),
    (Always, ''openat'', ''sys_openat'', [As 0, Into 1, As 2, As 3]),
    (X86Only, ''open'', ''sys_open'', [Into 0, As 1, As 2]),
    (Always, ''close'', ''sys_close'', [As 0]),
    (Always, ''dup'', ''sys_dup'', [As 0]),
    (X86Only, ''dup2'', ''sys_dup2'', [As 0, As 1]),
    (Always, ''dup3'', ''sys_dup2'', [As 0, As 1]),
    (Always, ''fcntl'', ''sys_fcntl'', [As 0, As 1, As 2]),
    (Always, ''read'', ''sys_read'', [As 0, Into 1, As 2]),
    (Always, ''readv'', ''sys_readv'', [As 0, Into 1, As 2]),
    (Always, ''write'', ''sys_write'', [As 0, Into 1, As 2]),
    (Always, ''writev'', ''sys_writev'', [As 0, Into 1, As 2]),
    (Always, ''lseek'', ''sys_lseek'', [As 0, As 1, As 2]),
    (Always, ''mount'', ''sys_mount'', [Into 0, Into 1, Into 2, As 3, Into 4]),
    (Always, ''umount2'', ''sys_umount2'', [Into 0, As 1]),
    (Always, ''pipe2'', ''sys_pipe2'', [Into 0, As 1]),
    (X86Only, ''pipe'', ''sys_pipe2'', [Into 0, Zero]),
    (X86Only, ''stat'', ''sys_stat'', [Into 0, Into 1]),
    (Always, ''fstat'', ''sys_fstat'', [As 0, Into 1]),
    (X86Only, ''lstat'', ''sys_lstat'', [Into 0, Into 1]),
    (X86Only, ''newfstatat'', ''sys_fstatat'', [As 0, Into 1, Into 2, As 3]),
    (NotX86, ''fstatat'', ''sys_fstatat'', [As 0, Into 1, Into 2, As 3]),
    (Always, ''statx'', ''sys_statx'', [As 0, Into 1, As 2, As 3, Into 4]),
    (Always, ''brk'', ''sys_brk'', [As 0]),
    (Always, ''mmap'', ''sys_mmap'', [Plain 0, As 1, As 2, As 3, As 4, As 5]),
    (Always, ''munmap'', ''sys_munmap'', [Plain 0, As 1]),
    (Always, ''mprotect'', ''sys_mprotect'', [Plain 0, As 1, As 2]),
    (Always, ''getpid'', ''sys_getpid'', []),
    (Always, ''getppid'', ''sys_getppid'', []),
    (Always, ''gettid'', ''sys_gettid'', []),
    (Always, ''sched_yield'', ''sys_sched_yield'', []),
    (Always, ''nanosleep'', ''sys_nanosleep'', [Into 0, Into 1]),
    (Always, ''execve'', ''sys_execve'', [Frame, Into 0, Into 1, Into 2]),
    (Always, ''set_tid_address'', ''sys_set_tid_address'', [Plain 0]),
    (X86Only, ''arch_prctl'', ''sys_arch_prctl'', [Frame, As 0, As 1]),
    (Always, ''clone'', ''sys_clone'', [Frame, As 0, As 1, Plain 2, Plain 3, Plain 4]),
    (X86Only, ''fork'', ''sys_fork'', [Frame]),
    (Always, ''exit'', ''sys_exit'', [As 0]),
    (Always, ''exit_group'', ''sys_exit_group'', [As 0]),
    (Always, ''wait4'', ''sys_waitpid'', [As 0, Into 1, As 2]),
    (Always, ''rt_sigprocmask'', ''sys_rt_sigprocmask'', [As 0, Into 1, Into 2, As 3]),
    (Always, ''rt_sigaction'', ''sys_rt_sigaction'', [As 0, Into 1, Into 2, As 3]),
    (Always, ''rt_sigpending'', ''sys_rt_sigpending'', [Into 0, As 1]),
    (Always, ''rt_sigreturn'', ''sys_rt_sigreturn'', [Frame]),
    (Always, ''rt_sigtimedwait'', ''sys_rt_sigtimedwait'', [Into 0, Into 1, Into 2, As 3]),
    (Always, ''rt_sigsuspend'', ''sys_rt_sigsuspend'', [Frame, Into 0, As 1]),
    (Always, ''kill'', ''sys_kill'', [As 0, As 1]),
    (Always, ''tkill'', ''sys_tkill'', [As 0, As 1]),
    (Always, ''tgkill'', ''sys_tgkill'', [As 0, As 1, As 2]),
    (Always, ''rt_sigqueueinfo'', ''sys_rt_sigqueueinfo'', [As 0, As 1, Into 2, As 3]),
    (Always, ''rt_tgsigqueueinfo'', ''sys_rt_tgsigqueueinfo'', [As 0, As 1, As 2, Into 3, As 4]),
    (Always, ''sigaltstack'', ''sys_sigaltstack'', [Into 0, Into 1]),
    (Always, ''futex'', ''sys_futex'', [Into 0, As 1, As 2, Into 3, Into 4, As 5]),
    (Always, ''getuid'', ''sys_getuid'', []),
    (Always, ''geteuid'', ''sys_geteuid'', []),
    (Always, ''getgid'', ''sys_getgid'', []),
    (Always, ''getegid'', ''sys_getegid'', []),
    (Always, ''uname'', ''sys_uname'', [Into 0]),
    (Always, ''gettimeofday'', ''sys_gettimeofday'', [Into 0]),
    (Always, ''times'', ''sys_times'', [Into 0]),
    (Always, ''clock_gettime'', ''sys_clock_gettime'', [As 0, Into 1])]"

definition dispatch :: "arch \<Rightarrow> string \<Rightarrow> (string \<times> arg_expr list) option" where
  "dispatch a name = map_of (map snd (List.filter (\<lambda>(c, _). enabled a c) syscall_arms)) name"

section \<open>Parameter types\<close>

datatype arg_type = T_i32 | T_u32 | T_usize | T_isize | T_ptr | T_frame
datatype arg = A_i32 i32 | A_u32 u32 | A_usize usize | A_isize isize | A_ptr usize | A_frame

fun type_of :: "arg \<Rightarrow> arg_type" where
  "type_of (A_i32 _) = T_i32"
| "type_of (A_u32 _) = T_u32"
| "type_of (A_usize _) = T_usize"
| "type_of (A_isize _) = T_isize"
| "type_of (A_ptr _) = T_ptr"
| "type_of A_frame = T_frame"

text \<open>
  The parameter lists of the \<^verbatim>\<open>sys_*\<close> functions in \<^verbatim>\<open>api/src/imp\<close>, in the order of the files
  (\<^verbatim>\<open>c_int\<close> and \<^verbatim>\<open>__kernel_clockid_t\<close> are 32-bit signed, \<^verbatim>\<open>Pid\<close> and \<^verbatim>\<open>__kernel_mode_t\<close> 32-bit
  unsigned, \<^verbatim>\<open>__kernel_off_t\<close> is 64-bit signed; both user pointer types are \<open>T_ptr\<close>).
\<close>

definition handler_params :: "(cfg \<times> string \<times> arg_type list) list" where
  "handler_params = [
    (Always, ''sys_ioctl'', [T_i32, T_usize, T_ptr]),
    (Always, ''sys_chdir'', [T_ptr]),
    (Always, ''sys_mkdirat'', [T_i32, T_ptr, T_u32]),
    (Always, ''sys_getdents64'', [T_i32, T_ptr, T_usize]),
    (Always, ''sys_linkat'', [T_i32, T_ptr, T_i32, T_ptr, T_i32]),
    (Always, ''sys_link'', [T_ptr, T_ptr]),
    (Always, ''sys_unlinkat'', [T_i32, T_ptr, T_u32]),
    (Always, ''sys_unlink'', [T_ptr]),
    (Always, ''sys_getcwd'', [T_ptr, T_usize]),
    (Always, ''sys_openat'', [T_i32, T_ptr, T_i32, T_u32]),
    (Always, ''sys_open'', [T_ptr, T_i32, T_u32]),
    (Always, ''sys_close'', [T_i32]),
    (Always, ''sys_dup'', [T_i32]),
    (Always, ''sys_dup2'', [T_i32, T_i32]),
    (Always, ''sys_fcntl'', [T_i32, T_i32, T_usize]),
    (Always, ''sys_read'', [T_i32, T_ptr, T_usize]),
    (Always, ''sys_readv'', [T_i32, T_ptr, T_usize]),
    (Always, ''sys_write'', [T_i32, T_ptr, T_usize]),
    (Always, ''sys_writev'', [T_i32, T_ptr, T_usize]),
    (Always, ''sys_lseek'', [T_i32, T_isize, T_i32]),
    (Always, ''sys_mount'', [T_ptr, T_ptr, T_ptr, T_i32, T_ptr]),
    (Always, ''sys_umount2'', [T_ptr, T_i32]),
    (Always, ''sys_pipe2'', [T_ptr, T_i32]),
    (Always, ''sys_stat'', [T_ptr, T_ptr]),
    (Always, ''sys_fstat'', [T_i32, T_ptr]),
    (Always, ''sys_lstat'', [T_ptr, T_ptr]),
    (Always, ''sys_fstatat'', [T_i32, T_ptr, T_ptr, T_u32]),
    (Always, ''sys_statx'', [T_i32, T_ptr, T_u32, T_u32, T_ptr]),
    (Always, ''sys_futex'', [T_ptr, T_u32, T_u32, T_ptr, T_ptr, T_u32]),
    (Always, ''sys_brk'', [T_usize]),
    (Always, ''sys_mmap'', [T_usize, T_usize, T_u32, T_u32, T_i32, T_isize]),
    (Always, ''sys_munmap'', [T_usize, T_usize]),
    (Always, ''sys_mprotect'', [T_usize, T_usize, T_u32]),
    (Always, ''sys_rt_sigprocmask'', [T_i32, T_ptr, T_ptr, T_usize]),
    (Always, ''sys_rt_sigaction'', [T_u32, T_ptr, T_ptr, T_usize]),
    (Always, ''sys_rt_sigpending'', [T_ptr, T_usize]),
    (Always, ''sys_kill'', [T_i32, T_u32]),
    (Always, ''sys_tkill'', [T_u32, T_u32]),
    (Always, ''sys_tgkill'', [T_u32, T_u32, T_u32]),
    (Always, ''sys_rt_sigqueueinfo'', [T_u32, T_u32, T_ptr, T_usize]),
    (Always, ''sys_rt_tgsigqueueinfo'', [T_u32, T_u32, T_u32, T_ptr, T_usize]),
    (Always, ''sys_rt_sigreturn'', [T_frame]),
    (Always, ''sys_rt_sigtimedwait'', [T_ptr, T_ptr, T_ptr, T_usize]),
    (Always, ''sys_rt_sigsuspend'', [T_frame, T_ptr, T_usize]),
    (Always, ''sys_sigaltstack'', [T_ptr, T_ptr]),
    (Always, ''sys_getuid'', []),
    (Always, ''sys_geteuid'', []),
    (Always, ''sys_getgid'', []),
    (Always, ''sys_getegid'', []),
    (Always, ''sys_uname'', [T_ptr]),
    (Always, ''sys_clone'', [T_frame, T_u32, T_usize, T_usize, T_usize, T_usize]),
    (Always, ''sys_fork'', [T_frame]),
    (Always, ''sys_execve'', [T_frame, T_ptr, T_ptr, T_ptr]),
    (Always, ''sys_exit'', [T_i32]),
    (Always, ''sys_exit_group'', [T_i32]),
    (Always, ''sys_sched_yield'', []),
    (Always, ''sys_nanosleep'', [T_ptr, T_ptr]),
    (Always, ''sys_getpid'', []),
    (Always, ''sys_getppid'', []),
    (Always, ''sys_gettid'', []),
    (Always, ''sys_set_tid_address'', [T_usize]),
    (X86Only, ''sys_arch_prctl'', [T_frame, T_i32, T_usize]),
    (Always, ''sys_waitpid'', [T_i32, T_ptr, T_u32]),
    (Always, ''sys_clock_gettime'', [T_i32, T_ptr]),
    (Always, ''sys_gettimeofday'', [T_ptr]),
    (Always, ''sys_times'', [T_ptr])]"

definition signature :: "arch \<Rightarrow> string \<Rightarrow> arg_type list option" where
  "signature a h = map_of (map snd (List.filter (\<lambda>(c, _). enabled a c) handler_params)) h"

text \<open>
  The value of an argument expression at the parameter type: \<^verbatim>\<open>as _\<close> converts between integers and
  truncates, \<^verbatim>\<open>into()\<close> is \<^verbatim>\<open>From<usize>\<close> of the pointer types, a bare register is a \<^verbatim>\<open>usize\<close>.
  \<open>None\<close> is an expression the compiler refuses at that type.
\<close>

fun arg_value :: "(nat \<Rightarrow> usize) \<Rightarrow> arg_type \<Rightarrow> arg_expr \<Rightarrow> arg option" where
  "arg_value regs T_i32 (As i) = Some (A_i32 (ucast (regs i)))"
| "arg_value regs T_u32 (As i) = Some (A_u32 (ucast (regs i)))"
| "arg_value regs T_usize (As i) = Some (A_usize (regs i))"
| "arg_value regs T_isize (As i) = Some (A_isize (regs i))"
| "arg_value regs T_ptr (Into i) = Some (A_ptr (regs i))"
| "arg_value regs T_usize (Plain i) = Some (A_usize (regs i))"
| "arg_value regs T_i32 Zero = Some (A_i32 0)"
| "arg_value regs T_frame Frame = Some A_frame"
| "arg_value regs _ _ = None"

fun arg_values :: "(nat \<Rightarrow> usize) \<Rightarrow> arg_type list \<Rightarrow> arg_expr list \<Rightarrow> arg list option" where
  "arg_values regs [] [] = Some []"
| "arg_values regs (t # ts) (e # es) =
     (case (arg_value regs t e, arg_values regs ts es) of
        (Some v, Some vs) \<Rightarrow> Some (v # vs)
      | _ \<Rightarrow> None)"
| "arg_values regs _ _ = None"

section \<open>The entry\<close>

text \<open>
  A body gets the name of the \<^verbatim>\<open>sys_*\<close> function, its arguments and the state, which holds the time
  statistics of the thread. It returns a result (\<open>Done\<close>), panics, or does not return (\<open>Pending\<close>),
  as \<^verbatim>\<open>sys_exit\<close> never does.
\<close>

type_synonym 's body = "string \<Rightarrow> arg list \<Rightarrow> TimeStat \<times> 's \<Rightarrow> (isize LinuxResult, TimeStat \<times> 's) call"

text \<open>\<^verbatim>\<open>result.unwrap_or_else(|err| -err.code() as _)\<close>, with \<open>code\<close> for \<^verbatim>\<open>LinuxError::code\<close>.\<close>

definition encode_result :: "(LinuxError \<Rightarrow> i32) \<Rightarrow> isize LinuxResult \<Rightarrow> isize" where
  "encode_result code r = (case r of Inr v \<Rightarrow> v | Inl e \<Rightarrow> scast (- code e))"

text \<open>
  \<open>sysno\<close> is \<^verbatim>\<open>Sysno::from\<close>, with \<open>None\<close> for a number it panics on; \<open>t0\<close> and \<open>t1\<close> are the readings
  of the monotonic clock at entry and return.
\<close>

definition handle_syscall ::
  "arch \<Rightarrow> (u32 \<Rightarrow> string option) \<Rightarrow> (LinuxError \<Rightarrow> i32) \<Rightarrow> 's body \<Rightarrow> usize \<Rightarrow> usize \<Rightarrow> (nat \<Rightarrow> usize) \<Rightarrow> usize \<Rightarrow>
     TimeStat \<times> 's \<Rightarrow> (isize, TimeStat \<times> 's) call" where
  "handle_syscall a sysno code body t0 t1 regs syscall_num st =
     (case sysno (ucast syscall_num) of
        None \<Rightarrow> Panic
      | Some name \<Rightarrow>
          let st1 = apfst (time_stat_from_user_to_kernel t0) st;
              result = (case dispatch a name of
                  None \<Rightarrow> Done (Inl ENOSYS) st1
                | Some (h, es) \<Rightarrow>
                    (case Option.bind (signature a h) (\<lambda>ts. arg_values regs ts es) of
                       None \<Rightarrow> Panic
                     | Some args \<Rightarrow> body h args st1))
          in case result of
               Panic \<Rightarrow> Panic
             | Pending st2 \<Rightarrow> Pending st2
             | Done r st2 \<Rightarrow> Done (encode_result code r) (apfst (time_stat_from_kernel_to_user t1) st2))"

section \<open>Every arm is well typed\<close>

fun fits :: "arg_type \<Rightarrow> arg_expr \<Rightarrow> bool" where
  "fits t (As i) = (t = T_i32 \<or> t = T_u32 \<or> t = T_usize \<or> t = T_isize)"
| "fits t (Into i) = (t = T_ptr)"
| "fits t (Plain i) = (t = T_usize)"
| "fits t Zero = (t = T_i32)"
| "fits t Frame = (t = T_frame)"

lemma arg_value_typed: "fits t e \<Longrightarrow> \<exists>v. arg_value regs t e = Some v \<and> type_of v = t"
  by (cases e) auto

lemma arg_values_typed:
  "list_all2 fits ts es \<Longrightarrow> \<exists>vs. arg_values regs ts es = Some vs \<and> map type_of vs = ts"
proof (induction rule: list_all2_induct)
  case (Cons t ts e es)
  from arg_value_typed [OF Cons(1), of regs] Cons(3) show ?case by auto
qed simp

definition arm_typed :: "arch \<Rightarrow> cfg \<times> string \<times> string \<times> arg_expr list \<Rightarrow> bool" where
  "arm_typed a = (\<lambda>(c, n, h, es). enabled a c \<longrightarrow>
     (case signature a h of None \<Rightarrow> False | Some ts \<Rightarrow> list_all2 fits ts es))"

lemma enabled_not_x86: "a \<noteq> X86_64 \<Longrightarrow> enabled a = enabled Riscv64"
  by (rule ext, case_tac x) simp_all

lemma arm_typed_not_x86:
  assumes "a \<noteq> X86_64"
  shows "arm_typed a = arm_typed Riscv64"
  unfolding arm_typed_def signature_def enabled_not_x86 [OF assms] ..

lemma arms_typed: "list_all (arm_typed a) syscall_arms"
proof (cases "a = X86_64")
  case True
  have "list_all (arm_typed X86_64) syscall_arms" by code_simp
  then show ?thesis unfolding True .
next
  case False
  have "list_all (arm_typed Riscv64) syscall_arms" by code_simp
  then show ?thesis unfolding arm_typed_not_x86 [OF False] .
qed

lemma dispatch_typed:
  assumes "dispatch a name = Some (h, es)"
  shows "\<exists>ts. signature a h = Some ts \<and> list_all2 fits ts es"
proof -
  from assms have "(name, h, es) \<in> set (map snd (List.filter (\<lambda>(c, _). enabled a c) syscall_arms))"
    unfolding dispatch_def by (rule map_of_SomeD)
  then obtain c where "(c, name, h, es) \<in> set syscall_arms" "enabled a c" by auto
  with arms_typed [of a] show ?thesis
    by (auto simp: list_all_iff arm_typed_def split: option.splits)
qed

section \<open>The result register\<close>

lemma sint_neg_scast:
  fixes c :: i32
  assumes "0 < sint c"
  shows "sint (scast (- c) :: isize) = - sint c"
proof -
  have c: "sint c < 2 ^ 31" using sint_lt [of c] by simp
  have s: "sint (- c) = - sint c"
    using assms c by (simp add: signed_take_bit_int_eq_self sint_word_ariths(4))
  have "sint (scast (- c) :: isize) = signed_take_bit 63 (sint (- c))"
    by (simp add: signed_scast_eq)
  also have "\<dots> = sint (- c)" using assms c s by (intro signed_take_bit_int_eq_self) auto
  finally show ?thesis using s by simp
qed

lemma encode_error:
  assumes "\<forall>e. 0 < sint (code e) \<and> sint (code e) \<le> 4095"
  shows "sint (encode_result code (Inl e)) = - sint (code e)" "- 4095 \<le> sint (encode_result code (Inl e))"
    "sint (encode_result code (Inl e)) < 0"
proof -
  from assms have c: "0 < sint (code e)" "sint (code e) \<le> 4095" by auto
  show "sint (encode_result code (Inl e)) = - sint (code e)"
    using sint_neg_scast [OF c(1)] by (simp add: encode_result_def)
  with c show "- 4095 \<le> sint (encode_result code (Inl e))" "sint (encode_result code (Inl e)) < 0"
    by linarith+
qed

text \<open>What \<^verbatim>\<open>handle_syscall\<close> does with the outcome of the body it calls.\<close>

definition finish_syscall ::
  "(LinuxError \<Rightarrow> i32) \<Rightarrow> usize \<Rightarrow> (isize LinuxResult, TimeStat \<times> 's) call \<Rightarrow> (isize, TimeStat \<times> 's) call" where
  "finish_syscall code t1 c = (case c of Panic \<Rightarrow> Panic | Pending st \<Rightarrow> Pending st
     | Done r st \<Rightarrow> Done (encode_result code r) (apfst (time_stat_from_kernel_to_user t1) st))"

lemma handle_syscall_unknown:
  assumes "sysno (ucast num) = Some name" "dispatch a name = None"
  shows "handle_syscall a sysno code body t0 t1 regs num (ts, s)
    = Done (encode_result code (Inl ENOSYS))
        (time_stat_from_kernel_to_user t1 (time_stat_from_user_to_kernel t0 ts), s)"
  using assms by (simp add: handle_syscall_def)

lemma handle_syscall_known:
  assumes "sysno (ucast num) = Some name" "dispatch a name = Some (h, es)"
  obtains types args where "signature a h = Some types" "arg_values regs types es = Some args"
    "map type_of args = types"
    "handle_syscall a sysno code body t0 t1 regs num (ts, s)
     = finish_syscall code t1 (body h args (time_stat_from_user_to_kernel t0 ts, s))"
proof -
  from dispatch_typed [OF assms(2)] obtain types where t: "signature a h = Some types" "list_all2 fits types es"
    by auto
  from arg_values_typed [OF t(2)] obtain args where
    v: "arg_values regs types es = Some args" "map type_of args = types" by auto
  have "handle_syscall a sysno code body t0 t1 regs num (ts, s)
     = finish_syscall code t1 (body h args (time_stat_from_user_to_kernel t0 ts, s))"
    using assms t(1) v(1) by (simp add: handle_syscall_def finish_syscall_def)
  with t(1) v show ?thesis by (rule that)
qed

lemma finish_syscall_cases:
  "finish_syscall code t1 Panic = Panic"
  "finish_syscall code t1 (Pending st) = Pending st"
  "finish_syscall code t1 (Done (Inr v) (ts, s)) = Done v (time_stat_from_kernel_to_user t1 ts, s)"
  "finish_syscall code t1 (Done (Inl e) (ts, s))
   = Done (encode_result code (Inl e)) (time_stat_from_kernel_to_user t1 ts, s)"
  by (simp_all add: finish_syscall_def encode_result_def)


text \<open>
  The calls of \<^verbatim>\<open>sys.rs\<close> as bodies, with every other function refusing its arguments.
\<close>

definition sys_bodies :: "unit body" where
  "sys_bodies h args st =
     (if h = ''sys_geteuid'' then Done sys_geteuid st
      else if h = ''sys_getuid'' then Done sys_getuid st
      else Done (Inl EINVAL) st)"


end
