(* ===== verification/Boot.thy ===== *)
theory Boot
  imports Exec Dispatch
begin

text \<open>
  Starting programs: \<^verbatim>\<open>main\<close> and \<^verbatim>\<open>run_user_app\<close> of \<^verbatim>\<open>src/main.rs\<close> and \<^verbatim>\<open>src/entry.rs\<close>, the creation of user
  address spaces in \<^verbatim>\<open>core/src/mm.rs\<close> and of tasks and their extended data in \<^verbatim>\<open>core/src/task.rs\<close>. A
  program is started with the operations of the theories \<open>Exec\<close>, \<open>Tasks\<close> and \<open>Fd_Table\<close>.
\<close>

section \<open>Task data\<close>

record ThreadData =
  td_clear_child_tid :: usize

definition ThreadData_new :: ThreadData where
  "ThreadData_new = \<lparr>td_clear_child_tid = 0\<rparr>"

definition clear_child_tid :: "ThreadData \<Rightarrow> usize" where
  "clear_child_tid td = td_clear_child_tid td"

definition set_clear_child_tid :: "usize \<Rightarrow> ThreadData \<Rightarrow> ThreadData" where
  "set_clear_child_tid addr td = td\<lparr>td_clear_child_tid := addr\<rparr>"

record TaskExt =
  te_time :: TimeStat
  te_thread :: thread_view

definition TaskExt_new :: "thread_view \<Rightarrow> TaskExt" where
  "TaskExt_new thread = \<lparr>te_time = TimeStat_new, te_thread = thread\<rparr>"

text \<open>
  A user task is a closure that runs in the new task: it stores the task's identifier if asked to, and
  enters user mode with the given instruction and stack pointer.
\<close>

record user_context =
  uc_ip :: usize
  uc_sp :: usize

record user_task =
  ut_name :: bytes
  ut_context :: user_context
  ut_set_child_tid :: "usize option"

definition new_user_task :: "bytes \<Rightarrow> user_context \<Rightarrow> usize option \<Rightarrow> user_task" where
  "new_user_task name uctx set_child_tid = \<lparr>ut_name = name, ut_context = uctx, ut_set_child_tid = set_child_tid\<rparr>"

text \<open>What the closure does: the stored identifier, if any, and the context it enters.\<close>

definition user_task_run :: "u64 \<Rightarrow> user_task \<Rightarrow> (usize \<times> Pid) option \<times> user_context" where
  "user_task_run task_id ut = (map_option (\<lambda>p. (p, ucast task_id)) (ut_set_child_tid ut), ut_context ut)"

text \<open>\<^verbatim>\<open>WaitQueueWrapper\<close>, on the wait queue of \<^verbatim>\<open>axtask\<close>.\<close>

definition WaitQueueWrapper_wait_timeout ::
  "('d \<Rightarrow> 'q \<Rightarrow> bool \<times> 'q) \<Rightarrow> ('q \<Rightarrow> 'q) \<Rightarrow> 'd option \<Rightarrow> 'q \<Rightarrow> bool \<times> 'q" where
  "WaitQueueWrapper_wait_timeout wait_timeout wait timeout q =
     (case timeout of Some d \<Rightarrow> wait_timeout d q | None \<Rightarrow> (True, wait q))"

definition WaitQueueWrapper_notify_one :: "(bool \<Rightarrow> 'q \<Rightarrow> bool \<times> 'q) \<Rightarrow> 'q \<Rightarrow> bool \<times> 'q" where
  "WaitQueueWrapper_notify_one notify_one q = notify_one False q"

section \<open>Address spaces\<close>

text \<open>
  The kernel's own mappings and what \<^verbatim>\<open>axmm\<close> does with them, and the file system and process objects
  the start needs.
\<close>

record 's boot_env =
  bt_exec :: "'s exec_env"
  bt_new_empty :: "usize \<Rightarrow> usize \<Rightarrow> 's AxResult"
  bt_copy_kernel :: "'s \<Rightarrow> unit AxResult \<times> 's"
  bt_clear_kernel :: "'s \<Rightarrow> 's"
  bt_set_current_dir :: "bytes \<Rightarrow> bytes AxResult"
  USER_SPACE_BASE :: usize
  USER_SPACE_SIZE :: usize
  bt_SIGCHLD :: Signo
  bt_init :: thread_view
  bt_task_id :: u64

definition new_user_aspace_empty :: "'s boot_env \<Rightarrow> 's AxResult" where
  "new_user_aspace_empty B = bt_new_empty B (USER_SPACE_BASE B) (USER_SPACE_SIZE B)"

definition copy_from_kernel :: "arch \<Rightarrow> 's boot_env \<Rightarrow> 's \<Rightarrow> unit AxResult \<times> 's" where
  "copy_from_kernel a B s = (if a \<noteq> Aarch64 \<and> a \<noteq> Loongarch64 then bt_copy_kernel B s else (Inr (), s))"

text \<open>\<^verbatim>\<open>Drop for ProcessData\<close>, on the address space.\<close>

definition ProcessData_drop :: "arch \<Rightarrow> 's boot_env \<Rightarrow> 's \<Rightarrow> 's" where
  "ProcessData_drop a B s = (if a \<noteq> Aarch64 \<and> a \<noteq> Loongarch64 then bt_clear_kernel B s else s)"

section \<open>Starting a program\<close>

definition before_last_slash :: "bytes \<Rightarrow> bytes" where
  "before_last_slash s = butlast (rev (dropWhile (\<lambda>c. c \<noteq> 0x2F) (rev s)))"

text \<open>\<^verbatim>\<open>rsplit_once('/')\<close>, with the empty directory where there is no slash.\<close>

definition split_exe_path :: "bytes \<Rightarrow> bytes \<times> bytes" where
  "split_exe_path p = (if 0x2F \<in> set p then (before_last_slash p, after_last_slash p) else ([], p))"

record ('s, 't) started =
  st_task :: user_task
  st_ext :: TaskExt
  st_thread_data :: ThreadData
  st_process :: ProcessData
  st_parent :: Pid
  st_space :: 's
  st_files :: 't
  st_current_dir :: bytes
  st_tables :: task_tables

datatype ('s, 't) boot = BootPanic | Started "('s, 't) started"

text \<open>The last part of \<^verbatim>\<open>run_user_app\<close>, from the loaded image to the spawn of the task.\<close>

definition start_task ::
  "'s boot_env \<Rightarrow> 't fd_ops \<Rightarrow> 't \<Rightarrow> task_tables \<Rightarrow> bytes \<Rightarrow> bytes \<Rightarrow> bytes \<Rightarrow> usize \<Rightarrow> usize \<Rightarrow> 's \<Rightarrow> ('s, 't) boot" where
  "start_task B ops t T exe_path name cwd entry_vaddr ustack_top uspace =
     (case copy_inner ops t of
        None \<Rightarrow> BootPanic
      | Some files \<Rightarrow>
          let tid = ucast (bt_task_id B);
              thread = \<lparr>tv_tid = tid, tv_pid = tid, tv_pgid = tv_pgid (bt_init B), tv_sid = tv_sid (bt_init B)\<rparr>
          in Started \<lparr>
            st_task = new_user_task name \<lparr>uc_ip = entry_vaddr, uc_sp = ustack_top\<rparr> None,
            st_ext = TaskExt_new thread,
            st_thread_data = ThreadData_new,
            st_process = ProcessData_new (USER_HEAP_BASE (bt_exec B)) (map (\<lambda>b. char_of (unat b)) exe_path) Copied
              DefaultActions (Some (bt_SIGCHLD B)),
            st_parent = tv_pid (bt_init B), st_space = uspace, st_files = files, st_current_dir = cwd,
            st_tables = add_thread_to_table thread T\<rparr>)"

text \<open>
  \<open>t\<close> is the kernel's own descriptor table and \<open>T\<close> are the task tables; \<open>None\<close> is a load that never ends.
\<close>

definition user_space :: "arch \<Rightarrow> 's boot_env \<Rightarrow> 's AxResult" where
  "user_space a B =
     try_then (new_user_aspace_empty B) (\<lambda>s0.
       case copy_from_kernel a B s0 of
         (Inl e, _) \<Rightarrow> Inl e
       | (Inr _, s1) \<Rightarrow> (case map_trampoline (bt_exec B) s1 of (Inl e, _) \<Rightarrow> Inl e | (Inr _, s2) \<Rightarrow> Inr s2))"

definition run_user_app ::
  "arch \<Rightarrow> 's boot_env \<Rightarrow> 't fd_ops \<Rightarrow> 't \<Rightarrow> task_tables \<Rightarrow> bytes list \<Rightarrow> bytes list \<Rightarrow> ('s, 't) boot option" where
  "run_user_app a B ops t T args envs =
     (case user_space a B of
        Inl e \<Rightarrow> Some BootPanic
      | Inr uspace \<Rightarrow>
     (case args of
        [] \<Rightarrow> Some BootPanic
      | exe_path # _ \<Rightarrow>
     (case bt_set_current_dir B (fst (split_exe_path exe_path)) of
        Inl e \<Rightarrow> Some BootPanic
      | Inr cwd \<Rightarrow>
          map_option (\<lambda>l. case l of
              LoadPanic \<Rightarrow> BootPanic
            | LoadDone (Inl e) s \<Rightarrow> BootPanic
            | LoadDone (Inr (entry_vaddr, ustack_top)) s \<Rightarrow>
                start_task B ops t T exe_path (snd (split_exe_path exe_path)) cwd entry_vaddr ustack_top s)
            (load_user_app (bt_exec B) args envs uspace))))"

text \<open>
  \<^verbatim>\<open>main\<close>: the command lines that are run, one after the other. \<open>shlex\<close> is \<^verbatim>\<open>shlex::split\<close>.
\<close>

fun split_on :: "'a \<Rightarrow> 'a list \<Rightarrow> 'a list list" where
  "split_on c [] = [[]]"
| "split_on c (x # xs) =
     (if x = c then [] # split_on c xs
      else case split_on c xs of [] \<Rightarrow> [[x]] | p # ps \<Rightarrow> (x # p) # ps)"

definition main_commands :: "(bytes \<Rightarrow> bytes list option) \<Rightarrow> bytes \<Rightarrow> bytes list list" where
  "main_commands shlex list =
     concat (map (\<lambda>testcase. case shlex testcase of
         None \<Rightarrow> []
       | Some args \<Rightarrow> if args = [] then [] else [args])
       (filter (\<lambda>x. x \<noteq> []) (split_on 0x2C list)))"

section \<open>What a started program has\<close>

lemma split_on_join: "concat (map (\<lambda>p. p @ [c]) (split_on c xs)) = xs @ [c]"
  by (induction xs) (auto split: list.split)

lemma split_on_no_sep: "p \<in> set (split_on c xs) \<Longrightarrow> c \<notin> set p"
  by (induction xs arbitrary: p) (auto split: if_splits list.splits)

lemma main_commands_nonempty: "[] \<notin> set (main_commands shlex list)"
  by (auto simp: main_commands_def split: option.splits)

lemma split_exe_path_join:
  assumes "0x2F \<in> set p"
  shows "fst (split_exe_path p) @ [0x2F] @ snd (split_exe_path p) = p" "0x2F \<notin> set (snd (split_exe_path p))"
proof -
  let ?d = "dropWhile (\<lambda>c. c \<noteq> 0x2F) (rev p)"
  have "?d \<noteq> []" using assms by (auto simp: dropWhile_eq_Nil_conv)
  then have "hd ?d = 0x2F" using hd_dropWhile [of "\<lambda>c. c \<noteq> 0x2F" "rev p"] by simp
  with \<open>?d \<noteq> []\<close> have last: "butlast (rev ?d) @ [0x2F] = rev ?d"
    by (metis append_butlast_last_id last_rev rev_is_Nil_conv)
  have "before_last_slash p @ [0x2F] @ after_last_slash p = (butlast (rev ?d) @ [0x2F]) @ after_last_slash p"
    by (simp add: before_last_slash_def)
  also have "\<dots> = rev ?d @ rev (takeWhile (\<lambda>c. c \<noteq> 0x2F) (rev p))" unfolding last after_last_slash_def ..
  also have "\<dots> = p" by (simp flip: rev_append)
  finally show "fst (split_exe_path p) @ [0x2F] @ snd (split_exe_path p) = p"
    using assms by (simp add: split_exe_path_def)
  show "0x2F \<notin> set (snd (split_exe_path p))"
    using assms by (auto simp: split_exe_path_def after_last_slash_def dest: set_takeWhileD)
qed

lemma run_user_app_no_args:
  "run_user_app a B ops t T [] envs = Some BootPanic"
  by (auto simp: run_user_app_def split: sum.split prod.split)

text \<open>
  A program that is started runs the image that \<^verbatim>\<open>load_user_app\<close> made, from its entry point, with an
  empty heap, copies of the kernel's descriptors and zeroed time statistics, as a child of the init
  process that is found in the tables.
\<close>

lemma start_task_started:
  assumes "start_task B ops t T exe name cwd ip sp s = Started st"
  shows "copy_inner ops t = Some (st_files st)" "ut_name (st_task st) = name" "st_space st = s"
    "ut_context (st_task st) = \<lparr>uc_ip = ip, uc_sp = sp\<rparr>"
    "pd_heap_top (st_process st) = USER_HEAP_BASE (bt_exec B)" "te_time (st_ext st) = TimeStat_new"
    "st_tables st = add_thread_to_table (te_thread (st_ext st)) T"
  using assms
  by (auto simp: start_task_def Let_def new_user_task_def ProcessData_new_def TaskExt_new_def split: option.splits)

lemma run_user_app_started:
  assumes "run_user_app a B ops t T args envs = Some (Started st)"
  obtains exe rest uspace ip sp cwd where "args = exe # rest" "user_space a B = Inr uspace"
    "load_user_app (bt_exec B) args envs uspace = Some (LoadDone (Inr (ip, sp)) (st_space st))"
    "start_task B ops t T exe (snd (split_exe_path exe)) cwd ip sp (st_space st) = Started st"
proof -
  obtain uspace where u: "user_space a B = Inr uspace"
    using assms by (cases "user_space a B") (simp_all add: run_user_app_def)
  obtain exe rest where args: "args = exe # rest"
    using assms u by (cases args) (simp_all add: run_user_app_def)
  obtain cwd where cwd: "bt_set_current_dir B (fst (split_exe_path exe)) = Inr cwd"
    using assms u args by (cases "bt_set_current_dir B (fst (split_exe_path exe))") (simp_all add: run_user_app_def)
  obtain l where l: "load_user_app (bt_exec B) args envs uspace = Some l"
    using assms u args cwd by (cases "load_user_app (bt_exec B) args envs uspace") (simp_all add: run_user_app_def)
  obtain ip sp s where loaded: "l = LoadDone (Inr (ip, sp)) s"
    using assms u args cwd l by (cases l) (auto simp: run_user_app_def split: sum.splits)
  then have st: "start_task B ops t T exe (snd (split_exe_path exe)) cwd ip sp s = Started st"
    using assms u args cwd l by (simp add: run_user_app_def)
  moreover have "st_space st = s" using st by (rule start_task_started(3))
  ultimately show ?thesis using l loaded by (intro that [of exe rest uspace ip sp cwd] args u) simp_all
qed

section \<open>Resource namespaces\<close>

text \<open>
  \<^verbatim>\<open>current_namespace_base\<close>: a task of the kernel, which has no extended data, gets a copy of the
  global namespace that is made once; any other task gets the namespace of its process. The global
  namespace and the address that the allocator returns are arguments; \<open>None\<close> is the panic for a
  size that has no layout.
\<close>

record ns_state =
  KERNEL_NS_BASE :: "usize option"
  ns_memory :: "usize \<Rightarrow> u8"

definition copy_nonoverlapping :: "usize \<Rightarrow> usize \<Rightarrow> usize \<Rightarrow> (usize \<Rightarrow> u8) \<Rightarrow> usize \<Rightarrow> u8" where
  "copy_nonoverlapping src dst n mem = (\<lambda>a. if a - dst < n then mem (src + (a - dst)) else mem a)"

definition current_namespace_base ::
  "usize \<times> usize \<Rightarrow> (usize \<Rightarrow> usize) \<Rightarrow> usize option \<Rightarrow> ns_state \<Rightarrow> (usize \<times> ns_state) option" where
  "current_namespace_base global_ns alloc process_ns s =
     (case process_ns of
        Some base \<Rightarrow> Some (base, s)
      | None \<Rightarrow>
          (case KERNEL_NS_BASE s of
             Some base \<Rightarrow> Some (base, s)
           | None \<Rightarrow>
               let (src, n) = global_ns
               in if unat n + 63 < 2 ^ 63 then
                    let dst = alloc n
                    in Some (dst, \<lparr>KERNEL_NS_BASE = Some dst, ns_memory = copy_nonoverlapping src dst n (ns_memory s)\<rparr>)
                  else None))"

text \<open>
  The first task of the kernel gets a copy of the global namespace, outside of which no byte changes; every
  later one gets the same copy as it is then; a task of a process never changes anything.
\<close>

lemma kernel_namespace_copy:
  assumes "KERNEL_NS_BASE s = None" "unat n + 63 < 2 ^ 63"
  shows "\<exists>s1. current_namespace_base (src, n) alloc None s = Some (alloc n, s1)
    \<and> (\<forall>i < n. ns_memory s1 (alloc n + i) = ns_memory s (src + i))
    \<and> (\<forall>b. \<not> b - alloc n < n \<longrightarrow> ns_memory s1 b = ns_memory s b)
    \<and> current_namespace_base global_ns alloc' None s1 = Some (alloc n, s1)"
  using assms by (auto simp: current_namespace_base_def copy_nonoverlapping_def Let_def)

lemma process_namespace_own: "current_namespace_base global_ns alloc (Some base) s = Some (base, s)"
  by (simp add: current_namespace_base_def)

end
