(* ===== verification/Kernel.thy ===== *)
theory Kernel
  imports Dispatch Mmap
begin

text \<open>
  A process as the system call entry sees it: the entry of theory \<open>Dispatch\<close> with the bodies of the
  calls on descriptors, on the program break and on identifiers plugged in, and the states that a
  program can reach with these calls, whatever it puts into its registers.
\<close>

section \<open>The state and the calls\<close>

record 't kstate =
  ks_fds :: 't
  ks_data :: ProcessData
  ks_clear_child_tid :: usize
  ks_pipes :: nat

type_synonym 't kcall = "TimeStat \<times> 't kstate \<Rightarrow> (isize LinuxResult, TimeStat \<times> 't kstate) call"

text \<open>
  The constants, the heap size and the identity of the task, and what the check of a pointer to a pair
  of descriptors gives. New pipes are numbered.
\<close>

record kernel_env =
  ke_fcntl :: fcntl_abi
  ke_heap_size :: usize
  ke_thread :: thread_view
  ke_task_id :: u64
  ke_parent :: "Pid option"
  ke_pointer :: "usize \<Rightarrow> unit LinuxResult"

text \<open>Functions that take their arguments from a list of values.\<close>

fun no_args :: "'t kcall \<Rightarrow> arg list \<Rightarrow> 't kcall" where
  "no_args f [] = f"
| "no_args f _ = (\<lambda>_. Panic)"

fun args_i32 :: "(i32 \<Rightarrow> 't kcall) \<Rightarrow> arg list \<Rightarrow> 't kcall" where
  "args_i32 f [A_i32 x] = f x"
| "args_i32 f _ = (\<lambda>_. Panic)"

fun args_i32_i32 :: "(i32 \<Rightarrow> i32 \<Rightarrow> 't kcall) \<Rightarrow> arg list \<Rightarrow> 't kcall" where
  "args_i32_i32 f [A_i32 x, A_i32 y] = f x y"
| "args_i32_i32 f _ = (\<lambda>_. Panic)"

fun args_i32_i32_usize :: "(i32 \<Rightarrow> i32 \<Rightarrow> usize \<Rightarrow> 't kcall) \<Rightarrow> arg list \<Rightarrow> 't kcall" where
  "args_i32_i32_usize f [A_i32 x, A_i32 y, A_usize z] = f x y z"
| "args_i32_i32_usize f _ = (\<lambda>_. Panic)"

fun args_ptr_i32 :: "(usize \<Rightarrow> i32 \<Rightarrow> 't kcall) \<Rightarrow> arg list \<Rightarrow> 't kcall" where
  "args_ptr_i32 f [A_ptr x, A_i32 y] = f x y"
| "args_ptr_i32 f _ = (\<lambda>_. Panic)"

fun args_usize :: "(usize \<Rightarrow> 't kcall) \<Rightarrow> arg list \<Rightarrow> 't kcall" where
  "args_usize f [A_usize x] = f x"
| "args_usize f _ = (\<lambda>_. Panic)"

definition on_fds :: "('t \<Rightarrow> isize LinuxResult \<times> 't) \<Rightarrow> 't kcall" where
  "on_fds f st = (case f (ks_fds (snd st)) of (r, t) \<Rightarrow> Done r (fst st, (snd st)\<lparr>ks_fds := t\<rparr>))"

definition on_fds_call :: "('t \<Rightarrow> (isize LinuxResult, 't) call) \<Rightarrow> 't kcall" where
  "on_fds_call f st = map_call id (\<lambda>t. (fst st, (snd st)\<lparr>ks_fds := t\<rparr>)) (f (ks_fds (snd st)))"

definition kernel_pipe2 :: "kernel_env \<Rightarrow> 't fd_ops \<Rightarrow> usize \<Rightarrow> i32 \<Rightarrow> 't kcall" where
  "kernel_pipe2 E ops fds flags st =
     map_call fst (\<lambda>t. (fst st, (snd st)\<lparr>ks_fds := t, ks_pipes := ks_pipes (snd st) + 1\<rparr>))
       (sys_pipe2 ops (ke_pointer E fds) (ks_pipes (snd st)) (ks_fds (snd st)))"

definition kernel_brk :: "kernel_env \<Rightarrow> usize \<Rightarrow> 't kcall" where
  "kernel_brk E addr st =
     (case sys_brk (ke_heap_size E) addr (ks_data (snd st)) of (r, pd) \<Rightarrow> Done r (fst st, (snd st)\<lparr>ks_data := pd\<rparr>))"

definition kernel_set_tid_address :: "kernel_env \<Rightarrow> usize \<Rightarrow> 't kcall" where
  "kernel_set_tid_address E addr st =
     (case sys_set_tid_address (ke_task_id E) addr of
        (r, p) \<Rightarrow> Done r (fst st, (snd st)\<lparr>ks_clear_child_tid := p\<rparr>))"

text \<open>The flag that \<^verbatim>\<open>sys_fcntl\<close> may set on a socket is not part of this state.\<close>

definition kernel_table :: "kernel_env \<Rightarrow> 't fd_ops \<Rightarrow> (string \<times> (arg list \<Rightarrow> 't kcall)) list" where
  "kernel_table E ops = [
    (''sys_close'', args_i32 (\<lambda>fd. on_fds (sys_close ops fd))),
    (''sys_dup'', args_i32 (\<lambda>fd. on_fds (sys_dup ops fd))),
    (''sys_dup2'', args_i32_i32 (\<lambda>old_fd new_fd. on_fds_call (sys_dup2 ops old_fd new_fd))),
    (''sys_fcntl'', args_i32_i32_usize (\<lambda>fd cmd arg. on_fds (\<lambda>t. case sys_fcntl (ke_fcntl E) ops fd cmd arg t of (r, _, t') \<Rightarrow> (r, t')))),
    (''sys_pipe2'', args_ptr_i32 (kernel_pipe2 E ops)),
    (''sys_brk'', args_usize (kernel_brk E)),
    (''sys_set_tid_address'', args_usize (kernel_set_tid_address E)),
    (''sys_getpid'', no_args (Done (sys_getpid (ke_thread E)))),
    (''sys_gettid'', no_args (Done (sys_gettid (ke_task_id E)))),
    (''sys_getppid'', no_args (case sys_getppid (ke_parent E) of None \<Rightarrow> \<lambda>_. Panic | Some r \<Rightarrow> Done r)),
    (''sys_getuid'', no_args (Done sys_getuid)),
    (''sys_geteuid'', no_args (Done sys_geteuid)),
    (''sys_getgid'', no_args (Done sys_getgid)),
    (''sys_getegid'', no_args (Done sys_getegid))]"

definition kernel_body :: "kernel_env \<Rightarrow> 't fd_ops \<Rightarrow> 't kstate body" where
  "kernel_body E ops h args st = (case map_of (kernel_table E ops) h of None \<Rightarrow> Panic | Some f \<Rightarrow> f args st)"

text \<open>The types of their parameters.\<close>

definition kernel_types :: "(string \<times> arg_type list) list" where
  "kernel_types = [
    (''sys_close'', [T_i32]), (''sys_dup'', [T_i32]), (''sys_dup2'', [T_i32, T_i32]),
    (''sys_fcntl'', [T_i32, T_i32, T_usize]), (''sys_pipe2'', [T_ptr, T_i32]), (''sys_brk'', [T_usize]),
    (''sys_set_tid_address'', [T_usize]), (''sys_getpid'', []), (''sys_gettid'', []), (''sys_getppid'', []),
    (''sys_getuid'', []), (''sys_geteuid'', []), (''sys_getgid'', []), (''sys_getegid'', [])]"

text \<open>The program uses the calls above, and numbers that have no arm.\<close>

definition kernel_call :: "arch \<Rightarrow> string \<Rightarrow> bool" where
  "kernel_call a name =
     (case dispatch a name of None \<Rightarrow> True | Some (h, _) \<Rightarrow> map_of kernel_types h \<noteq> None)"

inductive kernel_reachable ::
  "arch \<Rightarrow> (u32 \<Rightarrow> string option) \<Rightarrow> (LinuxError \<Rightarrow> i32) \<Rightarrow> kernel_env \<Rightarrow> 't fd_ops \<Rightarrow> TimeStat \<times> 't kstate \<Rightarrow>
     TimeStat \<times> 't kstate \<Rightarrow> bool"
  for a sysno code E ops init where
  start: "kernel_reachable a sysno code E ops init init"
| syscall: "kernel_reachable a sysno code E ops init st \<Longrightarrow> sysno (ucast num) = Some name \<Longrightarrow> kernel_call a name \<Longrightarrow>
    handle_syscall a sysno code (kernel_body E ops) t0 t1 regs num st = Done x st' \<Longrightarrow>
    kernel_reachable a sysno code E ops init st'"

section \<open>What the calls keep\<close>

definition heap_ok :: "usize \<Rightarrow> usize \<Rightarrow> ProcessData \<Rightarrow> bool" where
  "heap_ok base hsz pd \<longleftrightarrow> pd_heap_bottom pd = base \<and> base \<le> pd_heap_top pd \<and> unat (pd_heap_top pd) \<le> unat base + unat hsz"

lemma sys_brk_heap_ok:
  assumes "unat base + unat hsz < 2 ^ 64" "heap_ok base hsz pd"
  shows "heap_ok base hsz (snd (sys_brk hsz addr pd))"
proof -
  obtain r pd' where b: "sys_brk hsz addr pd = (r, pd')" by fastforce
  from assms(2) have h: "pd_heap_bottom pd = base" "base \<le> pd_heap_top pd" "unat (pd_heap_top pd) \<le> unat base + unat hsz"
    by (simp_all add: heap_ok_def)
  note step = sys_brk_step [of pd hsz addr r pd', unfolded h(1), OF assms(1) h(2,3) b]
  show ?thesis unfolding heap_ok_def b snd_conv using step(1,2,3) h(1) by (intro conjI)
qed

context fd_table
begin

lemma sys_close_ok: "ok t \<Longrightarrow> ok (snd (sys_close ops fd t))"
  using close_file_like_some [of t fd] close_file_like_none [of t fd]
  by (cases "get_file_like ops t fd") (auto simp: sys_close_def)

lemma dup_fd_ok: "ok t \<Longrightarrow> ok (snd (dup_fd ops fd t))"
  using dup_fd_spec [of t fd] by (cases "get_file_like ops t fd") (auto split: if_splits)

lemma sys_fcntl_ok: "ok t \<Longrightarrow> ok (snd (snd (sys_fcntl K ops fd cmd arg t)))"
  using dup_fd_ok [of t fd] by (auto simp: sys_fcntl_def split: sum.split prod.splits)

lemma sys_pipe2_ok:
  assumes "ok t"
  shows "\<exists>r t'. sys_pipe2 ops p i t = Done r t' \<and> ok t'"
  using sys_pipe2_cases [OF assms, of i] assms
  by (cases p) (auto simp: sys_pipe2_def [of ops "Inl e" for e] split: if_splits)

lemma sys_dup2_ok:
  assumes "ok t"
  shows "if (\<exists>f. get_file_like ops t old_fd = Inr f) \<and> AX_FILE_LIMIT \<le> unat (c_int_as_usize new_fd)
    then sys_dup2 ops old_fd new_fd t = Panic
    else \<exists>r t'. sys_dup2 ops old_fd new_fd t = Done r t' \<and> ok t'"
proof (cases "get_file_like ops t old_fd")
  case (Inl e)
  then show ?thesis using assms by (simp add: sys_dup2_def get_file_like_def)
next
  case (Inr f)
  then have got: "fo_get ops t (c_int_as_usize old_fd) = Some f" by (simp add: get_file_like_def)
  show ?thesis
  proof (cases "old_fd = new_fd")
    case True
    have "sys_dup2 ops old_fd new_fd t = Done (Inr (scast new_fd)) t"
      unfolding sys_dup2_def got using True by simp
    with get_bound [OF assms got] assms True show ?thesis by simp
  next
    case False
    then show ?thesis using sys_dup2_cases [OF assms Inr False] Inr by (auto simp: not_less split: if_splits)
  qed
qed

end

lemma kernel_types_signature: "list_all (\<lambda>(h, ts). signature a h = Some ts) kernel_types"
proof (cases "a = X86_64")
  case True
  have "list_all (\<lambda>(h, ts). signature X86_64 h = Some ts) kernel_types" by code_simp
  then show ?thesis unfolding True .
next
  case False
  have "list_all (\<lambda>(h, ts). signature Riscv64 h = Some ts) kernel_types" by code_simp
  then show ?thesis unfolding signature_def enabled_not_x86 [OF False] .
qed

text \<open>
  The only ways in which one of these calls panics: \<^verbatim>\<open>dup2\<close> of an open descriptor to a number outside
  the table, and \<^verbatim>\<open>getppid\<close> of a process without a parent.
\<close>

definition kernel_panics :: "kernel_env \<Rightarrow> 't fd_ops \<Rightarrow> string \<Rightarrow> arg list \<Rightarrow> 't kstate \<Rightarrow> bool" where
  "kernel_panics E ops h args s =
     (if h = ''sys_dup2'' then
        (case args of
           [A_i32 old_fd, A_i32 new_fd] \<Rightarrow>
             \<not> isl (get_file_like ops (ks_fds s) old_fd) \<and> AX_FILE_LIMIT \<le> unat (c_int_as_usize new_fd)
         | _ \<Rightarrow> False)
      else h = ''sys_getppid'' \<and> ke_parent E = None)"

definition kernel_inv :: "('t \<Rightarrow> bool) \<Rightarrow> usize \<Rightarrow> usize \<Rightarrow> 't kstate \<Rightarrow> bool" where
  "kernel_inv ok base hsz s \<longleftrightarrow> ok (ks_fds s) \<and> heap_ok base hsz (ks_data s)"

definition step_ok :: "('t \<Rightarrow> bool) \<Rightarrow> usize \<Rightarrow> usize \<Rightarrow> (isize LinuxResult, TimeStat \<times> 't kstate) call \<Rightarrow> bool" where
  "step_ok ok base hsz c \<longleftrightarrow> (\<exists>r ts s. c = Done r (ts, s) \<and> kernel_inv ok base hsz s)"

lemma typed_args:
  "map type_of args = [] \<longleftrightarrow> args = []"
  "map type_of args = [T_i32] \<longleftrightarrow> (\<exists>x. args = [A_i32 x])"
  "map type_of args = [T_usize] \<longleftrightarrow> (\<exists>x. args = [A_usize x])"
  "map type_of args = [T_i32, T_i32] \<longleftrightarrow> (\<exists>x y. args = [A_i32 x, A_i32 y])"
  "map type_of args = [T_ptr, T_i32] \<longleftrightarrow> (\<exists>x y. args = [A_ptr x, A_i32 y])"
  "map type_of args = [T_i32, T_i32, T_usize] \<longleftrightarrow> (\<exists>x y z. args = [A_i32 x, A_i32 y, A_usize z])"
  by (auto simp: map_eq_Cons_conv elim!: type_of.elims)

lemma kernel_body_fds:
  "kernel_body E ops ''sys_close'' [A_i32 fd] = on_fds (sys_close ops fd)"
  "kernel_body E ops ''sys_dup'' [A_i32 fd] = on_fds (sys_dup ops fd)"
  "kernel_body E ops ''sys_dup2'' [A_i32 fd, A_i32 new_fd] = on_fds_call (sys_dup2 ops fd new_fd)"
  "kernel_body E ops ''sys_fcntl'' [A_i32 fd, A_i32 cmd, A_usize arg]
   = on_fds (\<lambda>t. case sys_fcntl (ke_fcntl E) ops fd cmd arg t of (r, _, t') \<Rightarrow> (r, t'))"
  "kernel_body E ops ''sys_pipe2'' [A_ptr p, A_i32 flags] = kernel_pipe2 E ops p flags"
  by (rule ext, simp add: kernel_body_def kernel_table_def)+

lemma kernel_body_ids:
  "kernel_body E ops ''sys_brk'' [A_usize p] = kernel_brk E p"
  "kernel_body E ops ''sys_set_tid_address'' [A_usize p] = kernel_set_tid_address E p"
  "kernel_body E ops ''sys_getpid'' [] = Done (sys_getpid (ke_thread E))"
  "kernel_body E ops ''sys_gettid'' [] = Done (sys_gettid (ke_task_id E))"
  "kernel_body E ops ''sys_getppid'' [] = (case sys_getppid (ke_parent E) of None \<Rightarrow> \<lambda>_. Panic | Some r \<Rightarrow> Done r)"
  "kernel_body E ops ''sys_getuid'' [] = Done sys_getuid" "kernel_body E ops ''sys_geteuid'' [] = Done sys_geteuid"
  "kernel_body E ops ''sys_getgid'' [] = Done sys_getgid" "kernel_body E ops ''sys_getegid'' [] = Done sys_getegid"
  by (rule ext, simp add: kernel_body_def kernel_table_def)+

lemma kernel_call_cases:
  assumes "(h, types) \<in> set kernel_types"
  obtains (close) "h = ''sys_close''" "types = [T_i32]"
    | (dup) "h = ''sys_dup''" "types = [T_i32]"
    | (dup2) "h = ''sys_dup2''" "types = [T_i32, T_i32]"
    | (fcntl) "h = ''sys_fcntl''" "types = [T_i32, T_i32, T_usize]"
    | (pipe2) "h = ''sys_pipe2''" "types = [T_ptr, T_i32]"
    | (brk) "h = ''sys_brk''" "types = [T_usize]"
    | (tid) "h = ''sys_set_tid_address''" "types = [T_usize]"
    | (getppid) "h = ''sys_getppid''" "types = []"
    | (ids) "h \<in> {''sys_getpid'', ''sys_gettid'', ''sys_getuid'', ''sys_geteuid'', ''sys_getgid'', ''sys_getegid''}" "types = []"
  using assms unfolding kernel_types_def list.set
  by - (elim insertE emptyE Pair_inject;
      (erule (1) close | erule (1) dup | erule (1) dup2 | erule (1) fcntl | erule (1) pipe2 | erule (1) brk
        | erule (1) tid | erule (1) getppid | (rule ids; simp)))

context fd_table
begin

lemma on_fds_step: "ok (snd (f (ks_fds s))) \<Longrightarrow> kernel_inv ok base hsz s \<Longrightarrow> step_ok ok base hsz (on_fds f (ts, s))"
  by (auto simp: step_ok_def on_fds_def kernel_inv_def split: prod.split)

lemma kernel_brk_step:
  "unat base + unat (ke_heap_size E) < 2 ^ 64 \<Longrightarrow> kernel_inv ok base (ke_heap_size E) s \<Longrightarrow>
   step_ok ok base (ke_heap_size E) (kernel_brk E addr (ts, s))"
  using sys_brk_heap_ok [of base "ke_heap_size E" "ks_data s" addr]
  by (auto simp: step_ok_def kernel_brk_def kernel_inv_def split: prod.split)

lemma kernel_pipe2_step:
  assumes "kernel_inv ok base hsz s"
  shows "step_ok ok base hsz (kernel_pipe2 E ops fds flags (ts, s))"
proof -
  from sys_pipe2_ok [of "ks_fds s" "ke_pointer E fds" "ks_pipes s"] assms obtain r t' where
    "sys_pipe2 ops (ke_pointer E fds) (ks_pipes s) (ks_fds s) = Done r t'" "ok t'"
    by (auto simp: kernel_inv_def)
  then show ?thesis using assms by (simp add: step_ok_def kernel_pipe2_def kernel_inv_def)
qed

lemma kernel_dup2_step:
  assumes "kernel_inv ok base hsz s"
  shows "if kernel_panics E ops ''sys_dup2'' [A_i32 old_fd, A_i32 new_fd] s
    then on_fds_call (sys_dup2 ops old_fd new_fd) (ts, s) = Panic
    else step_ok ok base hsz (on_fds_call (sys_dup2 ops old_fd new_fd) (ts, s))"
  using sys_dup2_ok [of "ks_fds s" old_fd new_fd] assms
  by (cases "get_file_like ops (ks_fds s) old_fd")
    (auto simp: kernel_panics_def on_fds_call_def step_ok_def kernel_inv_def split: if_splits)

lemma kernel_body_ok:
  assumes "unat base + unat (ke_heap_size E) < 2 ^ 64" "kernel_inv ok base (ke_heap_size E) s"
  shows "step_ok ok base (ke_heap_size E) (kernel_body E ops ''sys_close'' [A_i32 fd] (ts, s))"
    "step_ok ok base (ke_heap_size E) (kernel_body E ops ''sys_dup'' [A_i32 fd] (ts, s))"
    "step_ok ok base (ke_heap_size E) (kernel_body E ops ''sys_fcntl'' [A_i32 fd, A_i32 cmd, A_usize arg] (ts, s))"
    "step_ok ok base (ke_heap_size E) (kernel_body E ops ''sys_pipe2'' [A_ptr p, A_i32 flags] (ts, s))"
    "step_ok ok base (ke_heap_size E) (kernel_body E ops ''sys_brk'' [A_usize p] (ts, s))"
    "step_ok ok base (ke_heap_size E) (kernel_body E ops ''sys_set_tid_address'' [A_usize p] (ts, s))"
    "step_ok ok base (ke_heap_size E) (Done r (ts, s))"
proof -
  have ok: "ok (ks_fds s)" using assms(2) by (simp add: kernel_inv_def)
  have "ok (snd (case sys_fcntl (ke_fcntl E) ops fd cmd arg (ks_fds s) of (r, _, t') \<Rightarrow> (r, t')))"
    using sys_fcntl_ok [OF ok, of "ke_fcntl E" fd cmd arg]
    by (cases "sys_fcntl (ke_fcntl E) ops fd cmd arg (ks_fds s)") simp
  then show "step_ok ok base (ke_heap_size E) (kernel_body E ops ''sys_fcntl'' [A_i32 fd, A_i32 cmd, A_usize arg] (ts, s))"
    unfolding kernel_body_fds by (rule on_fds_step) (rule assms(2))
  show "step_ok ok base (ke_heap_size E) (kernel_body E ops ''sys_close'' [A_i32 fd] (ts, s))"
    "step_ok ok base (ke_heap_size E) (kernel_body E ops ''sys_dup'' [A_i32 fd] (ts, s))"
    unfolding kernel_body_fds sys_dup_def
    by (rule on_fds_step, (rule sys_close_ok dup_fd_ok, rule ok), rule assms(2))+
  show "step_ok ok base (ke_heap_size E) (kernel_body E ops ''sys_pipe2'' [A_ptr p, A_i32 flags] (ts, s))"
    unfolding kernel_body_fds by (rule kernel_pipe2_step [OF assms(2)])
  show "step_ok ok base (ke_heap_size E) (kernel_body E ops ''sys_brk'' [A_usize p] (ts, s))"
    unfolding kernel_body_ids by (rule kernel_brk_step [OF assms])
  show "step_ok ok base (ke_heap_size E) (kernel_body E ops ''sys_set_tid_address'' [A_usize p] (ts, s))"
    "step_ok ok base (ke_heap_size E) (Done r (ts, s))"
    using assms(2)
    by (simp_all add: kernel_body_ids step_ok_def kernel_set_tid_address_def sys_set_tid_address_def kernel_inv_def)
qed

lemma kernel_body_step:
  assumes "(h, types) \<in> set kernel_types" "map type_of args = types"
    and "unat base + unat (ke_heap_size E) < 2 ^ 64" "kernel_inv ok base (ke_heap_size E) s"
  shows "if kernel_panics E ops h args s then kernel_body E ops h args (ts, s) = Panic
    else step_ok ok base (ke_heap_size E) (kernel_body E ops h args (ts, s))"
proof -
  note ok = kernel_body_ok [OF assms(3,4)]
  have quiet: ?thesis if "h \<noteq> ''sys_dup2''" "h \<noteq> ''sys_getppid''" "step_ok ok base (ke_heap_size E) (kernel_body E ops h args (ts, s))"
    using that by (simp add: kernel_panics_def)
  from assms(1) show ?thesis
  proof (cases rule: kernel_call_cases)
    case dup2
    from assms(2) [unfolded dup2(2) typed_args] obtain x y where "args = [A_i32 x, A_i32 y]" by blast
    with dup2(1) kernel_dup2_step [OF assms(4), of E x y ts] show ?thesis by (simp only: kernel_body_fds)
  next
    case getppid
    from assms(2) [unfolded getppid(2) typed_args] have "args = []" .
    with getppid(1) ok(7) show ?thesis
      by (cases "ke_parent E") (simp_all add: kernel_panics_def kernel_body_ids sys_getppid_def)
  next
    case ids
    from assms(2) [unfolded ids(2) typed_args] have args: "args = []" .
    from ids(1) have "\<exists>r. kernel_body E ops h [] = Done r"
      by (elim insertE emptyE; hypsubst; simp only: kernel_body_ids; blast)
    with ok(7) ids(1) args show ?thesis by (intro quiet) auto
  next
    case close
    from assms(2) [unfolded close(2) typed_args] obtain fd where "args = [A_i32 fd]" by blast
    with close(1) show ?thesis by (intro quiet) (simp_all add: ok)
  next
    case dup
    from assms(2) [unfolded dup(2) typed_args] obtain fd where "args = [A_i32 fd]" by blast
    with dup(1) show ?thesis by (intro quiet) (simp_all add: ok)
  next
    case fcntl
    from assms(2) [unfolded fcntl(2) typed_args] obtain fd cmd arg where "args = [A_i32 fd, A_i32 cmd, A_usize arg]" by blast
    with fcntl(1) show ?thesis by (intro quiet) (simp_all add: ok)
  next
    case pipe2
    from assms(2) [unfolded pipe2(2) typed_args] obtain p flags where "args = [A_ptr p, A_i32 flags]" by blast
    with pipe2(1) show ?thesis by (intro quiet) (simp_all add: ok)
  next
    case brk
    from assms(2) [unfolded brk(2) typed_args] obtain p where "args = [A_usize p]" by blast
    with brk(1) show ?thesis by (intro quiet) (simp_all add: ok)
  next
    case tid
    from assms(2) [unfolded tid(2) typed_args] obtain p where "args = [A_usize p]" by blast
    with tid(1) show ?thesis by (intro quiet) (simp_all add: ok)
  qed
qed

end

section \<open>The states a program can reach\<close>

definition syscall_args :: "arch \<Rightarrow> (nat \<Rightarrow> usize) \<Rightarrow> string \<Rightarrow> arg_expr list \<Rightarrow> arg list" where
  "syscall_args a regs h es = the (Option.bind (signature a h) (\<lambda>ts. arg_values regs ts es))"

lemma kernel_syscall_step:
  assumes "fd_table ops ok" "unat base + unat (ke_heap_size E) < 2 ^ 64"
    and "kernel_inv ok base (ke_heap_size E) s" "sysno (ucast num) = Some name" "kernel_call a name"
    and run: "run = handle_syscall a sysno code (kernel_body E ops) t0 t1 regs num (ts, s)"
  shows "case dispatch a name of
      None \<Rightarrow> \<exists>ts'. run = Done (encode_result code (Inl ENOSYS)) (ts', s)
    | Some (h, es) \<Rightarrow>
        if kernel_panics E ops h (syscall_args a regs h es) s then run = Panic
        else \<exists>x ts' s'. run = Done x (ts', s') \<and> kernel_inv ok base (ke_heap_size E) s'"
proof (cases "dispatch a name")
  case None
  then show ?thesis using handle_syscall_unknown [of sysno num name a code _ t0 t1 regs ts s, OF assms(4) None] run by simp
next
  case (Some he)
  obtain h es where he: "he = (h, es)" by fastforce
  obtain types args where v: "signature a h = Some types" "arg_values regs types es = Some args" "map type_of args = types"
    "run = finish_syscall code t1 (kernel_body E ops h args (time_stat_from_user_to_kernel t0 ts, s))"
    by (rule handle_syscall_known [of sysno num name a h es regs code "kernel_body E ops" t0 t1 ts s, OF assms(4) Some [unfolded he]])
      (simp add: run)
  from assms(5) Some he obtain types' where "(h, types') \<in> set kernel_types"
    by (auto simp: kernel_call_def dest: map_of_SomeD)
  moreover from this have "types' = types"
    using kernel_types_signature [of a] v(1) by (auto simp: list_all_iff)
  ultimately have mem: "(h, types) \<in> set kernel_types" by simp
  have args: "syscall_args a regs h es = args" using v(1,2) by (simp add: syscall_args_def)
  from fd_table.kernel_body_step [OF assms(1) mem v(3) assms(2,3), of "time_stat_from_user_to_kernel t0 ts"]
  show ?thesis unfolding Some he option.case prod.case args v(4)
    by (auto simp: step_ok_def finish_syscall_def split: if_splits)
qed

lemma kernel_reachable_inv:
  assumes "kernel_reachable a sysno code E ops init st" "fd_table ops ok" "unat base + unat (ke_heap_size E) < 2 ^ 64"
    and "kernel_inv ok base (ke_heap_size E) (snd init)"
  shows "kernel_inv ok base (ke_heap_size E) (snd st)"
  using assms(1)
proof induction
  case start
  show ?case by (rule assms(4))
next
  case (syscall st num name t0 t1 regs x st')
  note step = kernel_syscall_step [of ops ok base E "snd st" sysno num name a "Done x st'" code t0 t1 regs "fst st",
      OF assms(2,3) syscall.IH syscall.hyps(2,3)]
  have "Done x st' = handle_syscall a sysno code (kernel_body E ops) t0 t1 regs num (fst st, snd st)"
    by (simp add: syscall.hyps(4))
  from step [OF this] syscall.IH show ?case by (auto split: option.splits if_splits)
qed


definition small_env :: kernel_env where
  "small_env = \<lparr>ke_fcntl = \<lparr>F_DUPFD = 0, F_DUPFD_CLOEXEC = 1030, F_SETFL = 4, O_NONBLOCK = 2048\<rparr>,
     ke_heap_size = 0x10000, ke_thread = \<lparr>tv_tid = 7, tv_pid = 7, tv_pgid = 7, tv_sid = 7\<rparr>, ke_task_id = 7,
     ke_parent = Some 1, ke_pointer = (\<lambda>_. Inr ())\<rparr>"

definition small_state :: "(usize \<rightharpoonup> file_like) kstate" where
  "small_state = \<lparr>ks_fds = [0 \<mapsto> FL_Stdin], ks_data = ProcessData_new 0x40000000 [] Copied DefaultActions None,
     ks_clear_child_tid = 0, ks_pipes = 0\<rparr>"


end
