(* ===== verification/User_Lib.thy ===== *)
theory User_Lib
  imports Dispatch Tasks
begin

text \<open>
  The Rust user library of the test programs (\<^verbatim>\<open>apps/nimbos/rust/src\<close>): the call numbers, the trap
  into the kernel, the wrappers of the system calls, threads, time and the console. At the end the
  library meets the kernel: what \<^verbatim>\<open>fork\<close>, \<^verbatim>\<open>wait\<close> and \<^verbatim>\<open>sleep\<close> of a program do when the entry of
  theory \<open>Dispatch\<close> and the calls of theory \<open>Tasks\<close> serve them.
\<close>

section \<open>Call numbers\<close>

definition SYSCALL_READ :: "arch \<Rightarrow> usize" where
  "SYSCALL_READ a = (if a = X86_64 then 0 else 63)"

definition SYSCALL_WRITE :: "arch \<Rightarrow> usize" where
  "SYSCALL_WRITE a = (if a = X86_64 then 1 else 64)"

definition SYSCALL_YIELD :: "arch \<Rightarrow> usize" where
  "SYSCALL_YIELD a = (if a = X86_64 then 24 else 124)"

definition SYSCALL_GETPID :: "arch \<Rightarrow> usize" where
  "SYSCALL_GETPID a = (if a = X86_64 then 39 else 172)"

definition SYSCALL_CLONE :: "arch \<Rightarrow> usize" where
  "SYSCALL_CLONE a = (if a = X86_64 then 56 else 220)"

definition SYSCALL_FORK :: "arch \<Rightarrow> usize" where
  "SYSCALL_FORK a = (if a = X86_64 then 57 else 220)"

definition SYSCALL_EXEC :: "arch \<Rightarrow> usize" where
  "SYSCALL_EXEC a = (if a = X86_64 then 59 else 221)"

definition SYSCALL_EXIT :: "arch \<Rightarrow> usize" where
  "SYSCALL_EXIT a = (if a = X86_64 then 60 else 93)"

definition SYSCALL_WAITPID :: "arch \<Rightarrow> usize" where
  "SYSCALL_WAITPID a = (if a = X86_64 then 61 else 260)"

definition SYSCALL_CLOCK_GETTIME :: "arch \<Rightarrow> usize" where
  "SYSCALL_CLOCK_GETTIME a = (if a = X86_64 then 228 else 403)"

definition SYSCALL_CLOCK_NANOSLEEP :: "arch \<Rightarrow> usize" where
  "SYSCALL_CLOCK_NANOSLEEP a = (if a = X86_64 then 230 else 407)"

section \<open>The trap into the kernel\<close>

text \<open>
  The machine a program runs on: the trap with the contents of the argument registers and the call
  number, what the registers hold that a call does not set, and the program's memory by words
  and bytes.
\<close>

record 's machine =
  mc_trap :: "(nat \<Rightarrow> usize) \<Rightarrow> usize \<Rightarrow> 's \<Rightarrow> (isize, 's) call"
  mc_reg :: "nat \<Rightarrow> usize"
  mc_word :: "usize \<Rightarrow> 's \<Rightarrow> usize"
  mc_put_word :: "usize \<Rightarrow> usize \<Rightarrow> 's \<Rightarrow> 's"
  mc_byte :: "usize \<Rightarrow> 's \<Rightarrow> u8"
  mc_put_byte :: "usize \<Rightarrow> u8 \<Rightarrow> 's \<Rightarrow> 's"

definition set_args :: "usize \<times> usize \<times> usize \<Rightarrow> (nat \<Rightarrow> usize) \<Rightarrow> nat \<Rightarrow> usize" where
  "set_args args reg = (case args of (x, y, z) \<Rightarrow> reg(0 := x, 1 := y, 2 := z))"

definition syscall :: "'s machine \<Rightarrow> usize \<Rightarrow> usize \<times> usize \<times> usize \<Rightarrow> 's \<Rightarrow> (isize, 's) call" where
  "syscall M n args = mc_trap M (set_args args (mc_reg M)) n"

text \<open>
  \<^verbatim>\<open>sys_clone\<close> aligns the new stack, saves the argument there (and the entry, except on x86, which
  keeps it in a register) and traps with the new stack pointer as first argument; the second and third
  register still hold \<open>arg\<close> and the new stack pointer. The result is what the parent returns;
  \<open>None\<close> is the panic of \<^verbatim>\<open>unimplemented!()\<close>.
\<close>

definition user_sys_clone :: "arch \<Rightarrow> 's machine \<Rightarrow> usize \<Rightarrow> usize \<Rightarrow> usize \<Rightarrow> 's \<Rightarrow> (isize option, 's) call" where
  "user_sys_clone a M entry arg newsp st =
     (if a = Loongarch64 then Done None st
      else if a = X86_64 then
        let sp = (newsp AND - 16) - 8
        in map_call Some id (syscall M (SYSCALL_CLONE a) (sp, arg, sp) (mc_put_word M sp arg st))
      else
        let sp = (newsp AND - 16) - 16
        in map_call Some id
             (syscall M (SYSCALL_CLONE a) (sp, arg, sp) (mc_put_word M (sp + 8) arg (mc_put_word M sp entry st))))"

section \<open>Wrappers\<close>

text \<open>A slice is passed as its address and length.\<close>

definition user_sys_read :: "arch \<Rightarrow> 's machine \<Rightarrow> usize \<Rightarrow> usize \<times> usize \<Rightarrow> 's \<Rightarrow> (isize, 's) call" where
  "user_sys_read a M fd buffer = syscall M (SYSCALL_READ a) (fd, fst buffer, snd buffer)"

definition user_sys_write :: "arch \<Rightarrow> 's machine \<Rightarrow> usize \<Rightarrow> usize \<times> usize \<Rightarrow> 's \<Rightarrow> (isize, 's) call" where
  "user_sys_write a M fd buffer = syscall M (SYSCALL_WRITE a) (fd, fst buffer, snd buffer)"

text \<open>\<^verbatim>\<open>sys_exit\<close> panics if the trap returns.\<close>

definition user_sys_exit :: "arch \<Rightarrow> 's machine \<Rightarrow> i32 \<Rightarrow> 's \<Rightarrow> ('r option, 's) call" where
  "user_sys_exit a M exit_code st = map_call (\<lambda>_. None) id (syscall M (SYSCALL_EXIT a) (scast exit_code, 0, 0) st)"

definition user_sys_yield :: "arch \<Rightarrow> 's machine \<Rightarrow> 's \<Rightarrow> (isize, 's) call" where
  "user_sys_yield a M = syscall M (SYSCALL_YIELD a) (0, 0, 0)"

definition user_sys_getpid :: "arch \<Rightarrow> 's machine \<Rightarrow> 's \<Rightarrow> (isize, 's) call" where
  "user_sys_getpid a M = syscall M (SYSCALL_GETPID a) (0, 0, 0)"

definition user_sys_fork :: "arch \<Rightarrow> 's machine \<Rightarrow> 's \<Rightarrow> (isize, 's) call" where
  "user_sys_fork a M = syscall M (SYSCALL_FORK a) (0, 0, 0)"

definition user_sys_exec :: "arch \<Rightarrow> 's machine \<Rightarrow> usize \<Rightarrow> 's \<Rightarrow> (isize, 's) call" where
  "user_sys_exec a M path = syscall M (SYSCALL_EXEC a) (path, 0, 0)"

definition user_sys_waitpid :: "arch \<Rightarrow> 's machine \<Rightarrow> isize \<Rightarrow> usize \<Rightarrow> u32 \<Rightarrow> 's \<Rightarrow> (isize, 's) call" where
  "user_sys_waitpid a M pid exit_code options = syscall M (SYSCALL_WAITPID a) (pid, exit_code, ucast options)"

definition user_sys_clock_gettime :: "arch \<Rightarrow> 's machine \<Rightarrow> u32 \<Rightarrow> usize \<Rightarrow> 's \<Rightarrow> (isize, 's) call" where
  "user_sys_clock_gettime a M clk req = syscall M (SYSCALL_CLOCK_GETTIME a) (ucast clk, req, 0)"

definition user_sys_clock_nanosleep :: "arch \<Rightarrow> 's machine \<Rightarrow> u32 \<Rightarrow> u32 \<Rightarrow> usize \<Rightarrow> 's \<Rightarrow> (isize, 's) call" where
  "user_sys_clock_nanosleep a M clk flags req =
     syscall M (SYSCALL_CLOCK_NANOSLEEP a) (ucast clk, ucast flags, req)"

text \<open>The functions of \<^verbatim>\<open>lib.rs\<close>.\<close>

definition user_read :: "arch \<Rightarrow> 's machine \<Rightarrow> usize \<Rightarrow> usize \<times> usize \<Rightarrow> 's \<Rightarrow> (isize, 's) call" where
  "user_read = user_sys_read"

definition user_write :: "arch \<Rightarrow> 's machine \<Rightarrow> usize \<Rightarrow> usize \<times> usize \<Rightarrow> 's \<Rightarrow> (isize, 's) call" where
  "user_write = user_sys_write"

definition user_exit :: "arch \<Rightarrow> 's machine \<Rightarrow> i32 \<Rightarrow> 's \<Rightarrow> ('r option, 's) call" where
  "user_exit = user_sys_exit"

definition user_sched_yield :: "arch \<Rightarrow> 's machine \<Rightarrow> 's \<Rightarrow> (isize, 's) call" where
  "user_sched_yield = user_sys_yield"

definition user_getpid :: "arch \<Rightarrow> 's machine \<Rightarrow> 's \<Rightarrow> (isize, 's) call" where
  "user_getpid = user_sys_getpid"

definition user_fork :: "arch \<Rightarrow> 's machine \<Rightarrow> 's \<Rightarrow> (isize, 's) call" where
  "user_fork = user_sys_fork"

definition user_exec :: "arch \<Rightarrow> 's machine \<Rightarrow> usize \<Rightarrow> 's \<Rightarrow> (isize, 's) call" where
  "user_exec = user_sys_exec"

definition user_waitpid :: "arch \<Rightarrow> 's machine \<Rightarrow> isize \<Rightarrow> usize option \<Rightarrow> u32 \<Rightarrow> 's \<Rightarrow> (isize, 's) call" where
  "user_waitpid a M pid exit_code options =
     (let exit_code_ptr = (case exit_code of None \<Rightarrow> 0 | Some e \<Rightarrow> e)
      in user_sys_waitpid a M pid exit_code_ptr options)"

definition user_wait :: "arch \<Rightarrow> 's machine \<Rightarrow> usize option \<Rightarrow> 's \<Rightarrow> (isize, 's) call" where
  "user_wait a M exit_code = user_waitpid a M (- 1) exit_code 0"

text \<open>
  \<^verbatim>\<open>_start\<close> runs \<^verbatim>\<open>main\<close> and exits with its result. \<open>Done None\<close> is a panic of the program.
\<close>

definition user_start :: "arch \<Rightarrow> 's machine \<Rightarrow> ('s \<Rightarrow> (i32 option, 's) call) \<Rightarrow> 's \<Rightarrow> ('r option, 's) call" where
  "user_start a M main st =
     (case main st of
        Panic \<Rightarrow> Panic
      | Pending s \<Rightarrow> Pending s
      | Done None s \<Rightarrow> Done None s
      | Done (Some r) s \<Rightarrow> user_exit a M r s)"

text \<open>
  Threads. The stacks lie one after the other from \<open>stacks\<close> on; the counter of the threads is part of
  the argument and the result. Indexing past the last stack panics.
\<close>

definition MAX_THREADS :: nat where
  "MAX_THREADS = 16"

definition THREAD_STACK_SIZE :: usize where
  "THREAD_STACK_SIZE = 4096 * 4"

definition thread_stack_end :: "usize \<Rightarrow> nat \<Rightarrow> usize" where
  "thread_stack_end stacks thread_id = stacks + of_nat (thread_id + 1) * THREAD_STACK_SIZE"

definition thread_spawn ::
  "arch \<Rightarrow> 's machine \<Rightarrow> usize \<Rightarrow> usize \<Rightarrow> usize \<Rightarrow> nat \<Rightarrow> 's \<Rightarrow> nat \<times> (isize option, 's) call" where
  "thread_spawn a M stacks entry arg THREAD_COUNT st =
     (let thread_id = THREAD_COUNT
      in (THREAD_COUNT + 1,
          if thread_id < MAX_THREADS then user_sys_clone a M entry arg (thread_stack_end stacks thread_id) st
          else Done None st))"

section \<open>Time\<close>

text \<open>A \<^verbatim>\<open>TimeSpec\<close> at an address: the seconds, then the nanoseconds.\<close>

definition CLOCK_REALTIME :: u32 where
  "CLOCK_REALTIME = 0"

definition put_TimeSpec :: "'s machine \<Rightarrow> usize \<Rightarrow> usize \<Rightarrow> usize \<Rightarrow> 's \<Rightarrow> 's" where
  "put_TimeSpec M p sec nsec st = mc_put_word M (p + 8) nsec (mc_put_word M p sec st)"

definition user_clock_gettime :: "arch \<Rightarrow> 's machine \<Rightarrow> u32 \<Rightarrow> usize \<Rightarrow> 's \<Rightarrow> (isize, 's) call" where
  "user_clock_gettime = user_sys_clock_gettime"

definition get_time_us :: "arch \<Rightarrow> 's machine \<Rightarrow> usize \<Rightarrow> 's \<Rightarrow> (isize, 's) call" where
  "get_time_us a M req st =
     (case user_clock_gettime a M CLOCK_REALTIME req (put_TimeSpec M req 0 0 st) of
        Panic \<Rightarrow> Panic
      | Pending s \<Rightarrow> Pending s
      | Done ret s \<Rightarrow>
          Done (if sint ret < 0 then ret
                else mc_word M req s * 1000000 + mc_word M (req + 8) s div 1000) s)"

definition user_clock_nanosleep :: "arch \<Rightarrow> 's machine \<Rightarrow> u32 \<Rightarrow> u32 \<Rightarrow> usize \<Rightarrow> 's \<Rightarrow> (isize, 's) call" where
  "user_clock_nanosleep = user_sys_clock_nanosleep"

definition user_nanosleep :: "arch \<Rightarrow> 's machine \<Rightarrow> usize \<Rightarrow> 's \<Rightarrow> (isize, 's) call" where
  "user_nanosleep a M req = user_clock_nanosleep a M CLOCK_REALTIME 0 req"

definition usleep :: "arch \<Rightarrow> 's machine \<Rightarrow> usize \<Rightarrow> usize \<Rightarrow> 's \<Rightarrow> (isize, 's) call" where
  "usleep a M req useconds st =
     user_nanosleep a M req (put_TimeSpec M req (useconds div 1000000) (useconds mod 1000000 * 1000) st)"

definition user_sleep :: "arch \<Rightarrow> 's machine \<Rightarrow> usize \<Rightarrow> usize \<Rightarrow> 's \<Rightarrow> (isize, 's) call" where
  "user_sleep a M tv seconds st =
     map_call (\<lambda>ret. if ret \<noteq> 0 then seconds else 0) id
       (user_nanosleep a M tv (put_TimeSpec M tv seconds 0 st))"

section \<open>Console\<close>

definition STDIN :: usize where
  "STDIN = 0"

definition STDOUT :: usize where
  "STDOUT = 1"

text \<open>The result of the write is ignored.\<close>

definition Stdout_write_str :: "arch \<Rightarrow> 's machine \<Rightarrow> usize \<times> usize \<Rightarrow> 's \<Rightarrow> (unit, 's) call" where
  "Stdout_write_str a M s st = map_call (\<lambda>_. ()) id (user_write a M STDOUT s st)"

text \<open>
  \<^verbatim>\<open>print\<close> writes the pieces into which the formatting of the standard library splits its arguments; the
  unwrap behind it never fails, as no piece reports an error. The panic handler prints and exits with 1.
\<close>

fun print :: "arch \<Rightarrow> 's machine \<Rightarrow> (usize \<times> usize) list \<Rightarrow> 's \<Rightarrow> (unit, 's) call" where
  "print a M [] st = Done () st"
| "print a M (piece # pieces) st =
     (case Stdout_write_str a M piece st of
        Panic \<Rightarrow> Panic
      | Pending s \<Rightarrow> Pending s
      | Done _ s \<Rightarrow> print a M pieces s)"

definition panic_handler :: "arch \<Rightarrow> 's machine \<Rightarrow> (usize \<times> usize) list \<Rightarrow> 's \<Rightarrow> ('r option, 's) call" where
  "panic_handler a M message st =
     (case print a M message st of
        Panic \<Rightarrow> Panic
      | Pending s \<Rightarrow> Pending s
      | Done _ s \<Rightarrow> user_exit a M 1 s)"

text \<open>\<^verbatim>\<open>getchar\<close> reads into a cleared byte at \<open>c\<close>.\<close>

definition getchar :: "arch \<Rightarrow> 's machine \<Rightarrow> usize \<Rightarrow> 's \<Rightarrow> (u8, 's) call" where
  "getchar a M c st =
     (case user_read a M STDIN (c, 1) (mc_put_byte M c 0 st) of
        Panic \<Rightarrow> Panic
      | Pending s \<Rightarrow> Pending s
      | Done _ s \<Rightarrow> Done (mc_byte M c s) s)"

text \<open>A write that fails does not end the printing: every piece is written, whatever the kernel answers.\<close>

lemma print_completes:
  assumes "\<And>p st. \<exists>r st'. user_write a M STDOUT p st = Done r st'"
  shows "\<exists>st'. print a M pieces st = Done () st'"
proof (induction pieces arbitrary: st)
  case (Cons p pieces)
  obtain r st' where "user_write a M STDOUT p st = Done r st'" using assms by blast
  with Cons.IH [of st'] show ?case by (simp add: Stdout_write_str_def)
qed simp

section \<open>The library on the kernel\<close>

text \<open>
  What the \<^verbatim>\<open>syscalls\<close> crate names the numbers that the library uses. Linux has the numbers 403 and
  407 for the 64-bit time calls of 32-bit architectures only, so they have no name here.
\<close>

definition linux_numbers :: "arch \<Rightarrow> (u32 \<Rightarrow> string option) \<Rightarrow> bool" where
  "linux_numbers a sysno \<longleftrightarrow>
     (if a = X86_64 then
        sysno 0 = Some ''read'' \<and> sysno 1 = Some ''write'' \<and> sysno 24 = Some ''sched_yield'' \<and> sysno 39 = Some ''getpid'' \<and>
        sysno 56 = Some ''clone'' \<and> sysno 57 = Some ''fork'' \<and> sysno 59 = Some ''execve'' \<and> sysno 60 = Some ''exit'' \<and>
        sysno 61 = Some ''wait4'' \<and> sysno 228 = Some ''clock_gettime'' \<and> sysno 230 = Some ''clock_nanosleep''
      else
        sysno 63 = Some ''read'' \<and> sysno 64 = Some ''write'' \<and> sysno 124 = Some ''sched_yield'' \<and> sysno 172 = Some ''getpid'' \<and>
        sysno 220 = Some ''clone'' \<and> sysno 221 = Some ''execve'' \<and> sysno 93 = Some ''exit'' \<and>
        sysno 260 = Some ''wait4'' \<and> sysno 403 = None \<and> sysno 407 = None)"

text \<open>What the kernel knows of a process and its children, and the status words it has stored.\<close>

record process_world =
  pw_tables :: task_tables
  pw_children :: "child list"
  pw_status :: "usize \<rightharpoonup> i32"

definition spawned_child :: "clone_view \<Rightarrow> new_task \<Rightarrow> child list" where
  "spawned_child v nt =
     (case nt_process nt of
        Inl _ \<Rightarrow> []
      | Inr np \<Rightarrow>
          if np_parent np = cv_pid v then
            [\<lparr>c_pid = nt_tid nt, c_pgid = fst (cv_group v (np_parent np)), c_data = Some (pd_exit_signal (np_data np)),
              c_zombie = False, c_exit_code = 0, c_freed = False\<rparr>]
          else [])"

definition spawn :: "clone_view \<Rightarrow> isize LinuxResult \<times> clone_effect \<Rightarrow> TimeStat \<times> process_world \<Rightarrow>
    (isize LinuxResult, TimeStat \<times> process_world) call" where
  "spawn v run st =
     (case run of (r, eff) \<Rightarrow>
        Done r (fst st, (snd st)\<lparr>pw_tables := ce_tables eff,
          pw_children := pw_children (snd st) @ (case ce_spawned eff of None \<Rightarrow> [] | Some nt \<Rightarrow> spawned_child v nt)\<rparr>))"

text \<open>
  The calls of theory \<open>Tasks\<close> behind the entry. The last two arguments of \<^verbatim>\<open>sys_clone\<close> change places on
  x86 and LoongArch.
\<close>

definition process_body ::
  "arch \<Rightarrow> clone_abi \<Rightarrow> wait_abi \<Rightarrow> clone_view \<Rightarrow> (usize \<Rightarrow> unit LinuxResult) \<Rightarrow> (child list \<Rightarrow> child list) list \<Rightarrow>
     process_world body" where
  "process_body a K W v ptr sched h args st =
     (if h = ''sys_fork'' then spawn v (sys_fork K v (pw_tables (snd st))) st
      else if h = ''sys_clone'' then
        (case args of
           [A_frame, A_u32 flags, A_usize stack, A_usize parent_tid, A_usize x, A_usize y] \<Rightarrow>
             spawn v (if a = X86_64 \<or> a = Loongarch64
                      then sys_clone K flags stack parent_tid x y v (pw_tables (snd st))
                      else sys_clone K flags stack parent_tid y x v (pw_tables (snd st))) st
         | _ \<Rightarrow> Panic)
      else if h = ''sys_waitpid'' then
        (case args of
           [A_i32 pid, A_ptr p, A_u32 options] \<Rightarrow>
             (case sys_waitpid W pid (if p = 0 then Inr False else try_then (ptr p) (\<lambda>_. Inr True)) options
                     (fst (cv_group v (cv_pid v))) sched (pw_children (snd st)) of
                Panic \<Rightarrow> Panic
              | Pending _ \<Rightarrow> Pending st
              | Done (r, stored) cs \<Rightarrow>
                  Done r (fst st, (snd st)\<lparr>
                    pw_children := map (\<lambda>c. case find (\<lambda>d. c_pid d = c_pid c) cs of None \<Rightarrow> c | Some d \<Rightarrow> d)
                      (pw_children (snd st)),
                    pw_status := (case stored of None \<Rightarrow> pw_status (snd st) | Some n \<Rightarrow> (pw_status (snd st))(p \<mapsto> n))\<rparr>))
         | _ \<Rightarrow> Panic)
      else Panic)"

text \<open>
  A child carries out the actions of its exit: its exit code is the one its last thread exits with, and
  it becomes a zombie when its process exits.
\<close>

definition child_exits :: "Pid \<Rightarrow> exit_action list \<Rightarrow> process_world \<Rightarrow> process_world" where
  "child_exits pid acts w =
     w\<lparr>pw_children := map (\<lambda>c.
         if c_pid c = pid
         then fold (\<lambda>act c. case act of
                ThreadExit n \<Rightarrow> c\<lparr>c_exit_code := n\<rparr>
              | ProcessExit \<Rightarrow> c\<lparr>c_zombie := True\<rparr>
              | _ \<Rightarrow> c) acts c
         else c) (pw_children w)\<rparr>"

text \<open>
  The values of the constants that matter: every flag is a bit outside the byte of the signal, a process
  signal number is a byte and stands for the same signal on both sides, and 0 is no signal.
\<close>

definition process_abi :: "clone_abi \<Rightarrow> wait_abi \<Rightarrow> bool" where
  "process_abi K W \<longleftrightarrow> clone_flags_ok K \<and>
     0 \<notin> {CLONE_VM K, CLONE_FS K, CLONE_FILES K, CLONE_SIGHAND K, CLONE_PARENT K, CLONE_THREAD K, CLONE_SETTLS K,
       CLONE_PARENT_SETTID K, CLONE_CHILD_CLEARTID K, CLONE_CHILD_SETTID K, WNOHANG W, WALL W, WCLONE W, WNOWAIT W} \<and>
     clone_SIGCHLD K AND NOT 0xff = 0 \<and> Signo_from_repr K 0 = None \<and>
     Signo_from_repr K (ucast (clone_SIGCHLD K)) = Some (wait_SIGCHLD W)"

lemma handle_syscall_arm:
  assumes "sysno (ucast num) = Some name" "dispatch a name = Some (h, es)" "signature a h = Some types"
    and "arg_values regs types es = Some args"
  shows "handle_syscall a sysno code body t0 t1 regs num (ts, s)
    = finish_syscall code t1 (body h args (time_stat_from_user_to_kernel t0 ts, s))"
  using assms by (simp add: handle_syscall_def finish_syscall_def)

lemma process_arms:
  "dispatch X86_64 ''fork'' = Some (''sys_fork'', [Frame])" "signature X86_64 ''sys_fork'' = Some [T_frame]"
  "dispatch a ''clone'' = Some (''sys_clone'', [Frame, As 0, As 1, Plain 2, Plain 3, Plain 4])"
  "signature a ''sys_clone'' = Some [T_frame, T_u32, T_usize, T_usize, T_usize, T_usize]"
  "dispatch a ''wait4'' = Some (''sys_waitpid'', [As 0, Into 1, As 2])"
  "signature a ''sys_waitpid'' = Some [T_i32, T_ptr, T_u32]"
  "dispatch a ''clock_nanosleep'' = None"
  by (code_simp, code_simp, (cases a; hypsubst; code_simp)+)

lemma contains_zero: "contains 0 f \<longleftrightarrow> f = 0"
  by (auto simp: contains_def)

text \<open>The process that a flag word without flags makes.\<close>

lemma plain_clone:
  assumes "process_abi K W" "w AND NOT 0xff = 0" "cv_clone_aspace v = Inr ()"
  shows "\<exists>eff nt np. sys_clone K w stack ptid ctid tls v T = (Inr (ucast (cv_new_tid v)), eff)
    \<and> ce_spawned eff = Some nt \<and> nt_tid nt = cv_new_tid v \<and> nt_process nt = Inr np \<and> np_parent np = cv_pid v
    \<and> pd_exit_signal (np_data np) = Signo_from_repr K (ucast (w AND 0xff))"
proof -
  have f: "from_bits_truncate (CloneFlags_all K) (w AND NOT 0xff) = 0"
    unfolding assms(2) from_bits_truncate_def by simp
  have z: "CLONE_THREAD K \<noteq> 0" "CLONE_PARENT K \<noteq> 0" "CLONE_VM K \<noteq> 0" "CLONE_CHILD_SETTID K \<noteq> 0" "CLONE_PARENT_SETTID K \<noteq> 0"
    using assms(1) by (simp_all add: process_abi_def)
  then have n: "\<not> contains 0 (CLONE_THREAD K)" "\<not> contains 0 (CLONE_PARENT K)" "\<not> contains 0 (CLONE_VM K)"
    "\<not> contains 0 (CLONE_CHILD_SETTID K)" "\<not> contains 0 (CLONE_PARENT_SETTID K)"
    "\<not> contains 0 (CLONE_THREAD K OR CLONE_PARENT K)"
    by (simp_all add: contains_zero contains_or)
  show ?thesis
    unfolding sys_clone_def Let_def f
    by (simp add: n clone_process_def assms(3) ProcessData_new_def Let_def)
qed

definition kernel_serves :: "'s machine \<Rightarrow> ((nat \<Rightarrow> usize) \<Rightarrow> usize \<Rightarrow> 's \<Rightarrow> (isize, 's) call) \<Rightarrow> bool" where
  "kernel_serves M trap \<longleftrightarrow> (\<forall>regs num st. mc_trap M regs num st = trap regs num st)"

lemma kernel_servesD: "kernel_serves M trap \<Longrightarrow> syscall M num args st = trap (set_args args (mc_reg M)) num st"
  by (simp add: kernel_serves_def syscall_def)

lemma finish_syscall_Inr: "finish_syscall code t1 (Done (Inr x) (ts, s)) = Done x (time_stat_from_kernel_to_user t1 ts, s)"
  by (simp add: finish_syscall_cases)

lemma spawn_plain:
  assumes "process_abi K W" "f AND NOT 0xff = 0" "cv_clone_aspace v = Inr ()"
  shows "\<exists>w1. spawn v (sys_clone K f stack ptid ctid tls v (pw_tables w)) (ts, w) = Done (Inr (ucast (cv_new_tid v))) (ts, w1)
    \<and> pw_children w1 = pw_children w @ [\<lparr>c_pid = cv_new_tid v, c_pgid = fst (cv_group v (cv_pid v)),
       c_data = Some (Signo_from_repr K (ucast (f AND 0xff))), c_zombie = False, c_exit_code = 0, c_freed = False\<rparr>]"
  using plain_clone [OF assms, of stack ptid ctid tls "pw_tables w"] by (auto simp: spawn_def spawned_child_def)

lemma user_fork_child:
  assumes "linux_numbers a sysno" "process_abi K W" "cv_clone_aspace v = Inr ()"
    and serves: "kernel_serves M (handle_syscall a sysno code (process_body a K W v ptr sched) t0 t1)"
  shows "\<exists>ts1 w1. user_fork a M (ts, w) = Done (ucast (cv_new_tid v)) (ts1, w1)
    \<and> pw_children w1 = pw_children w @ [\<lparr>c_pid = cv_new_tid v, c_pgid = fst (cv_group v (cv_pid v)),
       c_data = Some (if a = X86_64 then Some (wait_SIGCHLD W) else None),
       c_zombie = False, c_exit_code = 0, c_freed = False\<rparr>]"
proof (cases "a = X86_64")
  case True
  have sig: "clone_SIGCHLD K AND NOT 0xff = 0" "Signo_from_repr K (ucast (clone_SIGCHLD K)) = Some (wait_SIGCHLD W)"
    using assms(2) by (simp_all add: process_abi_def)
  have low: "clone_SIGCHLD K AND 0xff = clone_SIGCHLD K"
    using sig(1) by (metis and.right_neutral bit.conj_disj_distrib bit.disj_cancel_right or.right_neutral)
  have num: "sysno (ucast (SYSCALL_FORK a)) = Some ''fork''"
    using assms(1) True by (simp add: linux_numbers_def SYSCALL_FORK_def)
  have "user_fork a M (ts, w) = finish_syscall code t1
      (process_body a K W v ptr sched ''sys_fork'' [A_frame] (time_stat_from_user_to_kernel t0 ts, w))"
    unfolding user_fork_def user_sys_fork_def kernel_servesD [OF serves]
    by (rule handle_syscall_arm [of sysno "SYSCALL_FORK a" "''fork''" a "''sys_fork''" "[Frame]" "[T_frame]" _ "[A_frame]", OF num])
      (simp_all add: True process_arms)
  with spawn_plain [OF assms(2) sig(1) assms(3), of 0 0 0 0 w "time_stat_from_user_to_kernel t0 ts"] True show ?thesis
    by (auto simp: process_body_def sys_fork_def low sig(2) finish_syscall_Inr)
next
  case False
  let ?args = "[A_frame, A_u32 0, A_usize 0, A_usize 0, A_usize (mc_reg M 3), A_usize (mc_reg M 4)]"
  have num: "sysno (ucast (SYSCALL_FORK a)) = Some ''clone''"
    using assms(1) False by (simp add: linux_numbers_def SYSCALL_FORK_def)
  have "user_fork a M (ts, w) = finish_syscall code t1
      (process_body a K W v ptr sched ''sys_clone'' ?args (time_stat_from_user_to_kernel t0 ts, w))"
    unfolding user_fork_def user_sys_fork_def kernel_servesD [OF serves]
    by (rule handle_syscall_arm [of sysno "SYSCALL_FORK a" "''clone''" a "''sys_clone''"
          "[Frame, As 0, As 1, Plain 2, Plain 3, Plain 4]" "[T_frame, T_u32, T_usize, T_usize, T_usize, T_usize]" _ ?args, OF num])
      (simp_all add: process_arms set_args_def)
  moreover have "Signo_from_repr K 0 = None" using assms(2) by (simp add: process_abi_def)
  ultimately show ?thesis
    using spawn_plain [of K W 0 v 0 0 "mc_reg M 3" "mc_reg M 4" w "time_stat_from_user_to_kernel t0 ts", OF assms(2) _ assms(3)]
      spawn_plain [of K W 0 v 0 0 "mc_reg M 4" "mc_reg M 3" w "time_stat_from_user_to_kernel t0 ts", OF assms(2) _ assms(3)] False
    by (auto simp: process_body_def finish_syscall_Inr)
qed

lemma wait_children_other:
  "\<forall>c \<in> set cs. c_pid c \<noteq> pid \<Longrightarrow> wait_children W options (WaitPid pid) (cs @ ds) = wait_children W options (WaitPid pid) ds"
  by (induction cs) (auto simp: WaitPid_apply_def)

lemma wait_for_child:
  assumes "process_abi K W" "0 < sint pid" "\<forall>c \<in> set cs. c_pid c \<noteq> pid"
    and "c_pid c = pid" "c_data c = Some sig" "c_zombie c"
  shows "if sig = Some (wait_SIGCHLD W)
    then \<exists>ds. sys_waitpid W pid (Inr True) 0 pgid sched (cs @ [c]) = Done (Inr (ucast pid), Some (c_exit_code c)) ds
    else sys_waitpid W pid (Inr True) 0 pgid sched (cs @ [c]) = Done (Inl ECHILD, None) []"
proof -
  have z: "WALL W \<noteq> 0" "WCLONE W \<noteq> 0" using assms(1) by (simp_all add: process_abi_def)
  have "pid \<noteq> - 1" using assms(2) by auto
  then have t: "wait_target pid pgid = WaitPid pid" using assms(2) by (auto simp: wait_target_def)
  have "wait_children W 0 (WaitPid pid) (cs @ [c]) = Some (if sig = Some (wait_SIGCHLD W) then [c] else [])"
    using assms(4,5) z
    by (simp add: wait_children_other [OF assms(3)] WaitPid_apply_def wait_eligible_def contains_zero is_clone_child_def)
  then show ?thesis
    using assms(4,6) by (simp add: sys_waitpid_def Let_def t from_bits_truncate_def waitpid_loop.simps)
qed

lemma child_exits_last:
  assumes "\<forall>c \<in> set cs. c_pid c \<noteq> pid" "c_pid c = pid" "pw_children w = cs @ [c]" "ev_last_thread ev"
  shows "\<exists>d. pw_children (child_exits pid (sys_exit SIGKILL n ev) w) = cs @ [d] \<and> c_pid d = pid \<and> c_data d = c_data c
    \<and> c_zombie d \<and> c_exit_code d = push_bit 8 n"
proof -
  have other: "map (\<lambda>c. if c_pid c = pid then f c else c) cs = cs" for f
    using assms(1) by (induction cs) auto
  show ?thesis
    using assms(2-4)
    by (simp add: child_exits_def other sys_exit_def do_exit_def split: sum.split option.split)
qed

lemma user_waitpid_trap:
  assumes "linux_numbers a sysno"
    and serves: "kernel_serves M (handle_syscall a sysno code (process_body a K W v ptr sched) t0 t1)"
  shows "user_waitpid a M pid (Some p) options (ts, w) = finish_syscall code t1
    (process_body a K W v ptr sched ''sys_waitpid'' [A_i32 (ucast pid), A_ptr p, A_u32 options] (time_stat_from_user_to_kernel t0 ts, w))"
proof -
  have num: "sysno (ucast (SYSCALL_WAITPID a)) = Some ''wait4''"
    using assms(1) by (simp add: linux_numbers_def SYSCALL_WAITPID_def split: if_splits)
  show ?thesis
    unfolding user_waitpid_def user_sys_waitpid_def kernel_servesD [OF serves] Let_def option.case
    by (rule handle_syscall_arm [of sysno "SYSCALL_WAITPID a" "''wait4''" a "''sys_waitpid''" "[As 0, Into 1, As 2]" "[T_i32, T_ptr, T_u32]"
          _ "[A_i32 (ucast pid), A_ptr p, A_u32 options]", OF num])
      (simp_all add: process_arms set_args_def)
qed

text \<open>
  Threads. The kernel gets the new stack pointer as flags, the argument of the thread as stack and the
  stack pointer again as the address for the identifier; the library has no stack for a seventeenth thread.
\<close>

lemma thread_spawn_trap:
  assumes "a = Riscv64 \<or> a = Aarch64" "linux_numbers a sysno" "n < MAX_THREADS"
    and serves: "kernel_serves M (handle_syscall a sysno code body t0 t1)"
    and "sp = (thread_stack_end stacks n AND - 16) - 16"
    and "(ts', s') = mc_put_word M (sp + 8) arg (mc_put_word M sp entry st)"
  shows "snd (thread_spawn a M stacks entry arg n st) = map_call Some id (finish_syscall code t1
    (body ''sys_clone'' [A_frame, A_u32 (ucast sp), A_usize arg, A_usize sp, A_usize (mc_reg M 3), A_usize (mc_reg M 4)]
      (time_stat_from_user_to_kernel t0 ts', s')))"
proof -
  let ?args = "[A_frame, A_u32 (ucast sp), A_usize arg, A_usize sp, A_usize (mc_reg M 3), A_usize (mc_reg M 4)]"
  have num: "sysno (ucast (SYSCALL_CLONE a)) = Some ''clone''"
    using assms(1,2) by (auto simp: linux_numbers_def SYSCALL_CLONE_def)
  have "syscall M (SYSCALL_CLONE a) (sp, arg, sp) (ts', s')
      = finish_syscall code t1 (body ''sys_clone'' ?args (time_stat_from_user_to_kernel t0 ts', s'))"
    unfolding kernel_servesD [OF serves]
    by (rule handle_syscall_arm [of sysno "SYSCALL_CLONE a" "''clone''" a "''sys_clone''"
          "[Frame, As 0, As 1, Plain 2, Plain 3, Plain 4]" "[T_frame, T_u32, T_usize, T_usize, T_usize, T_usize]" _ ?args, OF num])
      (simp_all add: process_arms set_args_def)
  then show ?thesis
    using assms(1,3) unfolding assms(6)
    by (auto simp: thread_spawn_def Let_def user_sys_clone_def assms(5))
qed

lemma thread_spawn_limit:
  assumes "MAX_THREADS \<le> n"
  shows "thread_spawn a M stacks entry arg n st = (n + 1, Done None st)"
  using assms by (simp add: thread_spawn_def)

lemma thread_stacks_disjoint:
  assumes "unat stacks + 16 * 16384 < 2 ^ 64" "m < n" "n < MAX_THREADS"
  shows "unat (thread_stack_end stacks m) + 16384 \<le> unat (thread_stack_end stacks n)"
proof -
  have e: "unat (thread_stack_end stacks k) = unat stacks + (k + 1) * 16384" if "k < 16" for k
  proof -
    have "unat (of_nat ((k + 1) * 16384) :: usize) = (k + 1) * 16384"
      using that unfolding unsigned_of_nat of_nat_id by (intro take_bit_nat_eq_self) simp
    then have "unat (of_nat (k + 1) * THREAD_STACK_SIZE) = (k + 1) * 16384"
      by (simp add: THREAD_STACK_SIZE_def)
    with assms(1) that show ?thesis
      unfolding thread_stack_end_def by (subst unat_add_lem [THEN iffD1]) simp_all
  qed
  show ?thesis using assms(2,3) by (simp add: e MAX_THREADS_def)
qed


definition x86_numbers :: "u32 \<Rightarrow> string option" where
  "x86_numbers = map_of [(0, ''read''), (1, ''write''), (24, ''sched_yield''), (39, ''getpid''), (56, ''clone''),
     (57, ''fork''), (59, ''execve''), (60, ''exit''), (61, ''wait4''), (228, ''clock_gettime''), (230, ''clock_nanosleep'')]"

definition generic_numbers :: "u32 \<Rightarrow> string option" where
  "generic_numbers = map_of [(63, ''read''), (64, ''write''), (124, ''sched_yield''), (172, ''getpid''), (220, ''clone''),
     (221, ''execve''), (93, ''exit''), (260, ''wait4'')]"

definition small_machine :: "((nat \<Rightarrow> usize) \<Rightarrow> usize \<Rightarrow> 's \<Rightarrow> (isize, 's) call) \<Rightarrow> 's machine" where
  "small_machine trap = \<lparr>mc_trap = trap, mc_reg = (\<lambda>_. 0), mc_word = (\<lambda>_ _. 0), mc_put_word = (\<lambda>_ _ st. st),
     mc_byte = (\<lambda>_ _. 0), mc_put_byte = (\<lambda>_ _ st. st)\<rparr>"

definition small_view :: clone_view where
  "small_view = \<lparr>cv_pid = 5, cv_exe_path = ''sh'', cv_parent = Some 1, cv_has_data = (\<lambda>_. True), cv_group = (\<lambda>_. (1, 1)),
     cv_new_tid = 6, cv_child_tid_ptr = Inr (), cv_parent_tid_ptr = Inr (), cv_clone_aspace = Inr (),
     cv_USER_HEAP_BASE = 0x40000000\<rparr>"

definition small_exit :: exit_view where
  "small_exit = \<lparr>ev_clear_tid = Inl EFAULT, ev_futex = False, ev_last_thread = True, ev_parent = Some 5,
     ev_exit_signal = None, ev_parent_has_data = True, ev_group_exited = False, ev_threads = []\<rparr>"

definition small_process :: process_world where
  "small_process = \<lparr>pw_tables = task_tables_new, pw_children = [], pw_status = Map.empty\<rparr>"

lemma small_numbers: "linux_numbers X86_64 x86_numbers" "linux_numbers Riscv64 generic_numbers"
  by (simp_all add: linux_numbers_def x86_numbers_def generic_numbers_def)

lemma small_abi: "process_abi linux_clone linux_wait"
  by (simp add: process_abi_def clone_flags_ok_def CloneFlags_all_def linux_clone_def linux_wait_def)

lemma small_machine_serves: "kernel_serves (small_machine trap) trap"
  by (simp add: kernel_serves_def small_machine_def)




end
