(* ===== verification/User_Programs.thy ===== *)
theory User_Programs
  imports User_Lib "HOL-Library.Signed_Division"
begin

text \<open>
  Test programs of \<^verbatim>\<open>apps/nimbos/rust/src/bin\<close> that compute something: the line editor of the shell,
  the matrix powers of \<^verbatim>\<open>matrix\<close> and the tree of processes of \<^verbatim>\<open>forktree\<close>.
\<close>

section \<open>The shell\<close>

definition LF :: u8 where "LF = 10"
definition CR :: u8 where "CR = 13"
definition DL :: u8 where "DL = 0x7f"
definition BS :: u8 where "BS = 8"

definition MAX_CMD_LEN :: nat where
  "MAX_CMD_LEN = 256"

text \<open>
  What the shell does besides editing: it prints, or forks a child that executes the bytes of the
  line before the cursor and waits for it.
\<close>

datatype shell_action = Prompt | NewLine | Echo u8 | Erase | Run "u8 list"

record shell =
  sh_line :: "u8 list"
  sh_cursor :: nat

definition shell_new :: shell where
  "shell_new = \<lparr>sh_line = replicate MAX_CMD_LEN 0, sh_cursor = 0\<rparr>"

text \<open>
  One turn of the loop with the character \<open>c\<close>. The argument \<open>waited\<close> says whether waiting for
  the child gave the child (the assertion after \<^verbatim>\<open>waitpid\<close>). \<open>None\<close> is a panic: an index outside the
  line, or the assertion.
\<close>

definition set_line :: "nat \<Rightarrow> u8 \<Rightarrow> shell \<Rightarrow> shell option" where
  "set_line i c s = (if i < length (sh_line s) then Some (s\<lparr>sh_line := (sh_line s)[i := c]\<rparr>) else None)"

definition shell_turn :: "(u8 list \<Rightarrow> bool) \<Rightarrow> u8 \<Rightarrow> shell \<Rightarrow> (shell_action list \<times> shell) option" where
  "shell_turn waited c s =
     (if c = LF \<or> c = CR then
        (if sh_cursor s > 0 then
           Option.bind (set_line (sh_cursor s) 0 s) (\<lambda>s1.
             let path = take (sh_cursor s1) (sh_line s1)
             in if waited path then Some ([NewLine, Run path, Prompt], s1\<lparr>sh_cursor := 0\<rparr>) else None)
         else Some ([NewLine, Prompt], s))
      else if c = BS \<or> c = DL then
        (if sh_cursor s > 0 then Some ([Erase], s\<lparr>sh_cursor := sh_cursor s - 1\<rparr>) else Some ([], s))
      else
        Option.bind (set_line (sh_cursor s) c s) (\<lambda>s1. Some ([Echo c], s1\<lparr>sh_cursor := sh_cursor s1 + 1\<rparr>)))"

fun shell_run :: "(u8 list \<Rightarrow> bool) \<Rightarrow> u8 list \<Rightarrow> shell \<Rightarrow> (shell_action list \<times> shell) option" where
  "shell_run waited [] s = Some ([], s)"
| "shell_run waited (c # cs) s =
     Option.bind (shell_turn waited c s) (\<lambda>(out, s1).
       map_option (\<lambda>(out', s2). (out @ out', s2)) (shell_run waited cs s1))"

definition user_shell_main :: "(u8 list \<Rightarrow> bool) \<Rightarrow> u8 list \<Rightarrow> (shell_action list \<times> shell) option" where
  "user_shell_main waited input = map_option (\<lambda>(out, s). (Prompt # out, s)) (shell_run waited input shell_new)"

text \<open>
  What a line editor promises, without the array: the buffer is the list of the characters typed and not
  erased, and a full line can only be erased.
\<close>

definition edit :: "u8 \<Rightarrow> u8 list \<Rightarrow> (shell_action list \<times> u8 list) option" where
  "edit c buf =
     (if c = LF \<or> c = CR then
        (if buf = [] then Some ([NewLine, Prompt], [])
         else if length buf < MAX_CMD_LEN then Some ([NewLine, Run buf, Prompt], []) else None)
      else if c = BS \<or> c = DL then Some (if buf = [] then [] else [Erase], butlast buf)
      else if length buf < MAX_CMD_LEN then Some ([Echo c], buf @ [c]) else None)"

fun edits :: "u8 list \<Rightarrow> u8 list \<Rightarrow> (shell_action list \<times> u8 list) option" where
  "edits [] buf = Some ([], buf)"
| "edits (c # cs) buf =
     Option.bind (edit c buf) (\<lambda>(out, buf1). map_option (\<lambda>(out', buf2). (out @ out', buf2)) (edits cs buf1))"

definition shell_ok :: "shell \<Rightarrow> bool" where
  "shell_ok s \<longleftrightarrow> length (sh_line s) = MAX_CMD_LEN \<and> sh_cursor s \<le> MAX_CMD_LEN"

definition shell_buf :: "shell \<Rightarrow> u8 list" where
  "shell_buf s = take (sh_cursor s) (sh_line s)"

lemma shell_turn_refines:
  assumes "shell_ok s" "\<forall>p. waited p"
  shows "case shell_turn waited c s of
      None \<Rightarrow> edit c (shell_buf s) = None
    | Some (out, s1) \<Rightarrow> shell_ok s1 \<and> edit c (shell_buf s) = Some (out, shell_buf s1)"
proof -
  have len: "length (shell_buf s) = sh_cursor s" using assms(1) by (simp add: shell_ok_def shell_buf_def)
  then have nil: "shell_buf s = [] \<longleftrightarrow> sh_cursor s = 0" by (metis length_0_conv)
  have ok: "length (sh_line s) = MAX_CMD_LEN" "sh_cursor s \<le> MAX_CMD_LEN" using assms(1) by (simp_all add: shell_ok_def)
  consider (enter) "c = LF \<or> c = CR" | (erase) "\<not> (c = LF \<or> c = CR)" "c = BS \<or> c = DL"
    | (char) "\<not> (c = LF \<or> c = CR)" "\<not> (c = BS \<or> c = DL)" by blast
  then show ?thesis
  proof cases
    case enter
    have "sh_line s \<noteq> []" using ok(1) by (auto simp: MAX_CMD_LEN_def)
    with enter show ?thesis
      using assms(2) ok len nil by (simp add: shell_turn_def edit_def set_line_def Let_def shell_ok_def shell_buf_def)
  next
    case erase
    have "butlast (shell_buf s) = take (sh_cursor s - 1) (sh_line s)"
      using ok by (simp add: shell_buf_def butlast_take)
    with erase show ?thesis
      using ok nil by (auto simp: shell_turn_def edit_def shell_ok_def shell_buf_def)
  next
    case char
    have "take (Suc (sh_cursor s)) ((sh_line s)[sh_cursor s := c]) = shell_buf s @ [c]" if "sh_cursor s < MAX_CMD_LEN"
      using that ok by (simp add: shell_buf_def take_Suc_conv_app_nth)
    with char show ?thesis
      using ok len by (simp add: shell_turn_def edit_def set_line_def shell_ok_def shell_buf_def)
  qed
qed

lemma shell_run_refines:
  assumes "shell_ok s" "\<forall>p. waited p"
  shows "map_option (\<lambda>(out, s1). (out, shell_buf s1)) (shell_run waited cs s) = edits cs (shell_buf s)"
  using assms(1)
proof (induction cs arbitrary: s)
  case (Cons c cs)
  note turn = shell_turn_refines [OF Cons.prems assms(2), of c]
  show ?case
  proof (cases "shell_turn waited c s")
    case None
    with turn show ?thesis by simp
  next
    case (Some r)
    obtain out s1 where r: "r = (out, s1)" by fastforce
    with turn Some have "shell_ok s1" "edit c (shell_buf s) = Some (out, shell_buf s1)" by simp_all
    with Cons.IH [of s1, symmetric] Some r show ?thesis
      by (cases "shell_run waited cs s1") auto
  qed
qed simp

text \<open>
  The child gets the address of the line, not its length; the zero byte that the shell stores at the
  cursor ends the string there, so the kernel reads the command and nothing left over from a longer one.
\<close>

lemma shell_command_terminated:
  assumes "shell_ok s" "0 < sh_cursor s" "sh_cursor s < MAX_CMD_LEN" "0 \<notin> set (shell_buf s)"
    and "set_line (sh_cursor s) 0 s = Some s1"
  shows "takeWhile (\<lambda>b. b \<noteq> 0) (sh_line s1) = shell_buf s"
proof -
  have s1: "sh_line s1 = (sh_line s)[sh_cursor s := 0]" using assms(5) by (auto simp: set_line_def split: if_splits)
  have line: "sh_line s1 = shell_buf s @ 0 # drop (Suc (sh_cursor s)) (sh_line s)"
    using assms(1,3) by (simp add: s1 shell_buf_def shell_ok_def upd_conv_take_nth_drop)
  have "takeWhile (\<lambda>b. b \<noteq> 0) (sh_line s1) = shell_buf s @ takeWhile (\<lambda>b. b \<noteq> 0) (0 # drop (Suc (sh_cursor s)) (sh_line s))"
    unfolding line by (rule takeWhile_append2) (use assms(4) in auto)
  then show ?thesis by simp
qed

section \<open>Matrix powers\<close>

definition matrix_N :: nat where
  "matrix_N = 10"

definition matrix_P :: int where
  "matrix_P = 10007"

type_synonym Arr = "int list list"

text \<open>Arithmetic on \<^verbatim>\<open>i32\<close>; \<open>None\<close> is an overflow.\<close>

definition i32_of :: "int \<Rightarrow> int option" where
  "i32_of x = (if - (2 ^ 31) \<le> x \<and> x < 2 ^ 31 then Some x else None)"

definition cell_step :: "Arr \<Rightarrow> Arr \<Rightarrow> nat \<Rightarrow> nat \<Rightarrow> nat \<Rightarrow> int \<Rightarrow> int option" where
  "cell_step a b i j k c =
     Option.bind (i32_of (a ! i ! k * (b ! k ! j))) (\<lambda>p.
       Option.bind (i32_of (c + p)) (\<lambda>q. Some (q smod matrix_P)))"

fun cell_loop :: "Arr \<Rightarrow> Arr \<Rightarrow> nat \<Rightarrow> nat \<Rightarrow> nat list \<Rightarrow> int \<Rightarrow> int option" where
  "cell_loop a b i j [] c = Some c"
| "cell_loop a b i j (k # ks) c = Option.bind (cell_step a b i j k c) (cell_loop a b i j ks)"

definition mat_product :: "Arr \<Rightarrow> Arr \<Rightarrow> Arr option" where
  "mat_product a b = those (map (\<lambda>i. those (map (\<lambda>j. cell_loop a b i j [0..<matrix_N] 0) [0..<matrix_N])) [0..<matrix_N])"

text \<open>\<^verbatim>\<open>work\<close>: both factors start with ones, and each turn replaces both by their product.\<close>

fun work_loop :: "nat \<Rightarrow> Arr \<Rightarrow> Arr \<Rightarrow> Arr option" where
  "work_loop 0 a b = Some a"
| "work_loop (Suc n_times) a b = Option.bind (mat_product a b) (\<lambda>c. work_loop n_times c c)"

definition work :: "nat \<Rightarrow> Arr option" where
  "work n_times = work_loop n_times (replicate matrix_N (replicate matrix_N 1)) (replicate matrix_N (replicate matrix_N 1))"

text \<open>The number of turns that a child takes from the clock.\<close>

definition matrix_times :: "isize \<Rightarrow> int" where
  "matrix_times current_time = (let t = sint (ucast current_time :: i32) in (t * t smod 1000) * 10)"

definition square_sum :: "int \<Rightarrow> int" where
  "square_sum x = 10 * x * x mod matrix_P"

lemma smod_nonneg: "0 \<le> x \<Longrightarrow> 0 < m \<Longrightarrow> x smod m = x mod m" for x m :: int
  by (cases "x = 0") (simp_all add: smod_int_alt_def)

lemma cell_loop_constant:
  assumes "0 \<le> x" "x < matrix_P" "i < matrix_N" "j < matrix_N" "set ks \<subseteq> {..<matrix_N}" "0 \<le> c" "c < matrix_P"
  shows "cell_loop (replicate matrix_N (replicate matrix_N x)) (replicate matrix_N (replicate matrix_N x)) i j ks c
    = Some ((c + int (length ks) * x * x) mod matrix_P)"
  using assms(5-7)
proof (induction ks arbitrary: c)
  case (Cons k ks)
  have "x * x \<le> 10006 * 10006" using assms(1,2) by (intro mult_mono) (simp_all add: matrix_P_def)
  moreover have "- (2 ^ 31) \<le> x * x" by (rule order_trans [of _ 0]) simp_all
  ultimately have r: "i32_of (x * x) = Some (x * x)" "i32_of (c + x * x) = Some (c + x * x)"
    using Cons.prems(2,3) by (simp_all add: i32_of_def matrix_P_def)
  have "0 \<le> c + x * x" using Cons.prems(2) by simp
  then have step: "cell_step (replicate matrix_N (replicate matrix_N x)) (replicate matrix_N (replicate matrix_N x)) i j k c = Some ((c + x * x) mod matrix_P)"
    using assms(3,4) Cons.prems(1) by (simp add: cell_step_def r smod_nonneg matrix_P_def)
  have "cell_loop (replicate matrix_N (replicate matrix_N x)) (replicate matrix_N (replicate matrix_N x)) i j ks ((c + x * x) mod matrix_P)
      = Some (((c + x * x) mod matrix_P + int (length ks) * x * x) mod matrix_P)"
    using Cons.prems(1) by (intro Cons.IH) (simp_all add: matrix_P_def)
  moreover have "((c + x * x) mod matrix_P + int (length ks) * x * x) mod matrix_P = (c + int (length (k # ks)) * x * x) mod matrix_P"
    unfolding mod_add_left_eq by (simp add: algebra_simps)
  ultimately show ?case unfolding cell_loop.simps step bind.bind_lunit by simp
qed (simp add: assms matrix_P_def)

lemma those_map_Some: "(\<And>x. x \<in> set xs \<Longrightarrow> f x = Some (g x)) \<Longrightarrow> those (map f xs) = Some (map g xs)"
  by (induction xs) auto

lemma product_constant:
  assumes "0 \<le> x" "x < matrix_P"
  shows "mat_product (replicate matrix_N (replicate matrix_N x)) (replicate matrix_N (replicate matrix_N x)) = Some (replicate matrix_N (replicate matrix_N (square_sum x)))"
proof -
  have "cell_loop (replicate matrix_N (replicate matrix_N x)) (replicate matrix_N (replicate matrix_N x)) i j [0..<matrix_N] 0 = Some (square_sum x)"
    if "i < matrix_N" "j < matrix_N" for i j
    using cell_loop_constant [OF assms that, of "[0..<matrix_N]" 0] by (simp add: square_sum_def matrix_N_def matrix_P_def atLeast0LessThan)
  then have "those (map (\<lambda>j. cell_loop (replicate matrix_N (replicate matrix_N x)) (replicate matrix_N (replicate matrix_N x)) i j [0..<matrix_N] 0) [0..<matrix_N])
      = Some (map (\<lambda>_. square_sum x) [0..<matrix_N])" if "i < matrix_N" for i
    using that by (intro those_map_Some) simp
  then have "mat_product (replicate matrix_N (replicate matrix_N x)) (replicate matrix_N (replicate matrix_N x))
      = Some (map (\<lambda>_. map (\<lambda>_. square_sum x) [0..<matrix_N]) [0..<matrix_N])"
    unfolding mat_product_def by - (rule those_map_Some, simp)
  then show ?thesis by (simp add: map_replicate_const)
qed

lemma square_sum_range: "0 \<le> square_sum x" "square_sum x < matrix_P"
  by (simp_all add: square_sum_def matrix_P_def)

text \<open>No product and no sum of \<^verbatim>\<open>work\<close> overflows, and all entries of the result are the same iterated square.\<close>

lemma work_result: "work n_times = Some (replicate matrix_N (replicate matrix_N ((square_sum ^^ n_times) 1)))"
proof -
  have "work_loop n_times (replicate matrix_N (replicate matrix_N x)) (replicate matrix_N (replicate matrix_N x))
      = Some (replicate matrix_N (replicate matrix_N ((square_sum ^^ n_times) x)))" if "0 \<le> x" "x < matrix_P" for x
    using that
  proof (induction n_times arbitrary: x)
    case (Suc n_times)
    then show ?case
      using square_sum_range [of x] by (simp add: product_constant funpow_swap1)
  qed simp
  from this [of 1] show ?thesis by (simp add: work_def matrix_P_def)
qed

lemma matrix_times_bounds: "0 \<le> matrix_times t" "matrix_times t \<le> 9990"
proof -
  let ?t = "sint (ucast t :: i32)"
  have "?t * ?t smod 1000 = ?t * ?t mod 1000" by (simp add: smod_nonneg)
  moreover have "0 \<le> ?t * ?t mod 1000" "?t * ?t mod 1000 < 1000" by simp_all
  ultimately show "0 \<le> matrix_times t" "matrix_times t \<le> 9990" unfolding matrix_times_def Let_def by linarith+
qed

section \<open>A tree of processes\<close>

definition DEPTH :: nat where
  "DEPTH = 4"

text \<open>
  The names that the processes print, over all of them, where \<open>forks\<close> says whether the fork for
  a name succeeds: the child goes on with its own subtree and exits, the parent with its next child.
\<close>

function fork_tree :: "(string \<Rightarrow> bool) \<Rightarrow> string \<Rightarrow> string list" where
  "fork_tree forks cur =
     cur # (if length cur < DEPTH then
              (if forks (cur @ ''0'') then fork_tree forks (cur @ ''0'') else []) @
              (if forks (cur @ ''1'') then fork_tree forks (cur @ ''1'') else [])
            else [])"
  by pat_completeness auto
termination by (relation "measure (\<lambda>(_, cur). DEPTH - length cur)") auto

declare fork_tree.simps [simp del]

definition forktree_main :: "(string \<Rightarrow> bool) \<Rightarrow> string list" where
  "forktree_main forks = fork_tree forks ''''"

definition names_from :: "char set \<Rightarrow> string \<Rightarrow> string set" where
  "names_from B cur = {cur @ s |s. set s \<subseteq> B \<and> length (cur @ s) \<le> DEPTH}"

lemma names_from_iff: "x \<in> names_from B cur \<longleftrightarrow> (\<exists>s. x = cur @ s \<and> set s \<subseteq> B \<and> length x \<le> DEPTH)"
  by (auto simp: names_from_def)

lemma names_from_split:
  assumes "length cur < DEPTH"
  shows "names_from B cur = insert cur (\<Union>b \<in> B. names_from B (cur @ [b]))"
proof (intro set_eqI iffI)
  fix x assume "x \<in> names_from B cur"
  then obtain s where s: "x = cur @ s" "set s \<subseteq> B" "length x \<le> DEPTH" unfolding names_from_iff by blast
  show "x \<in> insert cur (\<Union>b \<in> B. names_from B (cur @ [b]))"
  proof (cases s)
    case (Cons b t)
    with s have "x \<in> names_from B (cur @ [b])" "b \<in> B" unfolding names_from_iff by auto
    then show ?thesis by blast
  qed (simp add: s(1))
next
  fix x assume "x \<in> insert cur (\<Union>b \<in> B. names_from B (cur @ [b]))"
  then consider "x = cur" | b t where "b \<in> B" "x = (cur @ [b]) @ t" "set t \<subseteq> B" "length x \<le> DEPTH"
    unfolding insert_iff UN_iff names_from_iff by blast
  then show "x \<in> names_from B cur"
  proof cases
    case 1
    then show ?thesis using assms unfolding names_from_iff by (intro exI [of _ "[]"]) simp
  next
    case 2
    then show ?thesis unfolding names_from_iff by (intro exI [of _ "b # t"]) simp
  qed
qed

text \<open>If every fork succeeds, the names are the strings of zeros and ones up to the depth: 31 processes.\<close>

lemma fork_tree_names:
  assumes "length cur \<le> DEPTH"
  shows "set (fork_tree (\<lambda>_. True) cur) = names_from (set ''01'') cur"
  using assms
proof (induction "DEPTH - length cur" arbitrary: cur)
  case 0
  then have "length cur = DEPTH" by simp
  then show ?case by (subst fork_tree.simps) (auto simp: names_from_def)
next
  case (Suc n)
  have IH: "set (fork_tree (\<lambda>_. True) (cur @ [b])) = names_from (set ''01'') (cur @ [b])" for b
    using Suc.hyps(2) by (intro Suc.hyps(1)) simp_all
  have less: "length cur < DEPTH" using Suc.hyps(2) by simp
  show ?case
    unfolding names_from_split [OF less] fork_tree.simps [of _ cur] using less
    by (simp add: IH)
qed

lemma forktree_count: "length (forktree_main (\<lambda>_. True)) = 31"
  by (simp add: forktree_main_def fork_tree.simps DEPTH_def)

end
