(* ===== verification/App_Table.thy ===== *)
theory App_Table
  imports Prelude "HOL-Library.List_Lexorder" "HOL-Library.Char_ord"
begin

text \<open>
  The build script (\<^verbatim>\<open>build.rs\<close>), which writes an assembly file with the test programs: a table of
  their number, names and addresses, and the programs themselves.
\<close>

section \<open>The assembly file\<close>

text \<open>The lines it writes, up to their layout. \<open>Label i s\<close> is the symbol \<^verbatim>\<open>app_<i>_<s>\<close>.\<close>

datatype label = Label usize string

datatype asm =
    Section string | Balign nat | Global string | Define string | DefineLabel label
  | QuadNum nat | QuadLabel label | StringLit string | Incbin string

definition app_entry :: "string \<Rightarrow> nat \<Rightarrow> string \<Rightarrow> asm list" where
  "app_entry app_path idx app =
     [DefineLabel (Label (of_nat idx) ''name''), StringLit app, Balign 8, DefineLabel (Label (of_nat idx) ''start''),
      Incbin (app_path @ ''/'' @ app), DefineLabel (Label (of_nat idx) ''end'')]"

definition app_header :: "nat \<Rightarrow> asm list" where
  "app_header n = [Section ''.data'', Balign 8, Global ''_app_count'', Define ''_app_count'', QuadNum n]"

text \<open>
  The entries of the directory are \<open>None\<close> where reading one fails or its name is not valid text, which
  panics. Without a directory the table is empty. The index of the last program is computed in
  \<^verbatim>\<open>usize\<close>.
\<close>

definition link_app_data :: "string \<Rightarrow> string option list option \<Rightarrow> asm list option" where
  "link_app_data app_path dir =
     (case dir of
        None \<Rightarrow> Some (app_header 0)
      | Some entries \<Rightarrow>
          map_option (\<lambda>names.
            let apps = sort names
            in app_header (length apps)
               @ concat (map (\<lambda>i. [QuadLabel (Label (of_nat i) ''name''), QuadLabel (Label (of_nat i) ''start'')]) [0..<length apps])
               @ [QuadLabel (Label (of_nat (length apps) - 1) ''end'')]
               @ concat (map (\<lambda>(idx, app). app_entry app_path idx app) (enumerate 0 apps)))
          (those entries))"

definition app_path_of :: "string option \<Rightarrow> string \<Rightarrow> string" where
  "app_path_of AX_TESTCASE arch =
     ''apps/'' @ (case AX_TESTCASE of None \<Rightarrow> ''nimbos'' | Some testcase \<Rightarrow> testcase) @ ''/build/'' @ arch"

section \<open>Every symbol is defined\<close>

definition labels_used :: "asm list \<Rightarrow> label set" where
  "labels_used ls = {l. QuadLabel l \<in> set ls}"

definition labels_defined :: "asm list \<Rightarrow> label set" where
  "labels_defined ls = {l. DefineLabel l \<in> set ls}"

lemma labels_used_simps [simp]:
  "labels_used [] = {}" "labels_used (xs @ ys) = labels_used xs \<union> labels_used ys"
  "labels_used (QuadLabel l # xs) = insert l (labels_used xs)" "labels_used (DefineLabel l # xs) = labels_used xs"
  "labels_used (Section t # xs) = labels_used xs" "labels_used (Balign n # xs) = labels_used xs"
  "labels_used (Global t # xs) = labels_used xs" "labels_used (Define t # xs) = labels_used xs"
  "labels_used (QuadNum n # xs) = labels_used xs" "labels_used (StringLit t # xs) = labels_used xs"
  "labels_used (Incbin t # xs) = labels_used xs"
  by (auto simp: labels_used_def)

lemma labels_defined_simps [simp]:
  "labels_defined [] = {}" "labels_defined (xs @ ys) = labels_defined xs \<union> labels_defined ys"
  "labels_defined (DefineLabel l # xs) = insert l (labels_defined xs)" "labels_defined (QuadLabel l # xs) = labels_defined xs"
  "labels_defined (Section t # xs) = labels_defined xs" "labels_defined (Balign n # xs) = labels_defined xs"
  "labels_defined (Global t # xs) = labels_defined xs" "labels_defined (Define t # xs) = labels_defined xs"
  "labels_defined (QuadNum n # xs) = labels_defined xs" "labels_defined (StringLit t # xs) = labels_defined xs"
  "labels_defined (Incbin t # xs) = labels_defined xs"
  by (auto simp: labels_defined_def)

lemma labels_concat [simp]:
  "labels_used (concat (map f xs)) = (\<Union>x \<in> set xs. labels_used (f x))"
  "labels_defined (concat (map f xs)) = (\<Union>x \<in> set xs. labels_defined (f x))"
  by (induction xs) simp_all

definition app_labels :: "nat \<Rightarrow> label set" where
  "app_labels i = {Label (of_nat i) ''name'', Label (of_nat i) ''start'', Label (of_nat i) ''end''}"

lemma app_entry_labels: "labels_used (app_entry path i app) = {}" "labels_defined (app_entry path i app) = app_labels i"
  by (simp_all add: app_entry_def app_labels_def)

text \<open>
  With at least one program the table refers to defined symbols only. A directory that exists but is
  empty gives a reference to the end of program \<open>2 ^ 64 - 1\<close>, which is never defined.
\<close>

lemma link_app_labels:
  assumes "link_app_data path (Some entries) = Some ls" "those entries = Some names"
  shows "labels_used ls = insert (Label (of_nat (length names) - 1) ''end'')
      (\<Union>i < length names. {Label (of_nat i) ''name'', Label (of_nat i) ''start''})"
    "labels_defined ls = (\<Union>i < length names. app_labels i)"
proof -
  have ls: "ls = app_header (length names)
      @ concat (map (\<lambda>i. [QuadLabel (Label (of_nat i) ''name''), QuadLabel (Label (of_nat i) ''start'')]) [0..<length names])
      @ [QuadLabel (Label (of_nat (length names) - 1) ''end'')]
      @ concat (map (\<lambda>(idx, app). app_entry path idx app) (enumerate 0 (sort names)))"
    using assms by (simp add: link_app_data_def Let_def)
  show "labels_used ls = insert (Label (of_nat (length names) - 1) ''end'')
      (\<Union>i < length names. {Label (of_nat i) ''name'', Label (of_nat i) ''start''})"
    unfolding ls by (simp add: app_header_def case_prod_beta app_entry_labels atLeast0LessThan)
  have "fst ` set (enumerate 0 (sort names)) = {..<length names}"
    by (metis atLeast0LessThan length_sort map_fst_enumerate set_map set_upt add_0)
  then show "labels_defined ls = (\<Union>i < length names. app_labels i)"
    unfolding ls by (simp add: app_header_def case_prod_beta app_entry_labels) (metis image_image)
qed

lemma labels_used_defined:
  assumes "link_app_data path (Some entries) = Some ls" "entries \<noteq> []"
  shows "labels_used ls \<subseteq> labels_defined ls"
proof -
  obtain names where n: "those entries = Some names"
    using assms(1) by (auto simp: link_app_data_def)
  with assms(2) have "names \<noteq> []" by (cases entries) (auto split: option.splits)
  then obtain k where k: "length names = Suc k" by (cases names) auto
  have "Label (of_nat k) ''end'' \<in> app_labels k" by (simp add: app_labels_def)
  moreover have "{Label (of_nat i) ''name'', Label (of_nat i) ''start''} \<subseteq> app_labels i" for i by (simp add: app_labels_def)
  ultimately show ?thesis
    unfolding link_app_labels [OF assms(1) n] k by (intro insert_subsetI UN_mono) auto
qed

lemma empty_directory_dangling:
  "\<exists>ls. link_app_data path (Some []) = Some ls \<and> labels_used ls = {Label (- 1) ''end''} \<and> labels_defined ls = {}"
  by (simp add: link_app_data_def app_header_def)

end
