(* ===== verification/Spec2Isabelle.thy ===== *)
theory Spec2Isabelle
  imports Prelude Pipe Fd_Table Time_Stat Time_Values Names Dirents Socket_Addr Futex Tasks
    User_Memory Mmap Exec Signals Open_Stat File_IO Dispatch Boot Kernel User_Lib User_Programs App_Table
begin

text \<open>
  A verification of the kernel sources of StarryOS: the crates \<^verbatim>\<open>core\<close> and \<^verbatim>\<open>api\<close> and the kernel binary
  \<^verbatim>\<open>src\<close>, a Linux-compatible kernel on top of the ArceOS components. All paths below are relative to
  the directory of the sources.

  \<^bold>\<open>The program and its theories.\<close> A user program enters the kernel through a trap; \<^verbatim>\<open>handle_syscall\<close> picks
  the \<^verbatim>\<open>sys_*\<close> function of the call, converts the argument registers to its parameter types and encodes
  its result. The functions work on the descriptor table, the objects behind descriptors, the address
  space, the tables of threads and processes, and the memory of the program.

  \<^item> \<open>Prelude\<close>: machine integers, error codes, the \<^verbatim>\<open>?\<close> operator, bit sets, and the type \<open>call\<close> of calls
    that may wait or panic.
  \<^item> \<open>Dispatch\<close>: \<^verbatim>\<open>src/syscall.rs\<close>, with every arm of the match, the conversions and the time accounting;
    \<^verbatim>\<open>api/src/imp/sys.rs\<close> and \<^verbatim>\<open>sys_arch_prctl\<close>. Every arm is well typed on every architecture.
  \<^item> \<open>Kernel\<close>: the entry of \<open>Dispatch\<close> with the calls on descriptors, the program break and identifiers behind
    it, and the states that a program reaches with them. What these states satisfy, that the calls return,
    and the only two ways to make them panic.
  \<^item> \<open>Boot\<close>: \<^verbatim>\<open>src/main.rs\<close>, \<^verbatim>\<open>src/entry.rs\<close>, the creation of tasks and the resource namespaces in
    \<^verbatim>\<open>core/src/task.rs\<close>.
  \<^item> \<open>Addr_Space\<close>: what the kernel relies on of \<^verbatim>\<open>memory_addr\<close> and \<^verbatim>\<open>axmm\<close>, the locales \<open>page_addresses\<close>
    and \<open>address_space\<close>, interpreted on masks and on lists of pages.
  \<^item> \<open>User_Memory\<close>: \<^verbatim>\<open>api/src/ptr.rs\<close>, the checks behind every user pointer, and the page fault handler of
    \<^verbatim>\<open>src/mm.rs\<close>. What a successful check guarantees, when it panics, and that the scan for a terminator
    ends.
  \<^item> \<open>Mmap\<close>: \<^verbatim>\<open>api/src/imp/mm\<close>, with the heap bounds kept in \<^verbatim>\<open>ProcessData\<close>. Which addresses a mapping
    changes, and that the program break stays inside the heap.
  \<^item> \<open>Exec\<close>: \<^verbatim>\<open>core/src/mm.rs\<close> and \<^verbatim>\<open>api/src/imp/task/execve.rs\<close>. When loading ends, what it maps, and what a
    failed call leaves.
  \<^item> \<open>Tasks\<close>: the tables of \<^verbatim>\<open>core/src/task.rs\<close> and the calls of \<^verbatim>\<open>api/src/imp/task\<close>: clone, exit, wait, identifiers.
  \<^item> \<open>Signals\<close>: \<^verbatim>\<open>api/src/signal.rs\<close> and \<^verbatim>\<open>api/src/imp/signal.rs\<close>.
  \<^item> \<open>Futex\<close>: \<^verbatim>\<open>core/src/futex.rs\<close> and \<^verbatim>\<open>api/src/imp/futex.rs\<close>, as functions and as a step relation for
    concurrent calls.
  \<^item> \<open>Time_Stat\<close> and \<open>Time_Values\<close>: \<^verbatim>\<open>core/src/time.rs\<close>, \<^verbatim>\<open>api/src/time.rs\<close> and the calls on clocks and sleeping.
  \<^item> \<open>Fd_Table\<close>: the table of \<^verbatim>\<open>api/src/file/mod.rs\<close> and the calls close, dup, dup2, fcntl and pipe2, over the
    locale \<open>flatten_objects\<close> of the container's laws.
  \<^item> \<open>Ring_Buffer\<close> and \<open>Pipe\<close>: \<^verbatim>\<open>api/src/file/pipe.rs\<close>. The ring implements a bounded queue (locale
    \<open>byte_queue\<close>); reading and writing are turns of a loop, and a step relation interleaves many tasks.
  \<^item> \<open>File_IO\<close>: the trait \<^verbatim>\<open>FileLike\<close>, the console, sockets, and the calls of \<^verbatim>\<open>api/src/imp/fs/io.rs\<close>, on the
    pipes of \<open>Pipe\<close> and the table of \<open>Fd_Table\<close>.
  \<^item> \<open>Open_Stat\<close>: open flags, open, openat and the stat calls.
  \<^item> \<open>Paths\<close> and \<open>Names\<close>: \<^verbatim>\<open>api/src/path.rs\<close> with the hard link table, and the calls of
    \<^verbatim>\<open>api/src/imp/fs/ctl.rs\<close> and \<^verbatim>\<open>api/src/imp/fs/mount.rs\<close>.
  \<^item> \<open>Bytes\<close>, \<open>Dirents\<close> and \<open>Socket_Addr\<close>: the byte layouts of directory entries and socket addresses, with
    \<^verbatim>\<open>getdents64\<close> and \<^verbatim>\<open>api/src/socket.rs\<close>.
  \<^item> \<open>User_Lib\<close>: the user library of the test programs, \<^verbatim>\<open>apps/nimbos/rust/src\<close>, on the entry of \<open>Dispatch\<close> and
    the calls of \<open>Tasks\<close>. What forking, waiting and sleeping with the library do on this kernel.
  \<^item> \<open>User_Programs\<close>: the line editor of the shell refines a plain one, the matrix program does not overflow,
    and the names of the fork tree.
  \<^item> \<open>App_Table\<close>: \<^verbatim>\<open>build.rs\<close>, the assembly file with the test programs and the symbols it uses.

  \<^bold>\<open>How code becomes definitions.\<close> A function has a definition with its name, with the name of its type
  in front where names would clash. State is passed explicitly. A Rust error is \<open>Inl\<close>, a panic is \<open>None\<close>
  or \<open>Panic\<close>. The \<^verbatim>\<open>usize\<close> and \<^verbatim>\<open>i32\<close> of the sources are words, and their arithmetic wraps. Code of other crates
  is an argument: a record of its operations, and where a theorem relies on what these do, a locale
  with the laws, which is interpreted on a concrete instance. Constants of the Linux interface are
  fields of such records; the witnesses give them their values. A check of a user pointer appears in
  most calls as its outcome, an argument; \<open>User_Memory\<close> is about the check itself.

  \<^bold>\<open>Waiting and loops.\<close> A call that yields takes a list of what the other tasks do at each yield, and
  \<open>Pending\<close> is the state when the list is used up. There is no other bound: a statement that such a call
  returns says how long a list is enough. Loops that may run for ever (\<^verbatim>\<open>check_null_terminated\<close>,
  \<^verbatim>\<open>load_user_app\<close>) are partial functions to \<open>option\<close>, and their theorems say when they return.

  \<^bold>\<open>What is not modelled.\<close> Printing and logging; locks, since every critical section is one step; the
  assembly that enters user mode, and that of the user library behind the trap of a new thread; the wait
  for a started program in \<^verbatim>\<open>run_user_app\<close>; the test programs that only print and make calls. The module
  files hold declarations and re-exports, no code. Drops of reference-counted objects are modelled for
  futex queues and for pipe ends closed by their only process. The states of \<open>Kernel\<close> hold the descriptor
  table and not the objects behind it, so the flag that \<^verbatim>\<open>fcntl\<close> sets on a socket is left out there.

  This theory holds the property that spans loading and the heap.
\<close>

section \<open>Properties across components\<close>

text \<open>
  C33. A loaded program and its heap. When \<^verbatim>\<open>load_user_app\<close> succeeds, following the interpreters has
  led to an ELF file, the entry point is that of the file, every byte of its segments is mapped,
  the stack is readable and writable and the stack pointer leaves room for the arguments. Whatever sequence of \<^verbatim>\<open>sys_brk\<close> calls the new process then
  makes, every address from the bottom of the heap to the program break is readable and writable.
\<close>

theorem loaded_program_heap:
  assumes "exec_memory E perm"
    and "load_user_app E args envs s = Some (LoadDone (Inr (entry, sp)) s')"
    and "unat (USER_HEAP_BASE E) + unat (USER_HEAP_SIZE E) < 2 ^ 64"
    and "brk_calls (USER_HEAP_SIZE E) addrs (ProcessData_new (USER_HEAP_BASE E) exe asp acts sig) = (rs, pd)"
  shows "(\<forall>x. unat (USER_HEAP_BASE E) \<le> x \<and> x < unat (pd_heap_top pd) \<longrightarrow> perm s' x = Some {READ, WRITE, USER})
    \<and> (\<forall>x \<in> region (USER_STACK_TOP E - USER_STACK_SIZE E) (USER_STACK_SIZE E). perm s' x = Some {READ, WRITE, USER})
    \<and> (\<exists>args' elf input segs auxv. (args, args') \<in> (interpreted_by E)\<^sup>* \<and> exec_plan E args' = PlanElf elf input
        \<and> elf_parse elf (as_base (ex_space E) s) = Some (segs, entry, auxv)
        \<and> sp = USER_STACK_TOP E - of_nat (length (app_stack_region E args' envs auxv
            (USER_STACK_TOP E - USER_STACK_SIZE E) (USER_STACK_SIZE E)))
        \<and> (\<forall>seg \<in> set segs. unat (seg_vaddr seg) + unat (seg_memsz seg) + 4096 \<le> 2 ^ 64 \<longrightarrow>
              (\<forall>x \<in> region (seg_vaddr seg) (seg_memsz seg). perm s' x \<noteq> None)))"
proof -
  obtain args' elf input where plan: "(args, args') \<in> (interpreted_by E)\<^sup>*" "exec_plan E args' = PlanElf elf input"
    and load: "load_elf E elf input args' envs s = LoadDone (Inr (entry, sp)) s'"
    by (rule load_user_app_loaded [OF assms(2)])
  obtain segs auxv where segs: "elf_parse elf (as_base (ex_space E) s) = Some (segs, entry, auxv)"
    and sp: "sp = USER_STACK_TOP E - of_nat (length (app_stack_region E args' envs auxv
        (USER_STACK_TOP E - USER_STACK_SIZE E) (USER_STACK_SIZE E)))"
    and rw: "\<And>x. x \<in> region (USER_STACK_TOP E - USER_STACK_SIZE E) (USER_STACK_SIZE E)
        \<union> region (USER_HEAP_BASE E) (USER_HEAP_SIZE E) \<Longrightarrow> perm s' x = Some {READ, WRITE, USER}"
    and mapped: "\<And>seg x. seg \<in> set segs \<Longrightarrow> unat (seg_vaddr seg) + unat (seg_memsz seg) + 4096 \<le> 2 ^ 64 \<Longrightarrow>
        x \<in> region (seg_vaddr seg) (seg_memsz seg) \<Longrightarrow> perm s' x \<noteq> None"
    by (rule exec_memory.load_elf_mapped [OF assms(1) load]) (rule that)
  have "pd_heap_bottom (ProcessData_new (USER_HEAP_BASE E) exe asp acts sig) = USER_HEAP_BASE E"
    "pd_heap_top (ProcessData_new (USER_HEAP_BASE E) exe asp acts sig) = USER_HEAP_BASE E"
    by (simp_all add: ProcessData_new_def)
  then have hi: "unat (pd_heap_top pd) \<le> unat (USER_HEAP_BASE E) + unat (USER_HEAP_SIZE E)"
    using brk_calls_bounds [OF _ _ _ assms(4)] assms(3) by simp
  have "perm s' x = Some {READ, WRITE, USER}" if "unat (USER_HEAP_BASE E) \<le> x \<and> x < unat (pd_heap_top pd)" for x
    using that hi by (intro rw) auto
  moreover have "perm s' x = Some {READ, WRITE, USER}"
    if "x \<in> region (USER_STACK_TOP E - USER_STACK_SIZE E) (USER_STACK_SIZE E)" for x
    using that by (intro rw) blast
  ultimately show ?thesis using plan segs sp mapped by blast
qed

theorem loaded_program_heap_witness:
  "\<exists>s'. load_user_app plain_exec [bytes_of ''/p''] [] [] = Some (LoadDone (Inr (0x10010, 0x3FFFF)) s')
     \<and> page_perm s' 0x200FF = Some {READ, WRITE, USER} \<and> page_perm s' 0x10020 \<noteq> None"
proof -
  have "\<exists>s'. load_user_app plain_exec [bytes_of ''/p''] [] [] = Some (LoadDone (Inr (0x10010, 0x3FFFF)) s')"
    by (subst load_user_app.simps)
      (simp add: exec_plan_def plain_exec_def bytes_of_def load_elf_def map_elf_def one_segment_def page_space_def
        PAGE_SIZE_4K_def mask_addr_def page_aligned_def pages_of_def slice_get_def Let_def upt_rec)
  then obtain s' where run: "load_user_app plain_exec [bytes_of ''/p''] [] [] = Some (LoadDone (Inr (0x10010, 0x3FFFF)) s')" ..
  have heap: "USER_HEAP_BASE plain_exec = 0x20000" "USER_HEAP_SIZE plain_exec = 0x2000" by (simp_all add: plain_exec_def)
  obtain rs pd where brk: "brk_calls (USER_HEAP_SIZE plain_exec) [0x20100]
      (ProcessData_new (USER_HEAP_BASE plain_exec) [] Copied DefaultActions None) = (rs, pd)" "pd_heap_top pd = 0x20100"
    by (simp add: heap sys_brk_def ProcessData_new_def get_heap_top_def get_heap_bottom_def set_heap_top_def)
  have bound: "unat (USER_HEAP_BASE plain_exec) + unat (USER_HEAP_SIZE plain_exec) < 2 ^ 64" by (simp add: heap)
  note loaded = loaded_program_heap [OF plain_exec_memory run bound brk(1)]
  have "page_perm s' 0x200FF = Some {READ, WRITE, USER}"
    by (rule loaded [THEN conjunct1, rule_format]) (simp add: heap brk(2))
  moreover obtain args' elf input segs auxv where el: "([bytes_of ''/p''], args') \<in> (interpreted_by plain_exec)\<^sup>*"
    "exec_plan plain_exec args' = PlanElf elf input"
    "elf_parse elf (as_base (ex_space plain_exec) []) = Some (segs, 0x10010, auxv)"
    "\<forall>seg \<in> set segs. unat (seg_vaddr seg) + unat (seg_memsz seg) + 4096 \<le> 2 ^ 64 \<longrightarrow>
       (\<forall>x \<in> region (seg_vaddr seg) (seg_memsz seg). page_perm s' x \<noteq> None)"
    using loaded by blast
  have plan: "exec_plan plain_exec [bytes_of ''/p''] =
      PlanElf \<lparr>elf_interp = None, elf_parse = (\<lambda>_. Some ([one_segment], 0x10010, []))\<rparr> (0x7F # replicate 16 0)"
    by (simp add: exec_plan_def plain_exec_def bytes_of_def)
  have "args' = [bytes_of ''/p'']"
    using el(1) plan by (cases rule: converse_rtranclE) (auto simp: interpreted_by_def)
  with el(2,3) plan have "segs = [one_segment]" by auto
  with el(4) have "page_perm s' 0x10020 \<noteq> None" by (auto simp: one_segment_def)
  ultimately show ?thesis using run by blast
qed

end
